(* ===== verification/Nws_Prelude.thy ===== *)
theory Nws_Prelude
  imports Main "HOL-Library.Word" "HOL-Library.Signed_Division"
begin

text \<open>
  Shared vocabulary of the development: the collections of simplification rules the component
  theories fill, the result type of fallible operations, the environment (steady clock and sleeping
  thread) the blocking operations run in, and the parts of the C++ standard library the sources
  use on strings and integers: \<open>std::string_view\<close> searching, \<open>std::to_string\<close> and the chrono
  conversions.
\<close>

section \<open>Collections of rules\<close>

named_theorems text_simps \<open>string scanning of the standard library\<close>
named_theorems limiter_simps \<open>token bucket operations\<close>
named_theorems cache_simps \<open>LRU cache operations\<close>
named_theorems json_simps \<open>null-safe JSON accessors\<close>
named_theorems double_simps \<open>binary64 comparisons and arithmetic\<close>
named_theorems api_simps \<open>client endpoints\<close>

section \<open>Results\<close>

text \<open>
  \<open>std::expected<T, E>\<close> is a sum: \<open>Inl\<close> carries the error, \<open>Inr\<close> the value. \<open>bind_result\<close> is the
  pattern \<open>if (!x) return std::unexpected(x.error());\<close>.
\<close>

definition bind_result :: "'e + 'a \<Rightarrow> ('a \<Rightarrow> 'e + 'b) \<Rightarrow> 'e + 'b" where
  "bind_result r f = (case r of Inl e \<Rightarrow> Inl e | Inr x \<Rightarrow> f x)"

lemma bind_result_simps [simp]:
  "bind_result (Inl e) f = Inl e"
  "bind_result (Inr x) f = f x"
  by (simp_all add: bind_result_def)

lemma bind_result_Inr_iff:
  "bind_result r f = Inr y \<longleftrightarrow> (\<exists>x. r = Inr x \<and> f x = Inr y)"
  by (cases r) simp_all


section \<open>Integers\<close>

text \<open>\<open>std::to_string\<close> on integers: decimal digits with a leading minus sign.\<close>

definition digit_char :: "nat \<Rightarrow> char" where
  "digit_char d = char_of (48 + d)"

fun nat_to_string :: "nat \<Rightarrow> string" where
  "nat_to_string n =
     (if n < 10 then [digit_char n] else nat_to_string (n div 10) @ [digit_char (n mod 10)])"

declare nat_to_string.simps [simp del]

definition int_to_string :: "int \<Rightarrow> string" where
  "int_to_string i = (if i < 0 then CHR ''-'' # nat_to_string (nat (- i)) else nat_to_string (nat i))"

lemma nat_to_string_nonempty [simp]: "nat_to_string n \<noteq> []"
  by (subst nat_to_string.simps) simp

lemma int_to_string_nonempty [simp]: "int_to_string i \<noteq> []"
  by (simp add: int_to_string_def)

lemma nat_to_string_digits: "c \<in> set (nat_to_string n) \<Longrightarrow> \<exists>d<10. c = digit_char d"
proof (induction n rule: nat_to_string.induct)
  case (1 n)
  show ?case
  proof (cases "n < 10")
    case True
    with "1.prems" show ?thesis by (subst (asm) nat_to_string.simps) auto
  next
    case False
    have "c = digit_char (n mod 10) \<or> c \<in> set (nat_to_string (n div 10))"
      using "1.prems" False by (subst (asm) nat_to_string.simps) auto
    moreover have "n mod 10 < 10" by simp
    ultimately show ?thesis using "1.IH" [OF False] by blast
  qed
qed

text \<open>Ranges of the signed integer types.\<close>

abbreviation (input) int32_range :: "int \<Rightarrow> bool" where
  "int32_range i \<equiv> - 2147483648 \<le> i \<and> i \<le> 2147483647"

abbreviation (input) int64_max :: int where
  "int64_max \<equiv> 9223372036854775807"

abbreviation (input) int64_range :: "int \<Rightarrow> bool" where
  "int64_range i \<equiv> - 9223372036854775808 \<le> i \<and> i \<le> int64_max"

text \<open>Conversion of an integer to a signed 16-bit integer: two's complement wrap-around.\<close>

definition to_int16 :: "int \<Rightarrow> int" where
  "to_int16 i = sint (word_of_int i :: 16 word)"

lemma to_int16_id: "- 32768 \<le> i \<Longrightarrow> i \<le> 32767 \<Longrightarrow> to_int16 i = i"
  by (simp add: to_int16_def sint_sbintrunc' signed_take_bit_int_eq_self)

lemma sdiv_nonneg: "0 \<le> a \<Longrightarrow> 0 < b \<Longrightarrow> a sdiv b = a div (b::int)"
  by (simp add: signed_divide_int_def sgn_if)

section \<open>Time\<close>

text \<open>
  Time points and durations of \<open>std::chrono::steady_clock\<close> are signed 64-bit counts of nanoseconds;
  \<open>std::chrono::milliseconds\<close> a signed count of milliseconds. A conversion to a coarser unit
  truncates towards zero.
\<close>

type_synonym nanoseconds = int
type_synonym milliseconds = int
type_synonym seconds = int

abbreviation (input) ns_per_ms :: int where "ns_per_ms \<equiv> 1000000"
abbreviation (input) ns_per_s :: int where "ns_per_s \<equiv> 1000000000"

definition ns_to_ms :: "nanoseconds \<Rightarrow> milliseconds" where
  "ns_to_ms d = d sdiv ns_per_ms"

definition ms_to_ns :: "milliseconds \<Rightarrow> nanoseconds" where
  "ms_to_ns d = d * ns_per_ms"

text \<open>
  The outside world of a blocking operation is a state of any type \<open>'w\<close> with two operations:
  reading the steady clock and putting the thread to sleep. \<open>steady_env\<close> is what the standard
  promises of them: the clock never goes backwards (\<open>tm w\<close> is a lower bound of every later
  reading) and \<open>sleep_for d\<close> blocks for at least \<open>d\<close>.
\<close>

record 'w env =
  steady_now :: "'w \<Rightarrow> nanoseconds \<times> 'w"
  sleep_for :: "nanoseconds \<Rightarrow> 'w \<Rightarrow> 'w"

definition steady_env :: "'w env \<Rightarrow> ('w \<Rightarrow> nanoseconds) \<Rightarrow> bool" where
  "steady_env env tm \<longleftrightarrow>
     (\<forall>w. tm w \<le> fst (steady_now env w) \<and> fst (steady_now env w) \<le> tm (snd (steady_now env w))) \<and>
     (\<forall>d w. tm w + max d 0 \<le> tm (sleep_for env d w))"

lemma steady_env_now:
  assumes "steady_env env tm" and "steady_now env w = (n, w')"
  shows "tm w \<le> n" "n \<le> tm w'"
proof -
  have "tm w \<le> fst (steady_now env w) \<and> fst (steady_now env w) \<le> tm (snd (steady_now env w))"
    using assms(1) unfolding steady_env_def by blast
  then show "tm w \<le> n" "n \<le> tm w'" by (simp_all add: assms(2))
qed

lemma steady_env_sleep:
  "steady_env env tm \<Longrightarrow> tm w + max d 0 \<le> tm (sleep_for env d w)"
  unfolding steady_env_def by blast


text \<open>A concrete clock that advances by one nanosecond at every reading, for the witnesses.\<close>

definition tick_env :: "int env" where
  "tick_env = \<lparr>steady_now = (\<lambda>w. (w, w + 1)), sleep_for = (\<lambda>d w. w + max d 0)\<rparr>"

lemma tick_env_steady: "steady_env tick_env (\<lambda>w. w)"
  by (simp add: steady_env_def tick_env_def)

section \<open>Splitting and joining\<close>

text \<open>\<open>split_on c s\<close> cuts at every \<open>c\<close>; \<open>join_with c\<close> puts the separators back.\<close>

fun split_on :: "'a \<Rightarrow> 'a list \<Rightarrow> 'a list list" where
  "split_on c [] = [[]]"
| "split_on c (x # xs) =
     (if x = c then [] # split_on c xs
      else case split_on c xs of [] \<Rightarrow> [[x]] | y # ys \<Rightarrow> (x # y) # ys)"

fun join_with :: "'a \<Rightarrow> 'a list list \<Rightarrow> 'a list" where
  "join_with c [] = []"
| "join_with c [x] = x"
| "join_with c (x # y # ys) = x @ c # join_with c (y # ys)"

lemma split_on_nonempty [simp]: "split_on c s \<noteq> []"
  by (cases s) (auto split: list.splits)

lemma split_on_none: "c \<notin> set s \<Longrightarrow> split_on c s = [s]"
  by (induction s) auto

lemma split_on_append: "c \<notin> set x \<Longrightarrow> split_on c (x @ c # y) = x # split_on c y"
  by (induction x) auto

lemma split_on_join_with:
  "xs \<noteq> [] \<Longrightarrow> (\<forall>x\<in>set xs. c \<notin> set x) \<Longrightarrow> split_on c (join_with c xs) = xs"
  by (induction c xs rule: join_with.induct) (auto simp: split_on_none split_on_append)

lemma join_with_split_on: "join_with c (split_on c s) = s"
proof (induction s)
  case (Cons x xs)
  obtain y ys where "split_on c xs = y # ys" by (cases "split_on c xs") auto
  with Cons show ?case by (cases ys) auto
qed simp

lemma set_join_with: "set (join_with c xs) \<subseteq> insert c (\<Union> (set ` set xs))"
  by (induction c xs rule: join_with.induct) auto


section \<open>String views\<close>

text \<open>
  \<open>std::string_view\<close> searches return a position or \<open>npos\<close> (here \<open>None\<close>); \<open>substr pos n\<close> takes at most
  \<open>n\<close> characters from a position inside the string.
\<close>

fun find_index :: "('a \<Rightarrow> bool) \<Rightarrow> 'a list \<Rightarrow> nat option" where
  "find_index P [] = None"
| "find_index P (x # xs) = (if P x then Some 0 else map_option Suc (find_index P xs))"

definition find_last_index :: "('a \<Rightarrow> bool) \<Rightarrow> 'a list \<Rightarrow> nat option" where
  "find_last_index P xs = map_option (\<lambda>i. length xs - 1 - i) (find_index P (rev xs))"

definition find_first_not_of :: "string \<Rightarrow> string \<Rightarrow> nat option" where
  "find_first_not_of s cs = find_index (\<lambda>c. c \<notin> set cs) s"

definition find_last_not_of :: "string \<Rightarrow> string \<Rightarrow> nat option" where
  "find_last_not_of s cs = find_last_index (\<lambda>c. c \<notin> set cs) s"

definition substr :: "string \<Rightarrow> nat \<Rightarrow> nat \<Rightarrow> string" where
  "substr s pos n = take n (drop pos s)"

definition starts_with :: "string \<Rightarrow> string \<Rightarrow> bool" where
  "starts_with s p \<longleftrightarrow> take (length p) s = p"

lemma find_index_None [text_simps]: "find_index P xs = None \<longleftrightarrow> (\<forall>x\<in>set xs. \<not> P x)"
  by (induction xs) auto

lemma find_index_Some:
  "find_index P xs = Some i \<Longrightarrow> i < length xs \<and> P (xs ! i) \<and> (\<forall>j<i. \<not> P (xs ! j))"
proof (induction xs arbitrary: i)
  case (Cons x xs)
  show ?case
  proof (cases "P x")
    case False
    with Cons.prems obtain k where k: "i = Suc k" "find_index P xs = Some k" by auto
    from Cons.IH [OF k(2)] k False show ?thesis by (auto simp: less_Suc_eq_0_disj)
  qed (use Cons.prems in auto)
qed simp

lemma find_last_index_None [text_simps]: "find_last_index P xs = None \<longleftrightarrow> (\<forall>x\<in>set xs. \<not> P x)"
  by (simp add: find_last_index_def find_index_None)

lemma find_last_index_Some:
  assumes "find_last_index P xs = Some i"
  shows "i < length xs" "P (xs ! i)" "i < j \<Longrightarrow> j < length xs \<Longrightarrow> \<not> P (xs ! j)"
proof -
  obtain k where k: "find_index P (rev xs) = Some k" and i: "i = length xs - 1 - k"
    using assms by (auto simp: find_last_index_def)
  note f = find_index_Some [OF k]
  then have len: "k < length xs" by simp
  then show "i < length xs" using i by linarith
  show "P (xs ! i)" using f i len by (simp add: rev_nth)
  assume j: "i < j" "j < length xs"
  have "length xs - Suc j < k" using j i len by linarith
  then have "\<not> P (rev xs ! (length xs - Suc j))" using f by blast
  then show "\<not> P (xs ! j)" using j by (simp add: rev_nth)
qed

lemma take_while_find_index:
  "find_index P xs = Some i \<Longrightarrow> takeWhile (\<lambda>x. \<not> P x) xs = take i xs"
  by (induction xs arbitrary: i) (auto split: if_splits)

section \<open>Simulation\<close>

text \<open>
  The contract between a component with internal structure and its specification: every operation
  is defined on a state of the invariant (\<open>None\<close> is undefined behaviour), keeps the invariant and
  gives the result and the state the specification gives on the abstract state. Runs of any length
  then agree.
\<close>

fun run_steps :: "('op \<Rightarrow> 'c \<Rightarrow> ('r \<times> 'c) option) \<Rightarrow> 'op list \<Rightarrow> 'c \<Rightarrow> ('r list \<times> 'c) option" where
  "run_steps step [] c = Some ([], c)"
| "run_steps step (x # xs) c =
     (case step x c of
        None \<Rightarrow> None
      | Some (r, c) \<Rightarrow> map_option (\<lambda>(rs, c). (r # rs, c)) (run_steps step xs c))"

fun run_spec :: "('op \<Rightarrow> 's \<Rightarrow> 'r \<times> 's) \<Rightarrow> 'op list \<Rightarrow> 's \<Rightarrow> 'r list \<times> 's" where
  "run_spec spec [] s = ([], s)"
| "run_spec spec (x # xs) s =
     (case spec x s of (r, s) \<Rightarrow> case run_spec spec xs s of (rs, s) \<Rightarrow> (r # rs, s))"

locale simulation =
  fixes inv :: "'c \<Rightarrow> bool"
    and abs_state :: "'c \<Rightarrow> 's"
    and step :: "'op \<Rightarrow> 'c \<Rightarrow> ('r \<times> 'c) option"
    and spec :: "'op \<Rightarrow> 's \<Rightarrow> 'r \<times> 's"
  assumes simulate:
    "inv c \<Longrightarrow> \<exists>r c'. step x c = Some (r, c') \<and> inv c' \<and> spec x (abs_state c) = (r, abs_state c')"
begin

lemma run_simulates:
  "inv c \<Longrightarrow>
   \<exists>rs c'. run_steps step xs c = Some (rs, c') \<and> inv c' \<and>
           run_spec spec xs (abs_state c) = (rs, abs_state c')"
proof (induction xs arbitrary: c)
  case (Cons x xs)
  obtain r c1 where s: "step x c = Some (r, c1)" "inv c1" "spec x (abs_state c) = (r, abs_state c1)"
    using simulate [OF Cons.prems] by blast
  with Cons.IH [OF s(2)] show ?case by auto
qed simp

lemma run_invariant: "inv c \<Longrightarrow> run_steps step xs c = Some (rs, c') \<Longrightarrow> inv c'"
  using run_simulates [of c xs] by auto

end

end
