(* ===== verification/Binary64.thy ===== *)
theory Binary64
  imports Complex_Main Nws_Prelude "HOL-Library.Log_Nat"
begin

text \<open>
  The C++ type \<open>double\<close> as IEEE 754 binary64: the NaNs, each with its sign bit and payload, two
  infinities and finite values with a sign bit (so that \<open>-0.0\<close> and \<open>0.0\<close> differ) and an exact rational
  magnitude. Arithmetic is the exact
  operation followed by round-to-nearest-even to 53 significant bits with gradual underflow and
  overflow to infinity. Everything is executable on rationals; the lemmas show that rounding is
  monotone, idempotent and exact on small integers.
\<close>

section \<open>Values\<close>

datatype double = NaN bool "52 word" | Inf bool | Fin bool rat

text \<open>
  An operation on a NaN gives the quiet NaN with its payload; one that has no result gives a default.
  IEEE 754 leaves the choice of the operand and of the default open; nothing below depends on it.
\<close>

definition quiet :: "bool \<Rightarrow> 52 word \<Rightarrow> double" where
  "quiet s p = NaN s (set_bit 51 p)"

definition default_nan :: double where
  "default_nan = quiet False 0"

fun dval :: "double \<Rightarrow> rat" where
  "dval (Fin s m) = (if s then - m else m)"
| "dval _ = 0"

fun isnan :: "double \<Rightarrow> bool" where
  "isnan (NaN s p) = True"
| "isnan _ = False"

fun isfinite :: "double \<Rightarrow> bool" where
  "isfinite (Fin s m) = True"
| "isfinite _ = False"

lemma isfinite_not_nan [simp]: "isfinite x \<Longrightarrow> \<not> isnan x"
  by (cases x) auto

section \<open>Rounding\<close>

text \<open>\<open>ilog2 x\<close> is the exponent of the leading bit of a positive rational.\<close>

definition ilog2 :: "rat \<Rightarrow> int" where
  "ilog2 x = (let (p, q) = quotient_of x; k = bitlen p - bitlen q
              in if 2 powi k \<le> x then k else k - 1)"

definition rne :: "rat \<Rightarrow> int" where
  "rne x = (let f = \<lfloor>x\<rfloor>; d = x - of_int f
            in if d < 1 / 2 then f else if 1 / 2 < d then f + 1
               else if even f then f else f + 1)"

definition ulp_exp :: "rat \<Rightarrow> int" where
  "ulp_exp x = max (ilog2 x - 52) (- 1074)"

definition round_mag :: "rat \<Rightarrow> rat" where
  "round_mag x = (if x \<le> 0 then 0
                  else of_int (rne (x / 2 powi (ulp_exp x))) * 2 powi (ulp_exp x))"

definition overflow_threshold :: rat where
  "overflow_threshold = 2 ^ 1024"

definition round64 :: "bool \<Rightarrow> rat \<Rightarrow> double" where
  "round64 s x = (let r = round_mag x in if overflow_threshold \<le> r then Inf s else Fin s r)"

lemma small_no_overflow: "x \<le> 2 ^ 63 \<Longrightarrow> \<not> overflow_threshold \<le> x"
proof -
  have "(2::rat) ^ 63 < 2 ^ 1024" by (intro power_strict_increasing) simp_all
  then show "x \<le> 2 ^ 63 \<Longrightarrow> \<not> overflow_threshold \<le> x" unfolding overflow_threshold_def by linarith
qed

lemma small_no_overflow_simps [simp]:
  "\<not> overflow_threshold \<le> 0" "\<not> overflow_threshold \<le> 1" "0 < overflow_threshold"
  "1 < overflow_threshold" "2 < overflow_threshold"
  using small_no_overflow [of 0] small_no_overflow [of 1] small_no_overflow [of 2] by simp_all


subsection \<open>The leading bit\<close>

lemma powi2_le_iff: "(2::rat) powi i \<le> 2 powi j \<longleftrightarrow> i \<le> j"
  using power_int_strict_increasing [of j i "2::rat"] power_int_increasing [of i j "2::rat"]
  by (meson linorder_not_le one_le_numeral one_less_numeral_iff semiring_norm(76))

lemma powi2_less_iff: "(2::rat) powi i < 2 powi j \<longleftrightarrow> i < j"
  by (simp add: powi2_le_iff flip: not_le)

lemma powi2_pos [simp]: "0 < (2::rat) powi i"
  by simp

lemma bitlen_powi:
  assumes "0 < n"
  shows "2 powi (bitlen n - 1) \<le> (of_int n :: rat)" and "(of_int n :: rat) < 2 powi bitlen n"
proof -
  have b: "2 ^ nat (bitlen n - 1) \<le> n" "n < 2 ^ nat (bitlen n)"
    using bitlen_bounds [OF assms] by auto
  have pos: "1 \<le> bitlen n"
    using assms bitlen_eq_zero_iff [of n] bitlen_nonneg [of n] by linarith
  have "(of_int (2 ^ nat (bitlen n - 1)) :: rat) \<le> of_int n"
    using b(1) by (simp only: of_int_le_iff)
  then show "2 powi (bitlen n - 1) \<le> (of_int n :: rat)"
    using pos by (simp add: power_int_def)
  have "(of_int n :: rat) < of_int (2 ^ nat (bitlen n))"
    using b(2) by (simp only: of_int_less_iff)
  then show "(of_int n :: rat) < 2 powi bitlen n"
    using pos by (simp add: power_int_def)
qed

lemma ilog2_bounds:
  assumes "0 < x"
  shows "2 powi ilog2 x \<le> x" and "x < 2 powi (ilog2 x + 1)"
proof -
  obtain p q where pq: "quotient_of x = (p, q)" by (cases "quotient_of x")
  have q: "0 < q" using pq by (rule quotient_of_denom_pos)
  have x: "x = of_int p / of_int q" using pq by (rule quotient_of_div)
  have p: "0 < p" using assms q by (simp add: x zero_less_divide_iff)
  define k where "k = bitlen p - bitlen q"
  have "x < 2 powi bitlen p / 2 powi (bitlen q - 1)"
    using bitlen_powi [OF p] bitlen_powi [OF q] p q unfolding x
    by (intro frac_less) auto
  also have "\<dots> = 2 powi (k + 1)"
    by (simp add: k_def algebra_simps flip: power_int_diff)
  finally have up: "x < 2 powi (k + 1)" .
  have "2 powi (bitlen p - 1) / 2 powi bitlen q \<le> x"
    using bitlen_powi [OF p] bitlen_powi [OF q] p q unfolding x
    by (intro frac_le) auto
  then have lo: "2 powi (k - 1) \<le> x"
    by (simp add: k_def algebra_simps flip: power_int_diff)
  have e: "ilog2 x = (if 2 powi k \<le> x then k else k - 1)"
    by (simp add: ilog2_def pq k_def Let_def)
  show "2 powi ilog2 x \<le> x" "x < 2 powi (ilog2 x + 1)"
    using up lo by (auto simp: e)
qed

lemma ilog2_mono: "0 < x \<Longrightarrow> x \<le> y \<Longrightarrow> ilog2 x \<le> ilog2 y"
  using ilog2_bounds [of x] ilog2_bounds [of y] powi2_less_iff [of "ilog2 x" "ilog2 y + 1"]
  by linarith

lemma ilog2_less: "0 < x \<Longrightarrow> x < 2 powi j \<Longrightarrow> ilog2 x < j"
  using ilog2_bounds(1) [of x] powi2_less_iff [of "ilog2 x" j] by linarith

subsection \<open>Round half to even\<close>

lemma rne_of_int [simp]: "rne (of_int n) = n"
  by (simp add: rne_def)

lemma rne_zero [simp]: "rne 0 = 0"
  by (simp add: rne_def)

lemma rne_floor: "\<lfloor>x\<rfloor> \<le> rne x" "rne x \<le> \<lfloor>x\<rfloor> + 1"
  by (auto simp: rne_def Let_def)

lemma rne_mono: "x \<le> y \<Longrightarrow> rne x \<le> rne y"
proof (cases "\<lfloor>x\<rfloor> = \<lfloor>y\<rfloor>")
  case True
  assume "x \<le> y"
  with True show ?thesis by (auto simp: rne_def Let_def)
next
  case False
  assume "x \<le> y"
  then have "\<lfloor>x\<rfloor> < \<lfloor>y\<rfloor>" using False floor_mono [of x y] by simp
  then show ?thesis using rne_floor(2) [of x] rne_floor(1) [of y] by linarith
qed

subsection \<open>Rounding is monotone and idempotent\<close>

lemma ulp_exp_mono: "0 < x \<Longrightarrow> x \<le> y \<Longrightarrow> ulp_exp x \<le> ulp_exp y"
  using ilog2_mono [of x y] by (auto simp: ulp_exp_def)

text \<open>A multiple of a power of two at least the unit in the last place is on the grid.\<close>

lemma grid_quotient:
  assumes "j \<ge> i"
  shows "of_int n * 2 powi j / 2 powi i = (of_int (n * 2 ^ nat (j - i)) :: rat)"
proof -
  have "(2::rat) powi j / 2 powi i = 2 powi (j - i)"
    by (simp add: power_int_diff)
  also have "\<dots> = of_int (2 ^ nat (j - i))"
    using assms by (simp add: power_int_def)
  finally show ?thesis by (simp add: field_simps)
qed

lemma round_mag_le_grid:
  assumes "0 < x" and "x \<le> of_int n * 2 powi j" and "ulp_exp x \<le> j"
  shows "round_mag x \<le> of_int n * 2 powi j"
proof -
  let ?U = "(2::rat) powi ulp_exp x"
  have "x / ?U \<le> of_int (n * 2 ^ nat (j - ulp_exp x))"
    using divide_right_mono [OF assms(2), of ?U] by (simp add: grid_quotient [OF assms(3)])
  then have "rne (x / ?U) \<le> n * 2 ^ nat (j - ulp_exp x)"
    using rne_mono rne_of_int by metis
  then have "(of_int (rne (x / ?U)) :: rat) \<le> of_int (n * 2 ^ nat (j - ulp_exp x))"
    by (simp only: of_int_le_iff)
  also have "\<dots> = of_int n * 2 powi j / ?U"
    by (simp only: grid_quotient [OF assms(3)])
  finally show ?thesis
    using assms(1) by (simp add: round_mag_def pos_le_divide_eq)
qed

lemma round_mag_ge_grid:
  assumes "0 < x" and "of_int n * 2 powi j \<le> x" and "ulp_exp x \<le> j"
  shows "of_int n * 2 powi j \<le> round_mag x"
proof -
  let ?U = "(2::rat) powi ulp_exp x"
  have "of_int (n * 2 ^ nat (j - ulp_exp x)) \<le> x / ?U"
    using divide_right_mono [OF assms(2), of ?U] by (simp add: grid_quotient [OF assms(3)])
  then have "n * 2 ^ nat (j - ulp_exp x) \<le> rne (x / ?U)"
    using rne_mono rne_of_int by metis
  then have "(of_int (n * 2 ^ nat (j - ulp_exp x)) :: rat) \<le> of_int (rne (x / ?U))"
    by (simp only: of_int_le_iff)
  moreover have "(of_int (n * 2 ^ nat (j - ulp_exp x)) :: rat) = of_int n * 2 powi j / ?U"
    by (simp only: grid_quotient [OF assms(3)])
  ultimately show ?thesis
    using assms(1) by (simp add: round_mag_def pos_divide_le_eq)
qed

lemma round_mag_grid:
  assumes "0 < of_int n * (2::rat) powi j" and "ulp_exp (of_int n * 2 powi j) \<le> j"
  shows "round_mag (of_int n * 2 powi j) = of_int n * 2 powi j"
  using round_mag_le_grid [OF assms(1) order.refl assms(2)]
    round_mag_ge_grid [OF assms(1) order.refl assms(2)] by (rule antisym)

lemma round_mag_nonneg [simp]: "0 \<le> round_mag x"
proof (cases "0 < x")
  case True
  then show ?thesis using round_mag_ge_grid [of x 0 "ulp_exp x"] by simp
qed (simp add: round_mag_def)

lemma round_mag_not_neg [simp]: "\<not> round_mag x < 0"
  by (simp add: not_less)

lemma round_mag_zero [simp]: "round_mag 0 = 0"
  by (simp add: round_mag_def)

lemma round_mag_mono:
  assumes "x \<le> y"
  shows "round_mag x \<le> round_mag y"
proof (cases "0 < x")
  case False
  then show ?thesis by (simp add: round_mag_def [of x])
next
  case x: True
  with assms have y: "0 < y" by simp
  show ?thesis
  proof (cases "ulp_exp x = ulp_exp y")
    case True
    let ?U = "(2::rat) powi ulp_exp x"
    have "rne (x / ?U) \<le> rne (y / ?U)"
      by (intro rne_mono divide_right_mono assms) simp
    with True x y show ?thesis by (simp add: round_mag_def)
  next
    case False
    with ulp_exp_mono [OF x assms] have less: "ilog2 x < ilog2 y" "ulp_exp x \<le> ilog2 y"
      "ulp_exp y \<le> ilog2 y"
      by (auto simp: ulp_exp_def)
    have "x \<le> 2 powi ilog2 y"
      using ilog2_bounds(2) [OF x] powi2_le_iff [of "ilog2 x + 1" "ilog2 y"] less(1) by linarith
    then have "round_mag x \<le> 2 powi ilog2 y"
      using round_mag_le_grid [OF x, of 1 "ilog2 y"] less by simp
    also have "\<dots> \<le> round_mag y"
      using round_mag_ge_grid [OF y, of 1 "ilog2 y"] less ilog2_bounds(1) [OF y] by simp
    finally show ?thesis .
  qed
qed

text \<open>At most 53 significant bits at an exponent of at least \<open>-1074\<close>: the value is exact.\<close>

lemma round_mag_exact:
  assumes "0 \<le> n" and "n \<le> 2 ^ 53" and "- 1074 \<le> e"
  shows "round_mag (of_int n * 2 powi e) = of_int n * 2 powi e"
proof -
  consider "n = 0" | "n = 2 ^ 53" | "0 < n" "n < 2 ^ 53" using assms by linarith
  then show ?thesis
  proof cases
    case 2
    have "of_int n * (2::rat) powi e = of_int 1 * 2 powi (e + 53)"
      by (simp add: 2 power_int_add)
    moreover have "ilog2 (2 powi (e + 53)) < e + 54"
      using powi2_less_iff by (intro ilog2_less) simp_all
    then have "ulp_exp (of_int 1 * 2 powi (e + 53)) \<le> e + 53"
      using assms(3) by (simp add: ulp_exp_def)
    then have "round_mag (of_int 1 * 2 powi (e + 53)) = of_int 1 * 2 powi (e + 53)"
      by (rule round_mag_grid [rotated]) simp
    ultimately show ?thesis by simp
  next
    case 3
    have pos: "0 < of_int n * (2::rat) powi e" using 3 by simp
    have "(of_int n :: rat) < of_int (2 ^ 53)" using 3(2) by (simp only: of_int_less_iff)
    then have "of_int n * (2::rat) powi e < 2 ^ 53 * 2 powi e"
      by (intro mult_strict_right_mono) simp_all
    also have "\<dots> = 2 powi (e + 53)" by (simp add: power_int_add)
    finally have "ilog2 (of_int n * 2 powi e) < e + 53" by (rule ilog2_less [OF pos])
    then have "ulp_exp (of_int n * 2 powi e) \<le> e" using assms(3) by (simp add: ulp_exp_def)
    with pos show ?thesis by (rule round_mag_grid)
  qed simp
qed

lemma round_mag_idem [simp]: "round_mag (round_mag x) = round_mag x"
proof (cases "0 < x")
  case True
  let ?e = "ulp_exp x" and ?n = "rne (x / 2 powi ulp_exp x)"
  have "ilog2 x + 1 \<le> ?e + 53" and e: "- 1074 \<le> ?e" by (auto simp: ulp_exp_def)
  then have "x \<le> 2 powi (?e + 53)"
    using ilog2_bounds(2) [OF True] powi2_le_iff [of "ilog2 x + 1" "?e + 53"] by linarith
  then have "x / 2 powi ?e \<le> of_int (2 ^ 53)"
    by (simp add: power_int_add field_simps)
  then have n: "?n \<le> 2 ^ 53" using rne_mono rne_of_int by metis
  have "0 \<le> ?n"
    using rne_mono [of "of_int 0" "x / 2 powi ?e"] True by simp
  from round_mag_exact [OF this n e] True show ?thesis by (simp add: round_mag_def [of x])
qed (simp add: round_mag_def)

lemma round_mag_int: "0 \<le> n \<Longrightarrow> n \<le> 2 ^ 53 \<Longrightarrow> round_mag (of_int n) = of_int n"
  using round_mag_exact [of n 0] by simp


section \<open>Operations\<close>

text \<open>Comparisons: any comparison with a NaN is false; the two zeros are equal.\<close>

fun dlt :: "double \<Rightarrow> double \<Rightarrow> bool" where
  "dlt (NaN s p) _ = False"
| "dlt _ (NaN s p) = False"
| "dlt (Inf s) (Inf t) = (s \<and> \<not> t)"
| "dlt (Inf s) (Fin t m) = s"
| "dlt (Fin t m) (Inf s) = (\<not> s)"
| "dlt (Fin s m) (Fin t n) = (dval (Fin s m) < dval (Fin t n))"

definition deq :: "double \<Rightarrow> double \<Rightarrow> bool" where
  "deq a b \<longleftrightarrow> \<not> isnan a \<and> \<not> isnan b \<and> \<not> dlt a b \<and> \<not> dlt b a"

definition dle :: "double \<Rightarrow> double \<Rightarrow> bool" where
  "dle a b \<longleftrightarrow> dlt a b \<or> deq a b"

text \<open>\<open>std::min\<close>, \<open>std::max\<close> and \<open>std::clamp\<close> with their argument order.\<close>

definition dmin :: "double \<Rightarrow> double \<Rightarrow> double" where
  "dmin a b = (if dlt b a then b else a)"

definition dmax :: "double \<Rightarrow> double \<Rightarrow> double" where
  "dmax a b = (if dlt a b then b else a)"

definition dclamp :: "double \<Rightarrow> double \<Rightarrow> double \<Rightarrow> double" where
  "dclamp v lo hi = (if dlt v lo then lo else if dlt hi v then hi else v)"

fun dneg :: "double \<Rightarrow> double" where
  "dneg (NaN s p) = NaN (\<not> s) p"
| "dneg (Inf s) = Inf (\<not> s)"
| "dneg (Fin s m) = Fin (\<not> s) m"

definition round_signed :: "bool \<Rightarrow> rat \<Rightarrow> double" where
  "round_signed zs x = (if x = 0 then Fin zs 0 else round64 (x < 0) \<bar>x\<bar>)"

fun dadd :: "double \<Rightarrow> double \<Rightarrow> double" where
  "dadd (NaN s p) _ = quiet s p"
| "dadd _ (NaN s p) = quiet s p"
| "dadd (Inf s) (Inf t) = (if s = t then Inf s else default_nan)"
| "dadd (Inf s) (Fin t m) = Inf s"
| "dadd (Fin t m) (Inf s) = Inf s"
| "dadd (Fin s m) (Fin t n) = round_signed (s \<and> t) (dval (Fin s m) + dval (Fin t n))"

definition dsub :: "double \<Rightarrow> double \<Rightarrow> double" where
  "dsub a b = dadd a (dneg b)"

fun dmul :: "double \<Rightarrow> double \<Rightarrow> double" where
  "dmul (NaN s p) _ = quiet s p"
| "dmul _ (NaN s p) = quiet s p"
| "dmul (Inf s) (Inf t) = Inf (s \<noteq> t)"
| "dmul (Inf s) (Fin t m) = (if m = 0 then default_nan else Inf (s \<noteq> t))"
| "dmul (Fin t m) (Inf s) = (if m = 0 then default_nan else Inf (s \<noteq> t))"
| "dmul (Fin s m) (Fin t n) = round64 (s \<noteq> t) (m * n)"

fun ddiv :: "double \<Rightarrow> double \<Rightarrow> double" where
  "ddiv (NaN s p) _ = quiet s p"
| "ddiv _ (NaN s p) = quiet s p"
| "ddiv (Inf s) (Inf t) = default_nan"
| "ddiv (Inf s) (Fin t m) = Inf (s \<noteq> t)"
| "ddiv (Fin t m) (Inf s) = Fin (s \<noteq> t) 0"
| "ddiv (Fin s m) (Fin t n) =
     (if n = 0 then (if m = 0 then default_nan else Inf (s \<noteq> t)) else round64 (s \<noteq> t) (m / n))"

text \<open>
  Conversions: an integer or a decimal literal rounds to the nearest double; a finite double
  converts to an integer by dropping its fraction (the C++ cast is defined only when the result
  fits the target, which every caller has to establish).
\<close>

definition double_of_int :: "int \<Rightarrow> double" where
  "double_of_int i = round64 (i < 0) (of_int \<bar>i\<bar>)"

definition dlit :: "rat \<Rightarrow> double" where
  "dlit x = round64 (x < 0) \<bar>x\<bar>"

fun dtrunc :: "double \<Rightarrow> int" where
  "dtrunc (Fin s m) = (if s then - \<lfloor>m\<rfloor> else \<lfloor>m\<rfloor>)"
| "dtrunc _ = 0"

text \<open>
  The invariant of every double the operations produce: a magnitude of the format, and a payload that
  is not zero.
\<close>

fun dwf :: "double \<Rightarrow> bool" where
  "dwf (Fin s m) = (0 \<le> m \<and> round_mag m = m \<and> m < overflow_threshold)"
| "dwf (NaN s p) = (p \<noteq> 0)"
| "dwf (Inf s) = True"

section \<open>Laws\<close>

lemma quiet_simps [simp]:
  "isnan (quiet s p)" "dwf (quiet s p)" "quiet s p \<noteq> Inf t" "quiet s p \<noteq> Fin t m" "Inf t \<noteq> quiet s p" "Fin t m \<noteq> quiet s p"
proof -
  have "bit (set_bit 51 p) 51" by (simp add: bit_set_bit_iff possible_bit_word)
  then have "set_bit 51 p \<noteq> 0" by auto
  then show "isnan (quiet s p)" "dwf (quiet s p)" "quiet s p \<noteq> Inf t" "quiet s p \<noteq> Fin t m" "Inf t \<noteq> quiet s p"
    "Fin t m \<noteq> quiet s p"
    by (simp_all add: quiet_def)
qed

lemma default_nan_simps [simp]:
  "isnan default_nan" "dwf default_nan" "default_nan \<noteq> Inf s" "default_nan \<noteq> Fin t m" "Inf s \<noteq> default_nan"
  "Fin t m \<noteq> default_nan"
  by (simp_all add: default_nan_def)

lemma dwf_round64 [simp]: "dwf (round64 s x)"
  by (simp add: round64_def Let_def)

lemma dwf_zero [simp]: "dwf (Fin s 0)"
  by simp

lemma dwf_round_signed [simp]: "dwf (round_signed zs x)"
  by (simp add: round_signed_def)

lemma dwf_ops [simp]:
  "dwf (double_of_int i)" "dwf (dlit x)" "dwf (dmul a b)" "dwf (dadd a b)" "dwf (ddiv a b)"
  "dwf (dsub a b)"
proof -
  show "dwf (double_of_int i)" "dwf (dlit x)" by (simp_all add: double_of_int_def dlit_def)
  show "dwf (dmul a b)" by (cases "(a, b)" rule: dmul.cases) auto
  show add: "dwf (dadd a b)" for a b by (cases "(a, b)" rule: dadd.cases) auto
  show "dwf (ddiv a b)" by (cases "(a, b)" rule: ddiv.cases) auto
  show "dwf (dsub a b)" by (simp add: dsub_def add)
qed

lemma dwf_minmax: "dwf a \<Longrightarrow> dwf b \<Longrightarrow> dwf (dmin a b)" "dwf a \<Longrightarrow> dwf b \<Longrightarrow> dwf (dmax a b)"
  "dwf v \<Longrightarrow> dwf a \<Longrightarrow> dwf b \<Longrightarrow> dwf (dclamp v a b)"
  by (auto simp: dmin_def dmax_def dclamp_def)

lemma dlt_nan [simp]: "isnan a \<Longrightarrow> \<not> dlt a b" "isnan b \<Longrightarrow> \<not> dlt a b"
  by (cases a; cases b; simp; fail)+

lemma dlt_irrefl [simp]: "\<not> dlt a a"
  by (cases a) auto

lemma dlt_trans: "dlt a b \<Longrightarrow> dlt b c \<Longrightarrow> dlt a c"
  by (cases a; cases b; cases c) auto

lemma dle_iff: "dle a b \<longleftrightarrow> \<not> isnan a \<and> \<not> isnan b \<and> \<not> dlt b a"
  by (cases a; cases b) (simp_all add: dle_def deq_def, auto)

lemma dle_refl [simp]: "dle a a \<longleftrightarrow> \<not> isnan a"
  by (simp add: dle_iff)

lemma dle_trans: "dle a b \<Longrightarrow> dle b c \<Longrightarrow> dle a c"
  by (cases a; cases b; cases c) (simp_all add: dle_iff split: if_splits)

lemma deq_refl [simp]: "deq a a \<longleftrightarrow> \<not> isnan a"
  by (simp add: deq_def)

lemma dle_Fin [simp]: "dle (Fin s m) (Fin t n) \<longleftrightarrow> dval (Fin s m) \<le> dval (Fin t n)"
  by (auto simp: dle_iff simp del: dval.simps)


section \<open>Nonnegative finite values\<close>

definition dnonneg :: "double \<Rightarrow> bool" where
  "dnonneg d \<longleftrightarrow> isfinite d \<and> dwf d \<and> 0 \<le> dval d"

lemma dnonneg_Fin:
  "dnonneg d \<longleftrightarrow> (\<exists>s m. d = Fin s m \<and> 0 \<le> m \<and> round_mag m = m \<and> m < overflow_threshold \<and> (s \<longrightarrow> m = 0))"
  by (cases d) (auto simp: dnonneg_def)

lemma dnonnegD: "dnonneg d \<Longrightarrow> isfinite d" "dnonneg d \<Longrightarrow> dwf d" "dnonneg d \<Longrightarrow> 0 \<le> dval d"
  by (simp_all add: dnonneg_def)

lemma dlit_0 [simp]: "dlit 0 = Fin False 0"
  by (simp add: dlit_def round64_def)

lemma round_mag_one [simp]: "round_mag 1 = 1"
  using round_mag_int [of 1] by simp

lemma dlit_1 [simp]: "dlit 1 = Fin False 1"
  by (simp add: dlit_def round64_def)

lemma round64_nonneg: "round64 False x = Inf False \<or> dnonneg (round64 False x)"
  using dwf_round64 [of False x] by (simp add: round64_def dnonneg_def Let_def)

lemma dmul_nonneg:
  assumes "dnonneg a" and "dnonneg b"
  shows "dmul a b = Inf False \<or> dnonneg (dmul a b)"
proof -
  obtain s m where a: "a = Fin s m" "s \<longrightarrow> m = 0" using assms(1) unfolding dnonneg_Fin by blast
  obtain t n where b: "b = Fin t n" "t \<longrightarrow> n = 0" using assms(2) unfolding dnonneg_Fin by blast
  show ?thesis
  proof (cases "s = t")
    case False
    then have "m = 0 \<or> n = 0" using a b by blast
    then have z: "m * n = 0" by simp
    have "dmul a b = round64 (s \<noteq> t) (m * n)" using a(1) b(1) by simp
    also have "\<dots> = Fin True 0" unfolding z using False by (simp add: round64_def)
    finally have "dmul a b = Fin True 0" .
    then show ?thesis by (simp add: dnonneg_def)
  next
    case True
    then have "dmul a b = round64 False (m * n)" using a(1) b(1) by simp
    then show ?thesis using round64_nonneg by simp
  qed
qed

lemma dmin_nonneg: "a = Inf False \<or> dnonneg a \<Longrightarrow> dnonneg b \<Longrightarrow> dnonneg (dmin a b)"
  by (auto simp: dmin_def dnonneg_Fin)

lemma round_mag_pow2: "- 1074 \<le> e \<Longrightarrow> round_mag (2 powi e) = 2 powi e"
  using round_mag_exact [of 1 e] by simp

lemma double_of_int_fin:
  assumes "0 \<le> i" and "i \<le> 2 ^ 63"
  shows "double_of_int i = Fin False (round_mag (of_int i))" and "round_mag (of_int i) \<le> 2 ^ 63"
proof -
  have "(of_int i :: rat) \<le> of_int (2 ^ 63)" using assms(2) by (simp only: of_int_le_iff)
  then have "round_mag (of_int i) \<le> round_mag (2 powi 63)" by (intro round_mag_mono) simp
  then show le: "round_mag (of_int i) \<le> 2 ^ 63" by (simp only: round_mag_pow2) simp
  then have "\<not> overflow_threshold \<le> round_mag (of_int i)" by (rule small_no_overflow)
  then show "double_of_int i = Fin False (round_mag (of_int i))"
    using assms by (simp add: double_of_int_def round64_def)
qed

lemma double_of_int_nonneg: "0 \<le> i \<Longrightarrow> i \<le> 2 ^ 63 \<Longrightarrow> dnonneg (double_of_int i)"
  using dwf_ops(1) [of i] by (simp add: double_of_int_fin dnonneg_def)

text \<open>Below the rounding of an integer, a double is at most that integer: truncation cannot exceed it.\<close>

lemma dtrunc_below:
  assumes "dnonneg d" and "\<not> dle (double_of_int i) d" and "0 \<le> i" and "i \<le> 2 ^ 63"
  shows "0 \<le> dtrunc d" and "dtrunc d \<le> i"
proof -
  obtain s m where d: "d = Fin s m" "0 \<le> m" "round_mag m = m" "s \<longrightarrow> m = 0"
    using assms(1) by (auto simp: dnonneg_Fin)
  show "0 \<le> dtrunc d" using d by auto
  have "m < round_mag (of_int i)"
    using assms(2-4) d by (auto simp: double_of_int_fin split: if_splits)
  then have "m \<le> of_int i" using round_mag_mono [of "of_int i" m] d(3) by linarith
  then have "\<lfloor>m\<rfloor> \<le> i" by (simp add: floor_le_iff)
  then show "dtrunc d \<le> i" using d assms(3) by auto
qed

lemma dsub_one_nonneg:
  assumes "dnonneg d" and "dle d (dlit 1)"
  shows "dle (dlit 0) (dsub (dlit 1) d)"
proof -
  obtain s m where d: "d = Fin s m" "0 \<le> m" "s \<longrightarrow> m = 0" using assms(1) by (auto simp: dnonneg_Fin)
  with assms(2) have "m \<le> 1" by (auto split: if_splits)
  then show ?thesis
    using d by (auto simp: dsub_def round_signed_def round64_def Let_def dle_iff)
qed

lemma between_nonneg:
  assumes "dle (dlit 0) a" and "dle a r" and "dle r b" and "isfinite b" and "dwf r"
  shows "dnonneg r"
proof -
  have "dle (dlit 0) r" using assms(1,2) by (rule dle_trans)
  then show ?thesis
    using assms(3-5) by (cases r; cases b) (auto simp: dnonneg_def dle_iff split: if_splits)
qed

lemma dadd_one_finite:
  assumes "dnonneg d" and "dle d (dlit 1)"
  shows "isfinite (dadd (dlit 1) d)"
proof -
  obtain s m where d: "d = Fin s m" "0 \<le> m" "s \<longrightarrow> m = 0" using assms(1) by (auto simp: dnonneg_Fin)
  with assms(2) have "m \<le> 1" by (auto split: if_splits)
  then have "round_mag (1 + m) \<le> round_mag (of_int 2)" by (intro round_mag_mono) simp
  then have "round_mag (1 + m) \<le> 2" by (simp add: round_mag_int [of 2, simplified])
  then have "round_mag (1 + m) < overflow_threshold" using small_no_overflow_simps(5) by linarith
  then show ?thesis using d by (auto simp: round_signed_def round64_def Let_def)
qed


lemma dsub_dadd_one:
  assumes "dnonneg d"
  shows "dle (dsub (dlit 1) d) (dadd (dlit 1) d)"
proof -
  obtain s m where d: "d = Fin s m" "0 \<le> m" "s \<longrightarrow> m = 0" using assms by (auto simp: dnonneg_Fin)
  have "round_mag (1 - m) \<le> round_mag (1 + m)" using d(2) by (intro round_mag_mono) simp
  moreover have "0 < 1 + m" using d(2) by simp
  ultimately show ?thesis
    using d
    by (auto simp: dsub_def round_signed_def round64_def Let_def dle_iff abs_if not_less
      intro: order_trans [of _ 0])
qed

lemma round64_int: "0 \<le> m \<Longrightarrow> m \<le> 2 ^ 53 \<Longrightarrow> round64 s (of_int m) = Fin s (of_int m)"
proof -
  assume m: "0 \<le> m" "m \<le> 2 ^ 53"
  then have "(of_int m :: rat) \<le> of_int (2 ^ 63)" by (simp only: of_int_le_iff) simp
  then show ?thesis using small_no_overflow [of "of_int m"] round_mag_int [OF m] by (simp add: round64_def)
qed

end
