(* ===== verification/Json.thy ===== *)
theory Json
  imports Binary64
begin

text \<open>
  \<open>glz::generic\<close>, the document tree the JSON reader of the glaze library builds. Reading itself is
  third-party code: the definitions that parse a body take the reader as an argument
  \<open>glz_read :: string \<Rightarrow> string + json\<close>, whose left result is the text \<open>glz::format_error\<close> renders.
  An object is its list of members; \<open>find\<close> is \<open>map_of\<close>.
\<close>

datatype json =
    JNull
  | JBool bool
  | JNumber double
  | JString string
  | JArray "json list"
  | JObject "(string \<times> json) list"

fun is_null :: "json \<Rightarrow> bool" where
  "is_null JNull = True"
| "is_null _ = False"

fun is_object :: "json \<Rightarrow> bool" where
  "is_object (JObject ms) = True"
| "is_object _ = False"

type_synonym json_reader = "string \<Rightarrow> string + json"

end
