(* ===== verification/Nws_Error.thy ===== *)
theory Nws_Error
  imports Json
begin

text \<open>
  Errors of the SDK (\<open>include/nws/error.hpp\<close>, \<open>src/core/error.cpp\<close>): the error codes, the error
  record with its constructors, and the translation of an HTTP error response, with its RFC 7807
  problem details, into an error.
\<close>

datatype ErrorCode =
    Ok
  | NetworkError
  | RateLimited
  | ServerError
  | NotFound
  | InvalidRequest
  | ParseError
  | CacheError
  | Unknown

fun to_string_ErrorCode :: "ErrorCode \<Rightarrow> string" where
  "to_string_ErrorCode ErrorCode.Ok = ''Ok''"
| "to_string_ErrorCode ErrorCode.NetworkError = ''NetworkError''"
| "to_string_ErrorCode ErrorCode.RateLimited = ''RateLimited''"
| "to_string_ErrorCode ErrorCode.ServerError = ''ServerError''"
| "to_string_ErrorCode ErrorCode.NotFound = ''NotFound''"
| "to_string_ErrorCode ErrorCode.InvalidRequest = ''InvalidRequest''"
| "to_string_ErrorCode ErrorCode.ParseError = ''ParseError''"
| "to_string_ErrorCode ErrorCode.CacheError = ''CacheError''"
| "to_string_ErrorCode ErrorCode.Unknown = ''Unknown''"

record Error =
  code :: ErrorCode
  message :: string
  http_status :: int
  correlation_id :: string
  detail :: string

type_synonym 'a result = "Error + 'a"

definition default_Error :: Error where
  "default_Error =
     \<lparr>code = ErrorCode.Unknown, message = [], http_status = 0, correlation_id = [], detail = []\<rparr>"

definition is_ok :: "Error \<Rightarrow> bool" where
  "is_ok e \<longleftrightarrow> code e = ErrorCode.Ok"

definition make_error :: "ErrorCode \<Rightarrow> string \<Rightarrow> Error" where
  "make_error c msg = default_Error\<lparr>code := c, message := msg\<rparr>"

definition Error_ok :: Error where
  "Error_ok = make_error ErrorCode.Ok []"

definition Error_network :: "string \<Rightarrow> Error" where
  "Error_network msg = make_error ErrorCode.NetworkError msg"

definition Error_parse :: "string \<Rightarrow> Error" where
  "Error_parse msg = make_error ErrorCode.ParseError msg"

definition Error_not_found :: "string \<Rightarrow> Error" where
  "Error_not_found msg = make_error ErrorCode.NotFound msg"

definition Error_rate_limited :: "string \<Rightarrow> Error" where
  "Error_rate_limited msg = make_error ErrorCode.RateLimited msg"

definition Error_server :: "string \<Rightarrow> Error" where
  "Error_server msg = make_error ErrorCode.ServerError msg"

definition Error_invalid_request :: "string \<Rightarrow> Error" where
  "Error_invalid_request msg = make_error ErrorCode.InvalidRequest msg"

lemmas error_constructors =
  Error_ok_def Error_network_def Error_parse_def Error_not_found_def Error_rate_limited_def
  Error_server_def Error_invalid_request_def make_error_def default_Error_def

section \<open>Errors from HTTP responses\<close>

definition status_code_class :: "int \<Rightarrow> ErrorCode" where
  "status_code_class status =
     (if status = 404 then ErrorCode.NotFound
      else if status = 400 then ErrorCode.InvalidRequest
      else if status = 503 \<or> status = 429 then ErrorCode.RateLimited
      else if 500 \<le> status \<and> status < 600 then ErrorCode.ServerError
      else ErrorCode.Unknown)"

text \<open>\<open>it != obj.end() && it->second.is_string()\<close> guards every assignment from a member.\<close>

definition string_member :: "(string \<times> json) list \<Rightarrow> string \<Rightarrow> string \<Rightarrow> string" where
  "string_member obj key old = (case map_of obj key of Some (JString s) \<Rightarrow> s | _ \<Rightarrow> old)"

definition from_response :: "json_reader \<Rightarrow> int \<Rightarrow> string \<Rightarrow> string \<Rightarrow> Error" where
  "from_response glz_read status body cid =
    (let err = default_Error\<lparr>http_status := status, correlation_id := cid,
                             code := status_code_class status\<rparr>;
         err = (case glz_read body of
                  Inr (JObject obj) \<Rightarrow>
                    (let err = err\<lparr>message := string_member obj ''title'' (message err)\<rparr>;
                         err = err\<lparr>detail := string_member obj ''detail'' (detail err)\<rparr>
                     in if correlation_id err = []
                        then err\<lparr>correlation_id :=
                                   string_member obj ''correlationId'' (correlation_id err)\<rparr>
                        else err)
                | _ \<Rightarrow> err\<lparr>message := take 256 body\<rparr>)
     in if message err = [] then err\<lparr>message := ''HTTP '' @ int_to_string status\<rparr> else err)"

end
