(* ===== verification/Http_Client.thy ===== *)
theory Http_Client
  imports Nws_Error
begin

text \<open>
  The HTTP client over libcurl (\<open>include/nws/http_client.hpp\<close>, \<open>src/http/client.cpp\<close>). libcurl is
  third-party code and a parameter of the model (\<open>'w curl\<close>): which option settings it accepts, the
  header lines and body chunks a transfer delivers, its result code, and the response status. The
  callbacks the SDK registers, the request it assembles and every error path of \<open>HttpClient::get\<close>
  are defined here. A callback that returns fewer bytes than it was given aborts the transfer, as
  libcurl documents.
\<close>

section \<open>Data\<close>

record HttpResponse =
  status_code :: int
  body :: string
  headers :: "(string \<times> string) list"

record ClientConfig =
  base_url :: string
  user_agent :: string
  accept :: string
  timeout :: seconds
  verify_ssl :: bool
  max_response_bytes :: "64 word"

definition default_ClientConfig :: ClientConfig where
  "default_ClientConfig =
     \<lparr>base_url = ''https://api.weather.gov'', user_agent = [], accept = ''application/geo+json'',
      timeout = 30, verify_ssl = True, max_response_bytes = 64 * 1024 * 1024\<rparr>"

text \<open>The implementation object: its configuration and whether it holds an easy handle.\<close>

record HttpClientImpl =
  http_config :: ClientConfig
  has_handle :: bool

text \<open>A moved-from client has no implementation object.\<close>

type_synonym HttpClient = "HttpClientImpl option"

definition make_HttpClient :: "bool \<Rightarrow> bool \<Rightarrow> ClientConfig \<Rightarrow> HttpClient" where
  "make_HttpClient global_ok init_ok c =
     Some \<lparr>http_config = c, has_handle = (if global_ok then init_ok else False)\<rparr>"

definition HttpClient_config :: "HttpClient \<Rightarrow> ClientConfig" where
  "HttpClient_config c =
     (case c of Some impl \<Rightarrow> http_config impl
      | None \<Rightarrow> default_ClientConfig\<lparr>base_url := [], user_agent := [], accept := []\<rparr>)"

record ResponseSink =
  response :: HttpResponse
  limit :: "64 word"
  overflowed :: bool

section \<open>Callbacks\<close>

definition size_of :: "'a list \<Rightarrow> 64 word" where
  "size_of xs = of_nat (length xs)"

text \<open>
  The callbacks get a buffer and \<open>size * count\<close> as its length; \<open>mem_ok\<close> is whether the allocation
  inside succeeds (an exception is caught and reported as 0 bytes consumed).
\<close>

definition write_callback ::
  "bool \<Rightarrow> string \<Rightarrow> 64 word \<Rightarrow> 64 word \<Rightarrow> ResponseSink \<Rightarrow> 64 word \<times> ResponseSink" where
  "write_callback mem_ok data sz n sink =
    (if sz \<noteq> 0 \<and> (- 1) div sz < n then (0, sink)
     else
       let bytes = sz * n
       in if 0 < limit sink \<and> limit sink - size_of (body (response sink)) < bytes
          then (0, sink\<lparr>overflowed := True\<rparr>)
          else if \<not> mem_ok then (0, sink)
          else (bytes, sink\<lparr>response := (response sink)
                  \<lparr>body := body (response sink) @ take (unat bytes) data\<rparr>\<rparr>))"

definition http_space :: string where
  "http_space = [CHR '' '', CHR 0x09, CHR 0x0D, CHR 0x0A]"

definition trim_value :: "string \<Rightarrow> string" where
  "trim_value raw =
     (case (find_first_not_of raw http_space, find_last_not_of raw http_space) of
        (Some a, Some z) \<Rightarrow> substr raw a (z - a + 1)
      | _ \<Rightarrow> [])"

definition header_callback ::
  "bool \<Rightarrow> string \<Rightarrow> 64 word \<Rightarrow> 64 word \<Rightarrow> ResponseSink \<Rightarrow> 64 word \<times> ResponseSink" where
  "header_callback mem_ok data sz n sink =
    (if sz \<noteq> 0 \<and> (- 1) div sz < n then (0, sink)
     else
       let bytes = sz * n;
           line = take (unat bytes) data;
           sink = (if starts_with line ''HTTP/''
                   then sink\<lparr>response := (response sink)\<lparr>headers := []\<rparr>\<rparr> else sink)
       in case find_index (\<lambda>c. c = CHR '':'') line of
            None \<Rightarrow> (bytes, sink)
          | Some colon \<Rightarrow>
              if \<not> mem_ok then (0, sink)
              else (bytes, sink\<lparr>response := (response sink)
                      \<lparr>headers := headers (response sink) @
                         [(take colon line, trim_value (drop (colon + 1) line))]\<rparr>\<rparr>))"

definition invalid_header :: "string \<Rightarrow> bool" where
  "invalid_header v \<longleftrightarrow> (\<exists>c\<in>set v. c \<in> {CHR 0x0D, CHR 0x0A, CHR 0x00})"

section \<open>Requests\<close>

datatype curl_option =
    CURLOPT_URL string
  | CURLOPT_PROTOCOLS_STR string
  | CURLOPT_REDIR_PROTOCOLS_STR string
  | CURLOPT_WRITEFUNCTION
  | CURLOPT_WRITEDATA
  | CURLOPT_HEADERFUNCTION
  | CURLOPT_HEADERDATA
  | CURLOPT_HTTPHEADER "string list"
  | CURLOPT_TIMEOUT int
  | CURLOPT_NOSIGNAL int
  | CURLOPT_USERAGENT string
  | CURLOPT_ACCEPT_ENCODING string
  | CURLOPT_FOLLOWLOCATION int
  | CURLOPT_MAXREDIRS int
  | CURLOPT_SSL_VERIFYPEER int
  | CURLOPT_SSL_VERIFYHOST int

datatype curl_event =
    Header_Line bool string "64 word" "64 word"
  | Body_Chunk bool string "64 word" "64 word"

text \<open>
  libcurl as seen by the client: allocation of a header list, acceptance of an option, the events
  and result code of a transfer for the options set, error texts and the response code.
\<close>

record 'w curl =
  slist_append :: "string \<Rightarrow> 'w \<Rightarrow> bool \<times> 'w"
  setopt :: "curl_option \<Rightarrow> bool"
  perform :: "curl_option list \<Rightarrow> 'w \<Rightarrow> (curl_event list \<times> nat) \<times> 'w"
  strerror :: "nat \<Rightarrow> string"
  response_code :: "'w \<Rightarrow> int option"

abbreviation (input) CURLE_OK :: nat where "CURLE_OK \<equiv> 0"
abbreviation (input) CURLE_WRITE_ERROR :: nat where "CURLE_WRITE_ERROR \<equiv> 23"

fun handle_event :: "curl_event \<Rightarrow> ResponseSink \<Rightarrow> bool \<times> ResponseSink" where
  "handle_event (Header_Line ok data sz n) sink =
     (case header_callback ok data sz n sink of (m, sink') \<Rightarrow> (m = sz * n, sink'))"
| "handle_event (Body_Chunk ok data sz n) sink =
     (case write_callback ok data sz n sink of (m, sink') \<Rightarrow> (m = sz * n, sink'))"

text \<open>The events of a transfer, up to the first the SDK refuses.\<close>

fun deliver :: "curl_event list \<Rightarrow> ResponseSink \<Rightarrow> bool \<times> ResponseSink" where
  "deliver [] sink = (True, sink)"
| "deliver (e # es) sink =
     (case handle_event e sink of (ok, sink') \<Rightarrow> if ok then deliver es sink' else (False, sink'))"

definition request_options :: "ClientConfig \<Rightarrow> string \<Rightarrow> curl_option list" where
  "request_options c url =
     (let verify = (if verify_ssl c then 1 else 0)
      in [CURLOPT_URL url, CURLOPT_PROTOCOLS_STR ''http,https'',
          CURLOPT_REDIR_PROTOCOLS_STR ''http,https'', CURLOPT_WRITEFUNCTION, CURLOPT_WRITEDATA,
          CURLOPT_HEADERFUNCTION, CURLOPT_HEADERDATA,
          CURLOPT_HTTPHEADER [''Accept: '' @ accept c],
          CURLOPT_TIMEOUT (min (timeout c) int64_max), CURLOPT_NOSIGNAL 1,
          CURLOPT_USERAGENT (user_agent c), CURLOPT_ACCEPT_ENCODING [],
          CURLOPT_FOLLOWLOCATION 1, CURLOPT_MAXREDIRS 10,
          CURLOPT_SSL_VERIFYPEER verify, CURLOPT_SSL_VERIFYHOST (verify * 2)])"

definition empty_sink :: "64 word \<Rightarrow> ResponseSink" where
  "empty_sink n =
     \<lparr>response = \<lparr>status_code = 0, body = [], headers = []\<rparr>, limit = n, overflowed = False\<rparr>"

definition HttpClient_get ::
  "'w curl \<Rightarrow> HttpClient \<Rightarrow> string \<Rightarrow> 'w \<Rightarrow> HttpResponse result \<times> 'w" where
  "HttpClient_get lib client path w =
    (case client of
       None \<Rightarrow> (Inl (Error_network ''CURL not initialized''), w)
     | Some impl \<Rightarrow>
         if \<not> has_handle impl then (Inl (Error_network ''CURL not initialized''), w)
         else
           let c = http_config impl; url = base_url c @ path
           in if CHR 0x00 \<in> set url \<or> invalid_header (user_agent c) \<or> invalid_header (accept c) \<or>
                 timeout c < 0
              then (Inl (Error_invalid_request ''Invalid URL, header, or timeout''), w)
              else
                case slist_append lib (''Accept: '' @ accept c) w of (ok, w) \<Rightarrow>
                  if \<not> ok then (Inl (Error_network ''Could not allocate HTTP headers''), w)
                  else if \<not> list_all (setopt lib) (request_options c url)
                  then (Inl (Error_network ''libcurl rejected a required option''), w)
                  else
                    case perform lib (request_options c url) w of ((events, rc), w) \<Rightarrow>
                      case deliver events (empty_sink (max_response_bytes c)) of (finished, sink) \<Rightarrow>
                        let rc = (if finished then rc else CURLE_WRITE_ERROR)
                        in if overflowed sink
                           then (Inl (Error_invalid_request
                                  ''Response exceeded ClientConfig::max_response_bytes''), w)
                           else if rc \<noteq> CURLE_OK then (Inl (Error_network (strerror lib rc)), w)
                           else
                             case response_code lib w of
                               None \<Rightarrow> (Inl (Error_network ''libcurl did not return HTTP status''), w)
                             | Some status \<Rightarrow>
                                 (Inr ((response sink)\<lparr>status_code := to_int16 status\<rparr>), w))"


section \<open>The callbacks keep the sink within its limit\<close>

definition sink_ok :: "ResponseSink \<Rightarrow> bool" where
  "sink_ok sink \<longleftrightarrow> 0 < limit sink \<longrightarrow> length (body (response sink)) \<le> unat (limit sink)"

lemma guarded_product:
  fixes sz n :: "64 word"
  assumes "\<not> (sz \<noteq> 0 \<and> (- 1) div sz < n)"
  shows "unat (sz * n) = unat sz * unat n"
proof (cases "sz = 0")
  case False
  with assms have "unat n \<le> unat (- 1 :: 64 word) div unat sz"
    by (simp add: word_less_nat_alt unat_div)
  then have "unat sz * unat n \<le> unat (- 1 :: 64 word)"
    by (metis div_times_less_eq_dividend le_trans mult.commute mult_le_mono2)
  also have "\<dots> < 2 ^ 64" using unsigned_less [where ?'a = nat, of "- 1 :: 64 word"] by simp
  finally have "unat sz * unat n < 2 ^ 64" .
  then show ?thesis by (simp add: unat_word_ariths)
qed simp

lemma write_callback_sink:
  assumes "write_callback mem_ok data sz n sink = (m, sink')"
  shows "limit sink' = limit sink" and "headers (response sink') = headers (response sink)"
    and "sink_ok sink \<Longrightarrow> sink_ok sink'"
proof -
  let ?b = "sz * n"
  have cases: "sink' = sink \<or> sink' = sink\<lparr>overflowed := True\<rparr> \<or>
      (\<not> (0 < limit sink \<and> limit sink - size_of (body (response sink)) < ?b) \<and>
       sink' = sink\<lparr>response := (response sink)
                 \<lparr>body := body (response sink) @ take (unat ?b) data\<rparr>\<rparr>)"
    using assms by (auto simp: write_callback_def Let_def split: if_splits)
  then show "limit sink' = limit sink" "headers (response sink') = headers (response sink)" by auto
  assume ok: "sink_ok sink"
  show "sink_ok sink'"
  proof (cases "0 < limit sink")
    case True
    let ?l = "length (body (response sink))"
    have l: "?l \<le> unat (limit sink)" using ok True by (simp add: sink_ok_def)
    then have "unat (size_of (body (response sink))) = ?l"
      using unsigned_less [where ?'a = nat, of "limit sink"] by (simp add: size_of_def unat_of_nat)
    moreover from this l have "size_of (body (response sink)) \<le> limit sink"
      by (simp add: word_le_nat_alt)
    ultimately have "unat (limit sink - size_of (body (response sink))) = unat (limit sink) - ?l"
      by (simp add: unat_sub)
    then have "?l + unat ?b \<le> unat (limit sink)"
      if "\<not> limit sink - size_of (body (response sink)) < ?b"
      using that l by (simp add: word_less_nat_alt)
    with cases ok True show ?thesis by (auto simp: sink_ok_def)
  qed (use cases in \<open>auto simp: sink_ok_def\<close>)
qed

lemma header_callback_sink:
  assumes "header_callback mem_ok data sz n sink = (m, sink')"
  shows "limit sink' = limit sink" and "body (response sink') = body (response sink)"
  using assms by (auto simp: header_callback_def Let_def split: if_splits option.splits)

lemma handle_event_sink:
  assumes "handle_event e sink = (ok, sink')"
  shows "limit sink' = limit sink" and "sink_ok sink \<Longrightarrow> sink_ok sink'"
  using assms write_callback_sink header_callback_sink
  by (cases e; force simp: sink_ok_def split: prod.splits)+

lemma deliver_sink_ok:
  "deliver es sink = (done, sink') \<Longrightarrow> sink_ok sink \<Longrightarrow> limit sink' = limit sink \<and> sink_ok sink'"
proof (induction es arbitrary: sink)
  case (Cons e es)
  obtain ok s where e: "handle_event e sink = (ok, s)" by (cases "handle_event e sink")
  note h = handle_event_sink [OF e]
  show ?case
  proof (cases ok)
    case True
    with Cons.prems(1) e have "deliver es s = (done, sink')" by simp
    from Cons.IH [OF this] h Cons.prems(2) show ?thesis by simp
  next
    case False
    with Cons.prems e h show ?thesis by simp
  qed
qed simp

section \<open>Header values\<close>

lemma trim_value_split:
  obtains pre post where "raw = pre @ trim_value raw @ post"
    and "set pre \<subseteq> set http_space" and "set post \<subseteq> set http_space"
proof (cases "find_first_not_of raw http_space")
  case None
  then have "set raw \<subseteq> set http_space" by (auto simp: find_first_not_of_def find_index_None)
  moreover have "trim_value raw = []" by (simp add: trim_value_def None)
  ultimately show ?thesis using that [of raw "[]"] by simp
next
  case (Some a)
  note f = find_index_Some [OF Some [unfolded find_first_not_of_def]]
  then have "find_last_not_of raw http_space \<noteq> None"
    by (auto simp: find_last_not_of_def find_last_index_None intro!: bexI [of _ "raw ! a"])
  then obtain z where z: "find_last_not_of raw http_space = Some z" by blast
  note g = find_last_index_Some [OF z [unfolded find_last_not_of_def]]
  have az: "a \<le> z" using f g(3) [of a] by (meson leI)
  have "trim_value raw = take (z - a + 1) (drop a raw)"
    by (simp add: trim_value_def Some z substr_def)
  then have "raw = take a raw @ trim_value raw @ drop (z - a + 1) (drop a raw)"
    by (simp only: append_take_drop_id)
  moreover have "set (take a raw) \<subseteq> set http_space"
    using f by (auto simp: in_set_conv_nth)
  moreover have "set (drop (z - a + 1) (drop a raw)) \<subseteq> set http_space"
    using g(3) az by (auto simp: in_set_conv_nth)
  ultimately show ?thesis by (rule that)
qed


section \<open>What a completed transfer leaves in the sink\<close>

fun chunk_data :: "curl_event \<Rightarrow> string" where
  "chunk_data (Body_Chunk ok data sz n) = take (unat (sz * n)) data"
| "chunk_data (Header_Line ok data sz n) = []"

fun is_status_line :: "curl_event \<Rightarrow> bool" where
  "is_status_line (Header_Line ok data sz n) = starts_with (take (unat (sz * n)) data) ''HTTP/''"
| "is_status_line (Body_Chunk ok data sz n) = False"

lemma zero_bytes: "(sz::64 word) * n = 0 \<Longrightarrow> take (unat (sz * n)) (d::string) = []"
  by simp

lemma write_callback_consumed:
  assumes "write_callback mem_ok data sz n sink = (sz * n, sink')" and "\<not> overflowed sink'"
  shows "body (response sink') = body (response sink) @ take (unat (sz * n)) data"
  using assms by (auto simp: write_callback_def Let_def split: if_splits)

lemma handle_event_body:
  assumes "handle_event e sink = (True, sink')" and "\<not> overflowed sink'"
  shows "body (response sink') = body (response sink) @ chunk_data e"
  using assms write_callback_consumed header_callback_sink(2)
  by (cases e) (auto split: prod.splits)

lemma overflowed_sticky: "handle_event e sink = (ok, sink') \<Longrightarrow> overflowed sink \<Longrightarrow> overflowed sink'"
  by (cases e)
    (auto simp: write_callback_def header_callback_def Let_def split: if_splits option.splits prod.splits)

lemma deliver_overflowed_sticky:
  "deliver es sink = (ok, sink') \<Longrightarrow> overflowed sink \<Longrightarrow> overflowed sink'"
  by (induction es arbitrary: sink) (auto split: prod.splits if_splits dest: overflowed_sticky)

lemma deliver_body:
  "deliver es sink = (True, sink') \<Longrightarrow> \<not> overflowed sink' \<Longrightarrow>
     body (response sink') = body (response sink) @ concat (map chunk_data es)"
proof (induction es arbitrary: sink)
  case (Cons e es)
  then obtain s where s: "handle_event e sink = (True, s)" "deliver es s = (True, sink')"
    by (auto split: prod.splits if_splits)
  then have "\<not> overflowed s" using Cons.prems(2) deliver_overflowed_sticky by blast
  with handle_event_body [OF s(1)] Cons.IH [OF s(2) Cons.prems(2)] show ?case by simp
qed simp

lemma handle_event_headers:
  assumes "handle_event e s1 = (True, t1)" and "handle_event e s2 = (True, t2)"
    and "headers (response s1) = headers (response s2) \<or> is_status_line e"
  shows "headers (response t1) = headers (response t2)"
proof (cases e)
  case (Body_Chunk ok data sz n)
  with assms write_callback_sink(2) show ?thesis by (auto split: prod.splits)
next
  case (Header_Line ok data sz n)
  with assms show ?thesis
    by (auto simp: header_callback_def Let_def starts_with_def split: if_splits option.splits prod.splits)
qed

lemma deliver_headers:
  "deliver es s1 = (True, t1) \<Longrightarrow> deliver es s2 = (True, t2) \<Longrightarrow>
     headers (response s1) = headers (response s2) \<Longrightarrow> headers (response t1) = headers (response t2)"
proof (induction es arbitrary: s1 s2)
  case (Cons e es)
  then obtain u1 u2 where u: "handle_event e s1 = (True, u1)" "deliver es u1 = (True, t1)"
      "handle_event e s2 = (True, u2)" "deliver es u2 = (True, t2)"
    by (auto split: prod.splits if_splits)
  have "headers (response u1) = headers (response u2)"
    using handle_event_headers [OF u(1,3)] Cons.prems(3) by simp
  then show ?case using Cons.IH [OF u(2,4)] by simp
qed simp

lemma deliver_append:
  "deliver (es1 @ es2) sink = (True, sink') \<Longrightarrow>
     \<exists>s. deliver es1 sink = (True, s) \<and> deliver es2 s = (True, sink')"
  by (induction es1 arbitrary: sink) (auto split: prod.splits if_splits)


lemma HttpClient_get_success:
  assumes "HttpClient_get lib client path w = (Inr r, w')"
  obtains impl w1 events sink status where
    "client = Some impl" "has_handle impl"
    "CHR 0x00 \<notin> set (base_url (http_config impl) @ path)"
    "\<not> invalid_header (user_agent (http_config impl))" "\<not> invalid_header (accept (http_config impl))"
    "0 \<le> timeout (http_config impl)"
    "perform lib (request_options (http_config impl) (base_url (http_config impl) @ path)) w1 =
       ((events, CURLE_OK), w')"
    "deliver events (empty_sink (max_response_bytes (http_config impl))) = (True, sink)"
    "\<not> overflowed sink" "r = (response sink)\<lparr>status_code := to_int16 status\<rparr>"
  using assms
  by (auto simp: HttpClient_get_def Let_def split: option.splits if_splits prod.splits)

section \<open>Properties\<close>

text \<open>
  C24: A successful request returns every byte the transfer delivered, in order, and nothing else; with
  a nonzero \<open>max_response_bytes\<close> the body never exceeds it. The request carried no NUL in its URL and
  no CR, LF or NUL in its header values.
\<close>
theorem http_get_body:
  assumes "HttpClient_get lib client path w = (Inr r, w')"
  shows "\<exists>impl w1 events. client = Some impl \<and>
           perform lib (request_options (http_config impl) (base_url (http_config impl) @ path)) w1 =
             ((events, CURLE_OK), w') \<and>
           body r = concat (map chunk_data events) \<and>
           (0 < max_response_bytes (http_config impl) \<longrightarrow>
              length (body r) \<le> unat (max_response_bytes (http_config impl))) \<and>
           CHR 0x00 \<notin> set (base_url (http_config impl) @ path) \<and>
           \<not> invalid_header (user_agent (http_config impl)) \<and>
           \<not> invalid_header (accept (http_config impl))"
  using assms
proof (rule HttpClient_get_success)
  fix impl w1 events sink status
  assume h: "client = Some impl"
    "CHR 0x00 \<notin> set (base_url (http_config impl) @ path)"
    "\<not> invalid_header (user_agent (http_config impl))" "\<not> invalid_header (accept (http_config impl))"
    "perform lib (request_options (http_config impl) (base_url (http_config impl) @ path)) w1 =
       ((events, CURLE_OK), w')"
    and d: "deliver events (empty_sink (max_response_bytes (http_config impl))) = (True, sink)"
    and o: "\<not> overflowed sink" and r: "r = (response sink)\<lparr>status_code := to_int16 status\<rparr>"
  have "body r = concat (map chunk_data events)"
    using deliver_body [OF d o] by (simp add: r empty_sink_def)
  moreover have "0 < max_response_bytes (http_config impl) \<longrightarrow>
      length (body r) \<le> unat (max_response_bytes (http_config impl))"
    using deliver_sink_ok [OF d] by (auto simp: r sink_ok_def empty_sink_def)
  ultimately show ?thesis using h by blast
qed

text \<open>A scripted transfer for the witnesses: it ignores the world and delivers fixed events.\<close>

definition script_curl :: "curl_event list \<Rightarrow> int \<Rightarrow> unit curl" where
  "script_curl es status =
     \<lparr>slist_append = (\<lambda>_ w. (True, w)), setopt = (\<lambda>_. True), perform = (\<lambda>_ w. ((es, CURLE_OK), w)),
      strerror = (\<lambda>_. ''error''), response_code = (\<lambda>_. Some status)\<rparr>"

theorem http_get_body_witness:
  "HttpClient_get (script_curl [Header_Line True ''HTTP/1.1 200 OK'' 1 15, Body_Chunk True ''abcd'' 1 4] 200)
     (make_HttpClient True True (default_ClientConfig\<lparr>max_response_bytes := 4\<rparr>)) ''/x'' () =
   (Inr \<lparr>status_code = 200, body = ''abcd'', headers = []\<rparr>, ()) \<and> length ''abcd'' \<le> 4"
proof -
  let ?e = "[Header_Line True ''HTTP/1.1 200 OK'' 1 15, Body_Chunk True ''abcd'' 1 4]"
  have g: "HttpClient_get (script_curl ?e 200)
     (make_HttpClient True True (default_ClientConfig\<lparr>max_response_bytes := 4\<rparr>)) ''/x'' () =
   (Inr \<lparr>status_code = 200, body = ''abcd'', headers = []\<rparr>, ())"
    by code_simp
  from http_get_body [OF g] have "length ''abcd'' \<le> 4"
    by (auto simp: make_HttpClient_def)
  with g show ?thesis by simp
qed

text \<open>
  What could smuggle data into a request: a NUL in the URL, a carriage return, a line feed or a NUL in
  one of the two configured headers, or a negative timeout. Exactly these requests are refused as
  invalid, before libcurl is called: the world is untouched.
\<close>

definition smuggles :: "ClientConfig \<Rightarrow> string \<Rightarrow> bool" where
  "smuggles c path \<longleftrightarrow>
     CHR 0x00 \<in> set (base_url c) \<or> CHR 0x00 \<in> set path \<or>
     CHR 0x0D \<in> set (user_agent c) \<or> CHR 0x0A \<in> set (user_agent c) \<or> CHR 0x00 \<in> set (user_agent c) \<or>
     CHR 0x0D \<in> set (accept c) \<or> CHR 0x0A \<in> set (accept c) \<or> CHR 0x00 \<in> set (accept c) \<or> timeout c < 0"

lemma http_rejects_injection:
  assumes "has_handle impl"
  shows "smuggles (http_config impl) path \<Longrightarrow>
      HttpClient_get lib (Some impl) path w = (Inl (Error_invalid_request ''Invalid URL, header, or timeout''), w)"
    and "\<not> smuggles (http_config impl) path \<Longrightarrow>
      fst (HttpClient_get lib (Some impl) path w) \<noteq> Inl (Error_invalid_request ''Invalid URL, header, or timeout'')"
  using assms
  by (auto simp: HttpClient_get_def smuggles_def invalid_header_def Let_def error_constructors split: prod.splits option.splits)

text \<open>
  C32: Redirects: the headers of a completed transfer are those of its last response. Whatever events
  came before a status line, and whatever the sink held, the headers collected afterwards are the
  same.
\<close>
theorem http_headers_of_last_response:
  assumes "deliver (es1 @ e # es2) sink1 = (True, t1)" and "deliver (e # es2) sink2 = (True, t2)"
    and "is_status_line e"
  shows "headers (response t1) = headers (response t2)"
proof -
  obtain s where "deliver (e # es2) s = (True, t1)" using deliver_append [OF assms(1)] by blast
  then obtain u1 u2 where u: "handle_event e s = (True, u1)" "deliver es2 u1 = (True, t1)"
      "handle_event e sink2 = (True, u2)" "deliver es2 u2 = (True, t2)"
    using assms(2) by (auto split: prod.splits if_splits)
  show ?thesis
    using deliver_headers [OF u(2,4)] handle_event_headers [OF u(1,3)] assms(3) by blast
qed

theorem http_headers_of_last_response_witness:
  "headers (response (snd (deliver
     [Header_Line True ''HTTP/1.1 302 Found'' 1 18, Header_Line True ''X-Old: a'' 1 8,
      Header_Line True ''HTTP/1.1 200 OK'' 1 15, Header_Line True ''X-New: b '' 1 9] (empty_sink 0)))) =
   [(''X-New'', ''b'')]"
proof -
  let ?e1 = "[Header_Line True ''HTTP/1.1 302 Found'' 1 18, Header_Line True ''X-Old: a'' 1 8]"
  let ?e = "Header_Line True ''HTTP/1.1 200 OK'' 1 15"
  let ?e2 = "[Header_Line True ''X-New: b '' 1 9]"
  have a: "fst (deliver (?e1 @ ?e # ?e2) (empty_sink 0))" by code_simp
  have b: "deliver (?e # ?e2) (empty_sink 0) =
      (True, (empty_sink 0)\<lparr>response := \<lparr>status_code = 0, body = [], headers = [(''X-New'', ''b'')]\<rparr>\<rparr>)"
    by code_simp
  have s: "is_status_line ?e" by code_simp
  from a have "deliver (?e1 @ ?e # ?e2) (empty_sink 0) =
      (True, snd (deliver (?e1 @ ?e # ?e2) (empty_sink 0)))" by (simp add: prod_eq_iff)
  from http_headers_of_last_response [OF this b s] show ?thesis by simp
qed

end
