(* ===== verification/Retry.thy ===== *)
theory Retry
  imports Http_Client
begin

text \<open>
  Retries (\<open>include/nws/retry.hpp\<close>, \<open>src/core/retry.cpp\<close>): which outcomes are retried, the backoff
  delay in double arithmetic, and the retry loop with its 8-bit attempt counter. The operation that
  is retried is any state transformer that may fail to return (\<open>None\<close>); sleeping goes through the
  environment; the random jitter is drawn by a function \<open>draw lo hi\<close> standing for
  \<open>std::uniform_real_distribution\<close> over the thread's generator.
\<close>

section \<open>Policy\<close>

record RetryPolicy =
  initial_delay :: milliseconds
  max_delay :: milliseconds
  backoff_multiplier :: double
  jitter_factor :: double
  max_attempts :: "8 word"
  retry_on_network_error :: bool
  retry_on_rate_limit :: bool
  retry_on_server_error :: bool

definition default_RetryPolicy :: RetryPolicy where
  "default_RetryPolicy =
     \<lparr>initial_delay = 500, max_delay = 30000, backoff_multiplier = dlit 2, jitter_factor = dlit (1 / 10),
      max_attempts = 3, retry_on_network_error = True, retry_on_rate_limit = True,
      retry_on_server_error = True\<rparr>"

definition should_retry_response :: "HttpResponse \<Rightarrow> RetryPolicy \<Rightarrow> bool" where
  "should_retry_response resp policy =
    (if status_code resp = 429 \<or> status_code resp = 503 then retry_on_rate_limit policy
     else if retry_on_server_error policy \<and> 500 \<le> status_code resp \<and> status_code resp < 600 then True
     else False)"

definition should_retry_error :: "Error \<Rightarrow> RetryPolicy \<Rightarrow> bool" where
  "should_retry_error e policy =
    (if retry_on_network_error policy \<and> code e = ErrorCode.NetworkError then True else False)"

section \<open>Backoff\<close>

type_synonym 'w draw = "double \<Rightarrow> double \<Rightarrow> 'w \<Rightarrow> double \<times> 'w"

function backoff_loop :: "8 word \<Rightarrow> 8 word \<Rightarrow> double \<Rightarrow> double \<Rightarrow> double \<Rightarrow> double" where
  "backoff_loop i attempt multiplier max_ms delay_ms =
     (if i < attempt
      then backoff_loop (i + 1) attempt multiplier max_ms (dmin (dmul delay_ms multiplier) max_ms)
      else delay_ms)"
  by pat_completeness auto

lemma unat_Suc_8: "(i::8 word) < n \<Longrightarrow> unat (i + 1) = Suc (unat i)"
proof -
  assume "i < n"
  then have "unat i < unat n" by (simp add: word_less_nat_alt)
  moreover have "unat n < 256" using unsigned_less [where ?'a = nat, of n] by simp
  ultimately show ?thesis by (simp add: unat_word_ariths)
qed

termination backoff_loop
  by (relation "measure (\<lambda>(i, n, _). unat n - unat i)")
    (auto simp: unat_Suc_8 word_less_nat_alt intro!: diff_less_mono2)

declare backoff_loop.simps [simp del]

text \<open>\<open>std::clamp\<close> on durations, and the policy fields after their sanity checks.\<close>

definition clamp_ms :: "milliseconds \<Rightarrow> milliseconds \<Rightarrow> milliseconds \<Rightarrow> milliseconds" where
  "clamp_ms v lo hi = (if v < lo then lo else if hi < v then hi else v)"

definition effective_multiplier :: "double \<Rightarrow> double" where
  "effective_multiplier b = (if isfinite b then dmax b (dlit 0) else dlit 1)"

definition jitter_spread :: "double \<Rightarrow> double" where
  "jitter_spread j = (if isfinite j then dclamp j (dlit 0) (dlit 1) else dlit 0)"

definition calculate_retry_delay ::
  "'w draw \<Rightarrow> 8 word \<Rightarrow> RetryPolicy \<Rightarrow> 'w \<Rightarrow> milliseconds \<times> 'w" where
  "calculate_retry_delay draw attempt policy w =
    (let maximum = max (max_delay policy) 0;
         max_ms = double_of_int maximum;
         delay_ms = double_of_int (clamp_ms (initial_delay policy) 0 maximum);
         multiplier = effective_multiplier (backoff_multiplier policy);
         delay_ms = backoff_loop 1 attempt multiplier max_ms delay_ms;
         spread = jitter_spread (jitter_factor policy);
         (delay_ms, w) = (if dlt (dlit 0) spread
                          then (case draw (dsub (dlit 1) spread) (dadd (dlit 1) spread) w of
                                  (j, w) \<Rightarrow> (dmul delay_ms j, w))
                          else (delay_ms, w))
     in if \<not> isfinite delay_ms \<or> dle max_ms delay_ms then (maximum, w)
        else (dtrunc delay_ms, w))"

section \<open>The retry loop\<close>

definition should_retry :: "HttpResponse result \<Rightarrow> RetryPolicy \<Rightarrow> bool" where
  "should_retry r policy =
     (case r of Inr resp \<Rightarrow> should_retry_response resp policy | Inl e \<Rightarrow> should_retry_error e policy)"

function with_retry_loop ::
  "'w env \<Rightarrow> 'w draw \<Rightarrow> ('w \<Rightarrow> (HttpResponse result \<times> 'w) option) \<Rightarrow> RetryPolicy \<Rightarrow> 8 word \<Rightarrow> 'w \<Rightarrow>
    (HttpResponse result \<times> 'w) option" where
  "with_retry_loop env draw operation policy attempt w =
    (if attempt \<le> max_attempts policy then
       (case operation w of
          None \<Rightarrow> None
        | Some (r, w) \<Rightarrow>
            if should_retry r policy \<and> attempt < max_attempts policy
            then (case calculate_retry_delay draw attempt policy w of (delay, w) \<Rightarrow>
                    with_retry_loop env draw operation policy (attempt + 1)
                      (sleep_for env (ms_to_ns delay) w))
            else Some (r, w))
     else Some (Inl (Error_network ''Max retry attempts exceeded''), w))"
  by pat_completeness auto

termination with_retry_loop
  by (relation "measure (\<lambda>(_, _, _, policy, attempt, _). unat (max_attempts policy) - unat attempt)")
    (auto simp: unat_Suc_8 word_less_nat_alt intro!: diff_less_mono2)

declare with_retry_loop.simps [simp del]

definition with_retry ::
  "'w env \<Rightarrow> 'w draw \<Rightarrow> ('w \<Rightarrow> (HttpResponse result \<times> 'w) option) \<Rightarrow> RetryPolicy \<Rightarrow> 'w \<Rightarrow>
    (HttpResponse result \<times> 'w) option" where
  "with_retry env draw operation policy w = with_retry_loop env draw operation policy 1 w"

text \<open>\<open>RetryingClient\<close>: an HTTP client and a policy that can be replaced.\<close>

record RetryingClient =
  client :: HttpClient
  policy :: RetryPolicy

definition make_RetryingClient :: "HttpClient \<Rightarrow> RetryPolicy \<Rightarrow> RetryingClient" where
  "make_RetryingClient c p = \<lparr>client = c, policy = p\<rparr>"

definition RetryingClient_get ::
  "'w env \<Rightarrow> 'w draw \<Rightarrow> 'w curl \<Rightarrow> RetryingClient \<Rightarrow> string \<Rightarrow> 'w \<Rightarrow>
    (HttpResponse result \<times> 'w) option" where
  "RetryingClient_get env draw lib rc path w =
     with_retry env draw (\<lambda>w. Some (HttpClient_get lib (client rc) path w)) (policy rc) w"

definition RetryingClient_set_policy :: "RetryingClient \<Rightarrow> RetryPolicy \<Rightarrow> RetryingClient" where
  "RetryingClient_set_policy rc p = rc\<lparr>policy := p\<rparr>"


section \<open>Bounds of the backoff delay\<close>

text \<open>What the standard promises of a uniform draw: a double between its bounds.\<close>

definition draw_ok :: "'w draw \<Rightarrow> bool" where
  "draw_ok draw \<longleftrightarrow>
     (\<forall>lo hi w. dwf lo \<longrightarrow> dwf hi \<longrightarrow> dle lo hi \<longrightarrow>
        dwf (fst (draw lo hi w)) \<and> dle lo (fst (draw lo hi w)) \<and> dle (fst (draw lo hi w)) hi)"

lemma backoff_loop_nonneg:
  "dnonneg d \<Longrightarrow> dnonneg k \<Longrightarrow> dnonneg m \<Longrightarrow> dnonneg (backoff_loop i n k m d)"
proof (induction i n k m d rule: backoff_loop.induct)
  case (1 i n k m d)
  show ?case
  proof (cases "i < n")
    case True
    have "dnonneg (dmin (dmul d k) m)"
      using dmul_nonneg [OF "1.prems"(1,2)] "1.prems"(3) by (rule dmin_nonneg)
    from "1.IH" [OF True this "1.prems"(2,3)] True show ?thesis
      by (simp add: backoff_loop.simps [of i n])
  next
    case False
    with "1.prems" show ?thesis by (simp add: backoff_loop.simps [of i n])
  qed
qed

lemma effective_multiplier_nonneg: "dwf b \<Longrightarrow> dnonneg (effective_multiplier b)"
  by (cases b) (auto simp: effective_multiplier_def dnonneg_def dmax_def split: if_splits)

lemma jitter_spread_bounds:
  assumes "dwf j"
  shows "dnonneg (jitter_spread j)" and "dle (jitter_spread j) (dlit 1)"
  using assms by (cases j; auto simp: jitter_spread_def dnonneg_def dclamp_def split: if_splits)+

lemma jitter_nonneg:
  assumes "draw_ok draw" and "dnonneg spread" and "dle spread (dlit 1)"
  shows "dnonneg (fst (draw (dsub (dlit 1) spread) (dadd (dlit 1) spread) w))"
proof -
  let ?lo = "dsub (dlit 1) spread" and ?hi = "dadd (dlit 1) spread"
  have lo: "dle (dlit 0) ?lo" using assms(2,3) by (rule dsub_one_nonneg)
  have hi: "isfinite ?hi" using assms(2,3) by (rule dadd_one_finite)
  have "dle ?lo ?hi" using assms(2) by (rule dsub_dadd_one)
  with assms(1) have "dwf (fst (draw ?lo ?hi w))" "dle ?lo (fst (draw ?lo ?hi w))"
      "dle (fst (draw ?lo ?hi w)) ?hi"
    unfolding draw_ok_def using dwf_ops by blast+
  with lo hi show ?thesis by (intro between_nonneg)
qed

lemma calculate_retry_delay_bounds:
  assumes draw: "draw_ok draw" and wf: "dwf (backoff_multiplier p)" "dwf (jitter_factor p)"
    and max: "max_delay p \<le> int64_max"
  shows "0 \<le> fst (calculate_retry_delay draw attempt p w)"
    and "fst (calculate_retry_delay draw attempt p w) \<le> max (max_delay p) 0"
proof -
  define maximum where "maximum = max (max_delay p) 0"
  define spread where "spread = jitter_spread (jitter_factor p)"
  define d0 where "d0 = backoff_loop 1 attempt (effective_multiplier (backoff_multiplier p))
    (double_of_int maximum) (double_of_int (clamp_ms (initial_delay p) 0 maximum))"
  define j where "j = draw (dsub (dlit 1) spread) (dadd (dlit 1) spread) w"
  define d where "d = (if dlt (dlit 0) spread then dmul d0 (fst j) else d0)"
  have range: "0 \<le> maximum" "maximum \<le> 2 ^ 63" "0 \<le> clamp_ms (initial_delay p) 0 maximum"
      "clamp_ms (initial_delay p) 0 maximum \<le> 2 ^ 63"
    using max by (auto simp: maximum_def clamp_ms_def)
  have r: "fst (calculate_retry_delay draw attempt p w) =
      (if \<not> isfinite d \<or> dle (double_of_int maximum) d then maximum else dtrunc d)"
    unfolding calculate_retry_delay_def Let_def d_def d0_def j_def spread_def maximum_def
    by (simp add: split_beta)
  have "dnonneg d0"
    unfolding d0_def
    by (intro backoff_loop_nonneg double_of_int_nonneg range effective_multiplier_nonneg wf)
  moreover have "dnonneg (fst j)"
    unfolding j_def spread_def by (intro jitter_nonneg draw jitter_spread_bounds wf)
  ultimately have "d = Inf False \<or> dnonneg d"
    using dmul_nonneg by (auto simp: d_def)
  then have "0 \<le> dtrunc d \<and> dtrunc d \<le> maximum"
    if "isfinite d" "\<not> dle (double_of_int maximum) d"
    using that dtrunc_below [OF _ that(2) range(1,2)] by auto
  then show "0 \<le> fst (calculate_retry_delay draw attempt p w)"
    and "fst (calculate_retry_delay draw attempt p w) \<le> max (max_delay p) 0"
    using range(1) by (auto simp: r maximum_def [symmetric])
qed

section \<open>Exact exponential backoff\<close>

text \<open>
  With an integral multiplier and bounds that a double holds exactly, the floating point loop
  computes the integer recurrence, although an intermediate product may round or overflow.
\<close>

lemma double_of_int_exact: "0 \<le> i \<Longrightarrow> i \<le> 2 ^ 53 \<Longrightarrow> double_of_int i = Fin False (of_int i)"
  using double_of_int_fin(1) [of i] round_mag_int [of i] by simp

lemma backoff_step_exact:
  assumes "0 \<le> d" "d \<le> m" "m \<le> 2 ^ 53" "1 \<le> k" "k \<le> 2 ^ 53"
  shows "dmin (dmul (double_of_int d) (double_of_int k)) (double_of_int m) =
         double_of_int (min (d * k) m)"
proof -
  have dk: "0 \<le> d * k" using assms by simp
  have mul: "dmul (double_of_int d) (double_of_int k) = round64 False (of_int (d * k))"
    using assms by (simp add: double_of_int_exact)
  show ?thesis
  proof (cases "d * k \<le> m")
    case True
    then have "round64 False (of_int (d * k)) = double_of_int (d * k)"
      using dk by (simp add: double_of_int_def)
    moreover have "(of_int (d * k) :: rat) \<le> of_int m" using True by (simp only: of_int_le_iff)
    ultimately show ?thesis
      using True assms dk by (simp add: mul dmin_def double_of_int_exact)
  next
    case False
    then have "(of_int m :: rat) \<le> of_int (d * k)" by (simp only: of_int_le_iff)
    then have "of_int m \<le> round_mag (of_int (d * k))"
      using round_mag_mono [of "of_int m" "of_int (d * k)"] assms by (simp add: round_mag_int)
    with False show ?thesis
      using assms by (auto simp: mul dmin_def round64_def Let_def double_of_int_exact)
  qed
qed

lemma min_mult_min: "0 \<le> d \<Longrightarrow> d \<le> m \<Longrightarrow> 1 \<le> k \<Longrightarrow> min (min (d * k) m * k ^ n) m = min (d * k ^ Suc n) (m::int)"
proof -
  assume a: "0 \<le> d" "d \<le> m" "1 \<le> k"
  show ?thesis
  proof (cases "d * k \<le> m")
    case False
    have kn: "1 \<le> k ^ n" using a by simp
    have "m * 1 \<le> m * k ^ n" using a kn by (intro mult_left_mono) auto
    moreover have "m * k ^ n \<le> d * k * k ^ n" using False kn a by (intro mult_right_mono) auto
    ultimately have "min (m * k ^ n) m = m" "min (d * k ^ Suc n) m = m"
      by (simp_all add: mult.assoc)
    with False show ?thesis by simp
  qed (simp add: mult.assoc)
qed

lemma backoff_loop_exact:
  "0 \<le> d \<Longrightarrow> d \<le> m \<Longrightarrow> m \<le> 2 ^ 53 \<Longrightarrow> 1 \<le> k \<Longrightarrow> k \<le> 2 ^ 53 \<Longrightarrow>
   backoff_loop i n (double_of_int k) (double_of_int m) (double_of_int d) =
     double_of_int (min (d * k ^ (unat n - unat i)) m)"
proof (induction "unat n - unat i" arbitrary: i d)
  case 0
  then have "\<not> i < n" by (simp add: word_less_nat_alt)
  then show ?case using 0 by (simp add: backoff_loop.simps [of i n])
next
  case (Suc x)
  then have less: "i < n" by (simp add: word_less_nat_alt)
  have x: "x = unat n - unat (i + 1)" using Suc.hyps(2) by (simp add: unat_Suc_8 [OF less])
  have dk: "0 \<le> min (d * k) m" "min (d * k) m \<le> m" using Suc.prems by auto
  have "backoff_loop i n (double_of_int k) (double_of_int m) (double_of_int d) =
      backoff_loop (i + 1) n (double_of_int k) (double_of_int m) (double_of_int (min (d * k) m))"
    using less Suc.prems by (simp add: backoff_loop.simps [of i n] backoff_step_exact)
  also have "\<dots> = double_of_int (min (min (d * k) m * k ^ x) m)"
    using Suc.hyps(1) [OF x dk] Suc.prems x by simp
  finally show ?case
    using Suc.prems by (simp only: min_mult_min Suc.hyps(2) [symmetric])
qed

section \<open>What a retried call does\<close>

lemma with_retry_loop_trace:
  fixes history :: "'w \<Rightarrow> HttpResponse result list"
  assumes op: "\<And>w. history (snd (op w)) = history w @ [fst (op w)]"
    and sleep: "\<And>d w. history (sleep_for env d w) = history w"
    and draw: "\<And>lo hi w. history (snd (draw lo hi w)) = history w"
    and "attempt \<le> max_attempts p" and "0 < attempt"
  shows "\<exists>rs w'. with_retry_loop env draw (\<lambda>w. Some (op w)) p attempt w = Some (last rs, w') \<and>
           history w' = history w @ rs \<and> rs \<noteq> [] \<and>
           length rs \<le> Suc (unat (max_attempts p)) - unat attempt \<and>
           (\<forall>r \<in> set (butlast rs). should_retry r p) \<and>
           (should_retry (last rs) p \<longrightarrow> length rs = Suc (unat (max_attempts p)) - unat attempt)"
  using assms(4,5)
proof (induction "unat (max_attempts p) - unat attempt" arbitrary: attempt w rule: less_induct)
  case less
  obtain r w1 where ow: "op w = (r, w1)" by (cases "op w")
  have h1: "history w1 = history w @ [r]" using op [of w] ow by simp
  have le: "unat attempt \<le> unat (max_attempts p)" using less.prems(1) by (simp add: word_le_nat_alt)
  show ?case
  proof (cases "should_retry r p \<and> attempt < max_attempts p")
    case True
    then have lt: "attempt < max_attempts p" by simp
    obtain delay w2 where d: "calculate_retry_delay draw attempt p w1 = (delay, w2)"
      by (cases "calculate_retry_delay draw attempt p w1")
    have h2: "history w2 = history w1"
      using d draw by (auto simp: calculate_retry_delay_def Let_def split: if_splits prod.splits)
        (metis snd_conv)+
    have nxt: "unat (attempt + 1) = Suc (unat attempt)" using lt by (rule unat_Suc_8)
    have "unat (max_attempts p) - unat (attempt + 1) < unat (max_attempts p) - unat attempt"
      "attempt + 1 \<le> max_attempts p" "0 < attempt + 1"
      using lt nxt by (simp_all add: word_less_nat_alt word_le_nat_alt)
    from less.hyps [OF this, of "sleep_for env (ms_to_ns delay) w2"] obtain rs w' where
      ih: "with_retry_loop env draw (\<lambda>w. Some (op w)) p (attempt + 1)
             (sleep_for env (ms_to_ns delay) w2) = Some (last rs, w')"
        "history w' = history w @ r # rs" "rs \<noteq> []"
        "length rs \<le> unat (max_attempts p) - unat attempt"
        "\<forall>r \<in> set (butlast rs). should_retry r p"
        "should_retry (last rs) p \<longrightarrow> length rs = unat (max_attempts p) - unat attempt"
      by (auto simp: nxt sleep h2 h1)
    show ?thesis
      using True ih le less.prems
      by (intro exI [of _ "r # rs"] exI [of _ w'])
        (auto simp: with_retry_loop.simps [of env draw "\<lambda>w. Some (op w)" p attempt w] ow d)
  next
    case False
    then have "\<not> should_retry r p \<or> attempt = max_attempts p" using less.prems(1) by auto
    then show ?thesis
      using False h1 le less.prems
      by (intro exI [of _ "[r]"] exI [of _ w1])
        (auto simp: with_retry_loop.simps [of env draw "\<lambda>w. Some (op w)" p attempt w] ow)
  qed
qed

text \<open>
  What a caller of \<open>with_retry\<close> provides: an operation that returns from every state of an invariant,
  keeps it and performs at most one counted action; sleeping and drawing keep both. The retried
  operation then returns, keeps the invariant and performs at most \<open>max_attempts\<close> actions.
\<close>

locale retried_operation =
  fixes env :: "'w env" and draw :: "'w draw"
    and operation :: "'w \<Rightarrow> (HttpResponse result \<times> 'w) option"
    and inv :: "'w \<Rightarrow> bool" and actions :: "'w \<Rightarrow> nat"
  assumes operation_returns:
    "inv w \<Longrightarrow> \<exists>r w'. operation w = Some (r, w') \<and> inv w' \<and> actions w' \<le> Suc (actions w)"
    and sleep_keeps: "inv w \<Longrightarrow> inv (sleep_for env d w) \<and> actions (sleep_for env d w) = actions w"
    and draw_keeps: "inv w \<Longrightarrow> inv (snd (draw lo hi w)) \<and> actions (snd (draw lo hi w)) = actions w"
begin

lemma delay_keeps:
  assumes "inv w" and "calculate_retry_delay draw attempt p w = (d, w')"
  shows "inv w' \<and> actions w' = actions w"
proof -
  have "w' = w \<or> (\<exists>lo hi. w' = snd (draw lo hi w))"
    using assms(2) unfolding calculate_retry_delay_def Let_def
    by (auto split: if_splits prod.splits) (metis snd_conv)+
  then show ?thesis using assms(1) draw_keeps by auto
qed

lemma with_retry_loop_returns:
  "inv w \<Longrightarrow> attempt \<le> max_attempts p \<Longrightarrow>
   \<exists>r w'. with_retry_loop env draw operation p attempt w = Some (r, w') \<and> inv w' \<and>
     actions w' \<le> actions w + (Suc (unat (max_attempts p)) - unat attempt)"
proof (induction "unat (max_attempts p) - unat attempt" arbitrary: attempt w rule: less_induct)
  case less
  obtain r w1 where o: "operation w = Some (r, w1)" "inv w1" "actions w1 \<le> Suc (actions w)"
    using operation_returns [OF less.prems(1)] by blast
  have le: "unat attempt \<le> unat (max_attempts p)" using less.prems(2) by (simp add: word_le_nat_alt)
  note step = with_retry_loop.simps [of env draw operation p attempt w]
  show ?case
  proof (cases "should_retry r p \<and> attempt < max_attempts p")
    case True
    then have nxt: "unat (attempt + 1) = Suc (unat attempt)" using unat_Suc_8 by blast
    obtain d w2 where d: "calculate_retry_delay draw attempt p w1 = (d, w2)"
      by (cases "calculate_retry_delay draw attempt p w1")
    have k: "inv (sleep_for env (ms_to_ns d) w2)" "actions (sleep_for env (ms_to_ns d) w2) = actions w1"
      using delay_keeps [OF o(2) d] sleep_keeps by auto
    have lt: "unat attempt < unat (max_attempts p)" using True by (simp add: word_less_nat_alt)
    have "unat (max_attempts p) - unat (attempt + 1) < unat (max_attempts p) - unat attempt"
      "attempt + 1 \<le> max_attempts p"
      using lt nxt by (simp_all add: word_le_nat_alt)
    from less.hyps [OF this(1) k(1) this(2)] obtain r' w' where
      "with_retry_loop env draw operation p (attempt + 1) (sleep_for env (ms_to_ns d) w2) = Some (r', w')"
      "inv w'" "actions w' \<le> actions w1 + (unat (max_attempts p) - unat attempt)"
      unfolding nxt k(2) by auto
    then show ?thesis using True o d less.prems le by (intro exI [of _ r'] exI [of _ w']) (simp add: step)
  next
    case False
    then show ?thesis using o less.prems le by (intro exI [of _ r] exI [of _ w1]) (auto simp: step)
  qed
qed

lemma with_retry_returns:
  assumes "inv w"
  shows "\<exists>r w'. with_retry env draw operation p w = Some (r, w') \<and> inv w' \<and>
           actions w' \<le> actions w + unat (max_attempts p)"
proof (cases "1 \<le> max_attempts p")
  case True
  then show ?thesis
    using with_retry_loop_returns [OF assms True] unat_1 [where ?'a = 8] by (simp add: with_retry_def)
next
  case False
  then show ?thesis
    using assms by (simp add: with_retry_def with_retry_loop.simps [of env draw operation p 1 w])
qed

end

section \<open>Properties\<close>

text \<open>
  C28: the delay before a retry is never negative and never longer than the policy's \<open>max_delay\<close>
  (zero when that is negative), for every policy, including infinite, negative or NaN multipliers
  and jitter factors, every attempt number and every jitter the generator may draw; so the
  conversion of the double to a 64-bit count is always defined.
\<close>

theorem retry_delay_bounded:
  assumes "draw_ok draw" and "dwf (backoff_multiplier p)" and "dwf (jitter_factor p)"
    and "max_delay p \<le> int64_max"
  shows "0 \<le> fst (calculate_retry_delay draw attempt p w) \<and>
         fst (calculate_retry_delay draw attempt p w) \<le> max (max_delay p) 0"
  using calculate_retry_delay_bounds [OF assms] by blast

definition low_draw :: "'w draw" where
  "low_draw lo hi w = (lo, w)"

lemma low_draw_ok: "draw_ok low_draw"
  unfolding draw_ok_def low_draw_def by (auto simp: dle_iff)

theorem retry_delay_bounded_witness:
  "0 \<le> fst (calculate_retry_delay low_draw 255 (default_RetryPolicy\<lparr>jitter_factor := Inf True\<rparr>) ()) \<and>
   fst (calculate_retry_delay low_draw 255 (default_RetryPolicy\<lparr>jitter_factor := Inf True\<rparr>) ()) \<le> 30000"
  using retry_delay_bounded [OF low_draw_ok, of "default_RetryPolicy\<lparr>jitter_factor := Inf True\<rparr>" 255 "()"]
  by (simp add: default_RetryPolicy_def)

text \<open>
  C29: without jitter, an integral multiplier \<open>k\<close> and delays a double represents exactly, the delay
  before attempt \<open>n + 1\<close> is \<open>initial_delay * k ^ (n - 1)\<close> capped by \<open>max_delay\<close>: the floating point
  loop, its rounding and its overflow to infinity never show.
\<close>

theorem retry_delay_exponential:
  assumes "0 \<le> initial_delay p" and "initial_delay p \<le> max_delay p" and "max_delay p \<le> 2 ^ 53"
    and "1 \<le> k" and "k \<le> 2 ^ 53" and "backoff_multiplier p = double_of_int k"
    and "jitter_factor p = dlit 0" and "0 < attempt"
  shows "calculate_retry_delay draw attempt p w =
           (min (initial_delay p * k ^ (unat attempt - 1)) (max_delay p), w)"
proof -
  define d where "d = min (initial_delay p * k ^ (unat attempt - 1)) (max_delay p)"
  have k0: "(0::rat) < of_int k" using assms(4) by simp
  have km: "effective_multiplier (double_of_int k) = double_of_int k"
    using assms(4,5) k0 by (simp add: effective_multiplier_def double_of_int_exact dmax_def)
  have clamp: "clamp_ms (initial_delay p) 0 (max_delay p) = initial_delay p"
    using assms(1,2) by (auto simp: clamp_ms_def)
  have mx: "max (max_delay p) 0 = max_delay p" using assms(1,2) by simp
  have d: "0 \<le> d" "d \<le> max_delay p" using assms(1,2,4) by (auto simp: d_def)
  have loop: "backoff_loop 1 attempt (double_of_int k) (double_of_int (max_delay p))
      (double_of_int (initial_delay p)) = Fin False (of_int d)"
  proof -
    have "backoff_loop 1 attempt (double_of_int k) (double_of_int (max_delay p))
        (double_of_int (initial_delay p)) = double_of_int d"
      using backoff_loop_exact [OF assms(1-5), of 1 attempt] by (simp add: d_def)
    then show ?thesis using d assms(3) by (simp add: double_of_int_exact [of d])
  qed
  have "dle (double_of_int (max_delay p)) (Fin False (of_int d)) \<longleftrightarrow> d = max_delay p"
    using d assms(3) by (auto simp: double_of_int_exact)
  then show ?thesis
    unfolding d_def [symmetric]
    by (simp add: calculate_retry_delay_def Let_def mx clamp assms(6,7) km loop jitter_spread_def
        dclamp_def)
qed

theorem retry_delay_exponential_witness:
  "calculate_retry_delay low_draw 4 (default_RetryPolicy\<lparr>jitter_factor := dlit 0\<rparr>) () = (4000, ())"
proof -
  have "dlit 2 = double_of_int 2" by (simp add: dlit_def double_of_int_def)
  then show ?thesis
    using retry_delay_exponential [of "default_RetryPolicy\<lparr>jitter_factor := dlit 0\<rparr>" 2 4 low_draw "()"]
    by (simp add: default_RetryPolicy_def)
qed

text \<open>
  C8: a retried call terminates for every policy (the 8-bit attempt counter never wraps, not even
  for 255 attempts). With \<open>rs\<close> the results the operation gave in order: there are at most
  \<open>max_attempts\<close> of them, every one but the last was retryable, the last is the result returned,
  and a retryable result is returned only when all attempts are used up. With \<open>max_attempts = 0\<close>
  the operation is not called and the call fails with a network error.
\<close>

theorem with_retry_trace:
  fixes history :: "'w \<Rightarrow> HttpResponse result list"
  assumes op: "\<And>w. history (snd (op w)) = history w @ [fst (op w)]"
    and sleep: "\<And>d w. history (sleep_for env d w) = history w"
    and draw: "\<And>lo hi w. history (snd (draw lo hi w)) = history w"
  shows "\<exists>r w' rs. with_retry env draw (\<lambda>w. Some (op w)) p w = Some (r, w') \<and>
           history w' = history w @ rs \<and> length rs \<le> unat (max_attempts p) \<and>
           (\<forall>x \<in> set (butlast rs). should_retry x p) \<and>
           (if max_attempts p = 0
            then rs = [] \<and> r = Inl (Error_network ''Max retry attempts exceeded'')
            else rs \<noteq> [] \<and> r = last rs \<and>
                 (should_retry r p \<longrightarrow> length rs = unat (max_attempts p)))"
proof (cases "max_attempts p = 0")
  case True
  then show ?thesis
    by (intro exI [of _ "Inl (Error_network ''Max retry attempts exceeded'')"] exI [of _ w]
        exI [of _ "[]"])
      (simp add: with_retry_def with_retry_loop.simps [of env draw "\<lambda>w. Some (op w)" p 1 w])
next
  case False
  then have "1 \<le> unat (max_attempts p)" using unat_eq_zero [of "max_attempts p"] by linarith
  then have "1 \<le> max_attempts p" by (simp add: word_le_nat_alt)
  from with_retry_loop_trace [of history op env draw 1 p w, OF op sleep draw this, simplified] obtain rs w' where
    "with_retry env draw (\<lambda>w. Some (op w)) p w = Some (last rs, w')" "history w' = history w @ rs"
    "rs \<noteq> []" "length rs \<le> unat (max_attempts p)" "\<forall>r \<in> set (butlast rs). should_retry r p"
    "should_retry (last rs) p \<longrightarrow> length rs = unat (max_attempts p)"
    unfolding with_retry_def by auto
  with False show ?thesis by (intro exI [of _ "last rs"] exI [of _ w'] exI [of _ rs]) simp
qed

theorem with_retry_trace_witness:
  defines "op \<equiv> \<lambda>w :: HttpResponse result list.
     let r = Inr \<lparr>status_code = (if length w = 0 then 503 else 200), body = [], headers = []\<rparr> in (r, w @ [r])"
  shows "\<exists>r w' rs. with_retry \<lparr>steady_now = \<lambda>w. (0, w), sleep_for = \<lambda>d w. w\<rparr> low_draw
           (\<lambda>w. Some (op w)) default_RetryPolicy [] = Some (r, w') \<and>
         w' = rs \<and> length rs \<le> 3 \<and> rs \<noteq> [] \<and> r = last rs \<and>
         (\<forall>x \<in> set (butlast rs). should_retry x default_RetryPolicy)"
proof -
  have "max_attempts default_RetryPolicy = 3" by (simp add: default_RetryPolicy_def)
  then show ?thesis
    using with_retry_trace [of "\<lambda>w. w" op "\<lparr>steady_now = \<lambda>w. (0, w), sleep_for = \<lambda>d w. w\<rparr>" low_draw
        default_RetryPolicy "[]"]
    by (auto simp: op_def Let_def low_draw_def)
qed

end
