(* ===== verification/Rate_Limit.thy ===== *)
theory Rate_Limit
  imports Nws_Prelude
begin

text \<open>
  The token bucket rate limiter (\<open>include/nws/rate_limit.hpp\<close>, \<open>src/core/rate_limit.cpp\<close>). The
  private operations \<open>refill\<close> and \<open>take_or_wait_time\<close> run under the mutex, so a concurrent execution
  is an interleaving of them; \<open>limiter_step\<close> is that transition system. The blocking operations
  read the clock and sleep through the environment. The main results: the bucket invariant in every
  reachable state, the bound on the number of tokens granted in any window of time, the absence of
  integer overflow, and that a blocking acquisition returns.
\<close>

section \<open>State\<close>

record RateLimiterConfig =
  max_tokens :: "16 word"
  refill_interval :: milliseconds
  initial_tokens :: "16 word"
  max_wait :: "milliseconds option"

definition default_RateLimiterConfig :: RateLimiterConfig where
  "default_RateLimiterConfig =
     \<lparr>max_tokens = 5, refill_interval = 1000, initial_tokens = 5, max_wait = None\<rparr>"

record RateLimiter =
  limiter_config :: RateLimiterConfig
  tokens :: "16 word"
  last_refill :: nanoseconds

definition sanitized :: "RateLimiterConfig \<Rightarrow> RateLimiterConfig" where
  "sanitized config =
    (let config = (if refill_interval config \<le> 0 then config\<lparr>refill_interval := 1000\<rparr> else config);
         config = config\<lparr>max_tokens := max (max_tokens config) 1\<rparr>
     in config\<lparr>initial_tokens := min (initial_tokens config) (max_tokens config)\<rparr>)"

definition make_RateLimiter :: "RateLimiterConfig \<Rightarrow> nanoseconds \<Rightarrow> RateLimiter" where
  "make_RateLimiter config now =
     \<lparr>limiter_config = sanitized config, tokens = initial_tokens (sanitized config), last_refill = now\<rparr>"

section \<open>Operations under the lock\<close>

definition refill :: "RateLimiter \<Rightarrow> nanoseconds \<Rightarrow> RateLimiter" where
  "refill rl now =
    (if max_tokens (limiter_config rl) \<le> tokens rl then rl\<lparr>last_refill := now\<rparr>
     else
       let earned = ns_to_ms (now - last_refill rl) sdiv refill_interval (limiter_config rl)
       in if earned \<le> 0 then rl
          else
            let total = uint (tokens rl) + earned
            in if uint (max_tokens (limiter_config rl)) \<le> total
               then rl\<lparr>tokens := max_tokens (limiter_config rl), last_refill := now\<rparr>
               else rl\<lparr>tokens := word_of_int total,
                       last_refill := last_refill rl + ms_to_ns (earned * refill_interval (limiter_config rl))\<rparr>)"

definition wait_interval :: "RateLimiterConfig \<Rightarrow> nanoseconds" where
  "wait_interval config =
     (if ns_to_ms int64_max \<le> refill_interval config then int64_max
      else ms_to_ns (refill_interval config))"

definition take_or_wait_time ::
  "'w env \<Rightarrow> RateLimiter \<Rightarrow> 'w \<Rightarrow> nanoseconds option \<times> RateLimiter \<times> 'w" where
  "take_or_wait_time env rl w =
    (case steady_now env w of (now, w1) \<Rightarrow>
       let rl1 = refill rl now
       in if 0 < tokens rl1 then (None, rl1\<lparr>tokens := tokens rl1 - 1\<rparr>, w1)
          else case steady_now env w1 of (now2, w2) \<Rightarrow>
            (Some (max (wait_interval (limiter_config rl1) - (now2 - last_refill rl1)) 0), rl1, w2))"

definition try_acquire :: "'w env \<Rightarrow> RateLimiter \<Rightarrow> 'w \<Rightarrow> bool \<times> RateLimiter \<times> 'w" where
  "try_acquire env rl w =
     (case take_or_wait_time env rl w of (wait, rl', w') \<Rightarrow> (wait = None, rl', w'))"

definition available_tokens :: "RateLimiter \<Rightarrow> nanoseconds \<Rightarrow> 16 word" where
  "available_tokens rl now =
    (let earned = ns_to_ms (now - last_refill rl) sdiv refill_interval (limiter_config rl)
     in word_of_int (min (uint (tokens rl) + max earned 0) (uint (max_tokens (limiter_config rl)))))"

definition reset :: "RateLimiter \<Rightarrow> nanoseconds \<Rightarrow> RateLimiter" where
  "reset rl now = rl\<lparr>tokens := initial_tokens (limiter_config rl), last_refill := now\<rparr>"

section \<open>Blocking operations\<close>

partial_function (option) acquire_until ::
  "'w env \<Rightarrow> RateLimiter \<Rightarrow> nanoseconds option \<Rightarrow> 'w \<Rightarrow> (bool \<times> RateLimiter \<times> 'w) option" where
  "acquire_until env rl deadline w =
    (case take_or_wait_time env rl w of (wait, rl1, w1) \<Rightarrow>
       case wait of
         None \<Rightarrow> Some (True, rl1, w1)
       | Some d \<Rightarrow>
           (case deadline of
              None \<Rightarrow> acquire_until env rl1 deadline (sleep_for env d w1)
            | Some t \<Rightarrow>
                (case steady_now env w1 of (now, w2) \<Rightarrow>
                   if t - now < d then Some (False, rl1, w2)
                   else acquire_until env rl1 deadline (sleep_for env d w2))))"

definition acquire_for ::
  "'w env \<Rightarrow> RateLimiter \<Rightarrow> milliseconds \<Rightarrow> 'w \<Rightarrow> (bool \<times> RateLimiter \<times> 'w) option" where
  "acquire_for env rl wait w =
    (case steady_now env w of (now, w1) \<Rightarrow>
       if wait \<le> 0 then acquire_until env rl (Some now) w1
       else
         let remaining = ns_to_ms (int64_max - now)
         in acquire_until env rl
              (Some (if remaining \<le> wait then int64_max else now + ms_to_ns wait)) w1)"

definition acquire :: "'w env \<Rightarrow> RateLimiter \<Rightarrow> 'w \<Rightarrow> (bool \<times> RateLimiter \<times> 'w) option" where
  "acquire env rl w =
     (case max_wait (limiter_config rl) of
        Some d \<Rightarrow> acquire_for env rl d w
      | None \<Rightarrow> acquire_until env rl None w)"

text \<open>\<open>ScopedRateLimit\<close> acquires in its constructor; its only member is the outcome.\<close>

record ScopedRateLimit =
  acquired :: bool

definition make_ScopedRateLimit ::
  "'w env \<Rightarrow> RateLimiter \<Rightarrow> 'w \<Rightarrow> (ScopedRateLimit \<times> RateLimiter \<times> 'w) option" where
  "make_ScopedRateLimit env rl w =
     map_option (\<lambda>(ok, rl', w'). (\<lparr>acquired = ok\<rparr>, rl', w')) (acquire env rl w)"

text \<open>The deadline \<open>acquire_for\<close> computes from its reading of the clock.\<close>

definition deadline_of :: "milliseconds \<Rightarrow> nanoseconds \<Rightarrow> nanoseconds" where
  "deadline_of wait now =
     (if wait \<le> 0 then now
      else let remaining = ns_to_ms (int64_max - now)
           in if remaining \<le> wait then int64_max else now + ms_to_ns wait)"

lemma acquire_for_deadline:
  "acquire_for env rl wait w = (case steady_now env w of (now, w1) \<Rightarrow> acquire_until env rl (Some (deadline_of wait now)) w1)"
  by (simp add: acquire_for_def deadline_of_def Let_def split: prod.split)

section \<open>The bucket invariant\<close>

definition bucket_inv :: "RateLimiter \<Rightarrow> nanoseconds \<Rightarrow> bool" where
  "bucket_inv rl now \<longleftrightarrow>
     0 < max_tokens (limiter_config rl) \<and> 0 < refill_interval (limiter_config rl) \<and>
     initial_tokens (limiter_config rl) \<le> max_tokens (limiter_config rl) \<and>
     tokens rl \<le> max_tokens (limiter_config rl) \<and> last_refill rl \<le> now"

abbreviation interval_ns :: "RateLimiter \<Rightarrow> nanoseconds" where
  "interval_ns rl \<equiv> ms_to_ns (refill_interval (limiter_config rl))"

text \<open>The clock credit of a bucket: its tokens and the time since its last refill, in nanoseconds.\<close>

definition credit :: "RateLimiter \<Rightarrow> nanoseconds \<Rightarrow> int" where
  "credit rl now = uint (tokens rl) * interval_ns rl + (now - last_refill rl)"

definition earned :: "RateLimiter \<Rightarrow> nanoseconds \<Rightarrow> int" where
  "earned rl now = (now - last_refill rl) div interval_ns rl"

lemma earned_code:
  assumes "last_refill rl \<le> now" and "0 < refill_interval (limiter_config rl)"
  shows "ns_to_ms (now - last_refill rl) sdiv refill_interval (limiter_config rl) = earned rl now"
proof -
  have "0 \<le> (now - last_refill rl) div ns_per_ms"
    using assms by (simp add: pos_imp_zdiv_nonneg_iff)
  then show ?thesis
    using assms
    by (simp add: earned_def ns_to_ms_def ms_to_ns_def sdiv_nonneg
        mult.commute [of _ ns_per_ms] zdiv_zmult2_eq [of "refill_interval (limiter_config rl)"])
qed

lemma make_RateLimiter_inv [limiter_simps]: "bucket_inv (make_RateLimiter config now) now"
proof -
  have "0 < max x (1::16 word)" for x by (simp add: less_max_iff_disj)
  then show ?thesis
    by (auto simp: bucket_inv_def make_RateLimiter_def sanitized_def Let_def)
qed


lemma interval_pos: "bucket_inv rl now \<Longrightarrow> 0 < interval_ns rl"
  by (simp add: bucket_inv_def ms_to_ns_def)

lemma earned_bounds:
  assumes "bucket_inv rl now"
  shows "0 \<le> earned rl now" and "earned rl now * interval_ns rl \<le> now - last_refill rl"
    and "now - last_refill rl < (earned rl now + 1) * interval_ns rl"
proof -
  let ?d = "now - last_refill rl" and ?I = "interval_ns rl"
  have I: "0 < ?I" using assms by (rule interval_pos)
  show "0 \<le> earned rl now"
    using assms I by (simp add: earned_def bucket_inv_def pos_imp_zdiv_nonneg_iff)
  have "?d = earned rl now * ?I + ?d mod ?I" by (simp add: earned_def)
  moreover have "0 \<le> ?d mod ?I" "?d mod ?I < ?I" using I by simp_all
  moreover have "(earned rl now + 1) * ?I = earned rl now * ?I + ?I" by (simp add: distrib_right)
  ultimately show "earned rl now * ?I \<le> ?d" "?d < (earned rl now + 1) * ?I" by linarith+
qed

text \<open>The refill in closed form: three outcomes.\<close>

lemma refill_full:
  "max_tokens (limiter_config rl) \<le> tokens rl \<Longrightarrow> refill rl now = rl\<lparr>last_refill := now\<rparr>"
  by (simp add: refill_def)

lemma refill_partial:
  assumes "bucket_inv rl now" and "tokens rl < max_tokens (limiter_config rl)"
  shows "refill rl now =
    (if uint (max_tokens (limiter_config rl)) \<le> uint (tokens rl) + earned rl now
     then rl\<lparr>tokens := max_tokens (limiter_config rl), last_refill := now\<rparr>
     else rl\<lparr>tokens := word_of_int (uint (tokens rl) + earned rl now),
             last_refill := last_refill rl + earned rl now * interval_ns rl\<rparr>)"
proof -
  have e: "ns_to_ms (now - last_refill rl) sdiv refill_interval (limiter_config rl) = earned rl now"
    using assms(1) by (intro earned_code) (auto simp: bucket_inv_def)
  have "0 \<le> earned rl now" by (rule earned_bounds(1) [OF assms(1)])
  moreover have "uint (tokens rl) < uint (max_tokens (limiter_config rl))"
    using assms(2) by (simp add: word_less_def)
  ultimately show ?thesis
    using assms(2) by (auto simp: refill_def e Let_def ms_to_ns_def not_less [symmetric])
qed

lemma uint_word_of_int_16:
  "0 \<le> i \<Longrightarrow> i \<le> uint (m::16 word) \<Longrightarrow> uint (word_of_int i :: 16 word) = i"
  using uint_lt2p [of m] by (simp add: uint_word_of_int)

lemma refill_config [limiter_simps, simp]: "limiter_config (refill rl now) = limiter_config rl"
  by (simp add: refill_def Let_def)

lemma refill_tokens:
  assumes "bucket_inv rl now"
  shows "uint (tokens (refill rl now)) =
           min (uint (tokens rl) + earned rl now) (uint (max_tokens (limiter_config rl)))"
proof (cases "tokens rl < max_tokens (limiter_config rl)")
  case True
  then show ?thesis
    using earned_bounds(1) [OF assms]
    by (auto simp: refill_partial [OF assms True] simp del: of_int_add
        intro!: uint_word_of_int_16 [of _ "max_tokens (limiter_config rl)"])
next
  case False
  with assms have "tokens rl = max_tokens (limiter_config rl)" by (simp add: bucket_inv_def)
  then show ?thesis using earned_bounds(1) [OF assms] by (simp add: refill_full)
qed

lemma refill_inv [limiter_simps]:
  assumes "bucket_inv rl now"
  shows "bucket_inv (refill rl now) now"
proof -
  have "tokens (refill rl now) \<le> max_tokens (limiter_config rl)"
    by (simp add: word_le_def refill_tokens [OF assms])
  moreover have "last_refill (refill rl now) \<le> now"
    using earned_bounds(2) [OF assms] assms refill_full [of rl now] refill_partial [OF assms]
    by (cases "tokens rl < max_tokens (limiter_config rl)") (auto simp: bucket_inv_def not_less)
  ultimately show ?thesis using assms by (simp add: bucket_inv_def)
qed

text \<open>A refill never creates credit, and leaves at most a full bucket.\<close>

lemma refill_credit:
  assumes "bucket_inv rl now"
  shows "credit (refill rl now) now \<le> credit rl now"
    and "credit (refill rl now) now \<le> uint (max_tokens (limiter_config rl)) * interval_ns rl"
proof -
  let ?m = "uint (max_tokens (limiter_config rl))" and ?I = "interval_ns rl" and ?t = "uint (tokens rl)"
  have I: "0 < ?I" using assms by (rule interval_pos)
  note e = earned_bounds [OF assms]
  have "credit (refill rl now) now \<le> credit rl now \<and> credit (refill rl now) now \<le> ?m * ?I"
  proof (cases "tokens rl < max_tokens (limiter_config rl)")
    case False
    with assms have "tokens rl = max_tokens (limiter_config rl)" by (simp add: bucket_inv_def)
    then show ?thesis using assms by (simp add: refill_full credit_def bucket_inv_def)
  next
    case True
    note r = refill_partial [OF assms True]
    show ?thesis
    proof (cases "?m \<le> ?t + earned rl now")
      case full: True
      then have "?m * ?I \<le> (?t + earned rl now) * ?I" using I by (intro mult_right_mono) auto
      also have "\<dots> \<le> credit rl now" using e(2) by (simp add: credit_def algebra_simps)
      finally show ?thesis using full by (simp add: r credit_def)
    next
      case part: False
      then have u: "uint (word_of_int (?t + earned rl now) :: 16 word) = ?t + earned rl now"
        using e(1) by (intro uint_word_of_int_16 [of _ "max_tokens (limiter_config rl)"]) auto
      have "credit (refill rl now) now = credit rl now"
        using part by (simp add: r credit_def u distrib_right del: of_int_add)
      moreover have "(?t + earned rl now + 1) * ?I \<le> ?m * ?I"
        using part I by (intro mult_right_mono) auto
      then have "credit rl now \<le> ?m * ?I" using e(3) by (simp add: credit_def algebra_simps)
      ultimately show ?thesis by simp
    qed
  qed
  then show "credit (refill rl now) now \<le> credit rl now"
    and "credit (refill rl now) now \<le> ?m * ?I" by auto
qed


section \<open>Granting tokens\<close>

text \<open>
  The effect of \<open>take_or_wait_time\<close> on the bucket, at the reading of its \<open>refill\<close>: whether a token
  was granted, and the new state.
\<close>

definition take_token :: "RateLimiter \<Rightarrow> nanoseconds \<Rightarrow> bool \<times> RateLimiter" where
  "take_token rl now =
    (let rl1 = refill rl now
     in if 0 < tokens rl1 then (True, rl1\<lparr>tokens := tokens rl1 - 1\<rparr>) else (False, rl1))"

lemma take_or_wait_time_take_token:
  assumes "take_or_wait_time env rl w = (wait, rl', w')"
  shows "take_token rl (fst (steady_now env w)) = (wait = None, rl')"
  using assms by (auto simp: take_or_wait_time_def take_token_def Let_def split: prod.splits if_splits)

lemma uint_minus_one_16: "0 < (x::16 word) \<Longrightarrow> uint (x - 1) = uint x - 1"
  using uint_ge_0 [of x] by (simp add: word_less_def uint_sub_lem [symmetric]) (simp add: uint_sub_if')

lemma take_token_spec:
  assumes "bucket_inv rl now" and "take_token rl now = (granted, rl')"
  shows "bucket_inv rl' now" and "limiter_config rl' = limiter_config rl"
    and "credit rl' now + of_bool granted * interval_ns rl = credit (refill rl now) now"
    and "granted \<longleftrightarrow> 0 < uint (tokens rl) + earned rl now"
proof -
  let ?r = "refill rl now"
  have cases: "(granted \<and> 0 < tokens ?r \<and> rl' = ?r\<lparr>tokens := tokens ?r - 1\<rparr>) \<or>
      (\<not> granted \<and> tokens ?r = 0 \<and> rl' = ?r)"
    using assms(2) by (auto simp: take_token_def Let_def word_gt_0 split: if_splits)
  have inv: "bucket_inv ?r now" using assms(1) by (rule refill_inv)
  have "tokens ?r - 1 \<le> max_tokens (limiter_config rl)" if "0 < tokens ?r"
    using inv uint_minus_one_16 [OF that] by (simp add: bucket_inv_def word_le_def)
  with cases inv show "bucket_inv rl' now" by (auto simp: bucket_inv_def)
  show "limiter_config rl' = limiter_config rl" using cases by auto
  show "credit rl' now + of_bool granted * interval_ns rl = credit ?r now"
    using cases by (auto simp: credit_def uint_minus_one_16 algebra_simps)
  have "granted \<longleftrightarrow> 0 < uint (tokens ?r)"
    using cases by (auto simp: word_less_def)
  moreover have "0 < uint (max_tokens (limiter_config rl))"
    using assms(1) by (simp add: bucket_inv_def word_less_def)
  ultimately show "granted \<longleftrightarrow> 0 < uint (tokens rl) + earned rl now"
    by (simp add: refill_tokens [OF assms(1)])
qed

lemma bucket_inv_later: "bucket_inv rl now \<Longrightarrow> now \<le> now' \<Longrightarrow> bucket_inv rl now'"
  by (auto simp: bucket_inv_def)

lemma credit_later: "credit rl now' = credit rl now + (now' - now)"
  by (simp add: credit_def)

text \<open>Tokens granted by a sequence of calls, given the clock reading of each.\<close>

fun grants :: "RateLimiter \<Rightarrow> nanoseconds list \<Rightarrow> nat" where
  "grants rl [] = 0"
| "grants rl (t # ts) =
     (case take_token rl t of (granted, rl') \<Rightarrow> of_bool granted + grants rl' ts)"

lemma grants_credit:
  assumes "bucket_inv rl t" and "sorted (t # ts)"
  shows "int (grants rl ts) * interval_ns rl \<le> credit rl t + (last (t # ts) - t)"
  using assms
proof (induction ts arbitrary: rl t)
  case Nil
  then have "0 \<le> uint (tokens rl) * interval_ns rl"
    by (intro mult_nonneg_nonneg) (auto dest: interval_pos)
  then show ?case using Nil by (simp add: credit_def bucket_inv_def)
next
  case (Cons u us)
  from Cons.prems have tu: "t \<le> u" and inv: "bucket_inv rl u"
    using bucket_inv_later [of rl t u] by auto
  obtain g rl' where g: "take_token rl u = (g, rl')" by (cases "take_token rl u")
  note spec = take_token_spec [OF inv g]
  have "int (grants rl' us) * interval_ns rl \<le> credit rl' u + (last (u # us) - u)"
    using Cons.IH [OF spec(1)] Cons.prems(2) spec(2) by simp
  then have "int (grants rl (u # us)) * interval_ns rl \<le>
      credit (refill rl u) u + (last (u # us) - u)"
    using spec(3) g by (simp add: distrib_right)
  also have "\<dots> \<le> credit rl t + (u - t) + (last (u # us) - u)"
    using refill_credit(1) [OF inv] credit_later [of rl u t] by simp
  finally show ?case by simp
qed

lemma grants_window:
  assumes "bucket_inv rl t" and "sorted (t # ts)"
  shows "int (grants rl (t # ts)) * interval_ns rl \<le>
           uint (max_tokens (limiter_config rl)) * interval_ns rl + (last (t # ts) - t)"
proof -
  obtain g rl' where g: "take_token rl t = (g, rl')" by (cases "take_token rl t")
  note spec = take_token_spec [OF assms(1) g]
  have "int (grants rl' ts) * interval_ns rl \<le> credit rl' t + (last (t # ts) - t)"
    using grants_credit [OF spec(1) assms(2)] spec(2) by simp
  then show ?thesis
    using refill_credit(2) [OF assms(1)] spec(3) g by (simp add: distrib_right)
qed

section \<open>Concurrent use\<close>

text \<open>
  The mutex makes each operation one atomic step; between steps time passes. A state pairs the
  bucket with the current reading of the steady clock.
\<close>

inductive limiter_step :: "RateLimiter \<times> nanoseconds \<Rightarrow> RateLimiter \<times> nanoseconds \<Rightarrow> bool" where
  tick: "t \<le> t' \<Longrightarrow> limiter_step (rl, t) (rl, t')"
| take: "take_token rl t = (granted, rl') \<Longrightarrow> limiter_step (rl, t) (rl', t)"
| reset: "limiter_step (rl, t) (reset rl t, t)"

inductive_simps limiter_step_iff: "limiter_step (rl, t) (rl', t')"

inductive limiter_reachable :: "RateLimiterConfig \<Rightarrow> RateLimiter \<times> nanoseconds \<Rightarrow> bool"
  for config :: RateLimiterConfig where
  start: "limiter_reachable config (make_RateLimiter config t, t)"
| step: "limiter_reachable config s \<Longrightarrow> limiter_step s s' \<Longrightarrow> limiter_reachable config s'"

lemma reset_inv [limiter_simps]: "bucket_inv rl now \<Longrightarrow> bucket_inv (reset rl now) now"
  by (simp add: bucket_inv_def reset_def)

lemma limiter_step_inv:
  assumes "limiter_step s s'" and "bucket_inv (fst s) (snd s)"
  shows "bucket_inv (fst s') (snd s')" and "limiter_config (fst s') = limiter_config (fst s)"
  using assms
proof (induction rule: limiter_step.induct)
  case (tick t t' rl)
  {
    case 1
    with tick show ?case by (auto intro: bucket_inv_later)
  next
    case 2
    show ?case by simp
  }
next
  case (take rl t granted rl')
  {
    case 1
    with take_token_spec(1) [OF _ take] show ?case by simp
  next
    case 2
    with take_token_spec(2) [OF _ take] show ?case by simp
  }
next
  case (reset rl t)
  {
    case 1
    then show ?case by (simp add: reset_inv)
  next
    case 2
    show ?case by (simp add: reset_def)
  }
qed

lemma limiter_reachable_inv:
  "limiter_reachable config s \<Longrightarrow>
     bucket_inv (fst s) (snd s) \<and> limiter_config (fst s) = sanitized config"
proof (induction rule: limiter_reachable.induct)
  case (start t)
  show ?case by (simp add: make_RateLimiter_inv) (simp add: make_RateLimiter_def)
next
  case (step s s')
  then show ?case using limiter_step_inv [of s s'] by simp
qed


section \<open>Reading and waiting\<close>

lemma available_tokens_refill:
  assumes "bucket_inv rl now"
  shows "available_tokens rl now = tokens (refill rl now)"
proof -
  have "ns_to_ms (now - last_refill rl) sdiv refill_interval (limiter_config rl) = earned rl now"
    using assms by (intro earned_code) (auto simp: bucket_inv_def)
  then have "available_tokens rl now = word_of_int (uint (tokens (refill rl now)))"
    using earned_bounds(1) [OF assms]
    by (simp add: available_tokens_def refill_tokens [OF assms] max_def)
  then show ?thesis by simp
qed

text \<open>What one iteration of the waiting loop does under a steady clock.\<close>

lemma take_or_wait_time_steady:
  assumes env: "steady_env env tm" and inv: "bucket_inv rl (tm w)"
    and eq: "take_or_wait_time env rl w = (wait, rl1, w1)"
  shows "bucket_inv rl1 (tm w1)" and "limiter_config rl1 = limiter_config rl" and "tm w \<le> tm w1"
    and "wait = Some d \<Longrightarrow> tokens rl1 = 0 \<and> (\<exists>checked. tm w \<le> checked \<and> checked \<le> tm w1 \<and>
           d = max (last_refill rl1 + wait_interval (limiter_config rl) - checked) 0)"
proof -
  obtain n w' where n: "steady_now env w = (n, w')" by (cases "steady_now env w")
  obtain n2 w2 where n2: "steady_now env w' = (n2, w2)" by (cases "steady_now env w'")
  note le = steady_env_now [OF env n] steady_env_now [OF env n2]
  have "take_token rl n = (wait = None, rl1)"
    using take_or_wait_time_take_token [OF eq] n by simp
  note spec = take_token_spec(1,2) [OF bucket_inv_later [OF inv le(1)] this]
  have w1: "w1 = (if wait = None then w' else w2)"
    using eq by (auto simp: take_or_wait_time_def n n2 Let_def split: if_splits)
  with le show "tm w \<le> tm w1" by (auto split: if_splits)
  from w1 le spec(1) show "bucket_inv rl1 (tm w1)"
    by (auto intro: bucket_inv_later split: if_splits)
  show "limiter_config rl1 = limiter_config rl" by (rule spec(2))
  assume "wait = Some d"
  with eq have "\<not> 0 < tokens rl1" "w1 = w2"
    and d: "d = max (wait_interval (limiter_config rl) - (n2 - last_refill rl1)) 0"
    by (auto simp: take_or_wait_time_def n n2 Let_def split: if_splits)
  then have "tokens rl1 = 0" by (simp add: word_gt_0)
  moreover have "tm w \<le> n2" "n2 \<le> tm w1" using le \<open>w1 = w2\<close> by simp_all
  moreover have "d = max (last_refill rl1 + wait_interval (limiter_config rl) - n2) 0"
    by (simp add: d)
  ultimately show "tokens rl1 = 0 \<and> (\<exists>checked. tm w \<le> checked \<and> checked \<le> tm w1 \<and>
      d = max (last_refill rl1 + wait_interval (limiter_config rl) - checked) 0)"
    by blast
qed

text \<open>Once an interval has passed since the last refill, the next attempt succeeds.\<close>

lemma take_or_wait_time_due:
  assumes env: "steady_env env tm" and inv: "bucket_inv rl (tm w)"
    and due: "last_refill rl + interval_ns rl \<le> tm w"
  shows "\<exists>rl1 w1. take_or_wait_time env rl w = (None, rl1, w1)"
proof -
  obtain n w' where n: "steady_now env w = (n, w')" by (cases "steady_now env w")
  note le = steady_env_now [OF env n]
  have inv': "bucket_inv rl n" using bucket_inv_later [OF inv le(1)] .
  have "1 * interval_ns rl < (earned rl n + 1) * interval_ns rl"
    using due le earned_bounds(3) [OF inv'] by simp
  then have "1 \<le> earned rl n"
    using interval_pos [OF inv'] by (simp only: mult_less_cancel_right_pos)
  moreover have "0 \<le> uint (tokens rl)" by simp
  ultimately have "0 < uint (tokens rl) + earned rl n" by linarith
  moreover obtain wait rl1 w1 where t: "take_or_wait_time env rl w = (wait, rl1, w1)"
    by (cases "take_or_wait_time env rl w")
  have "take_token rl n = (wait = None, rl1)"
    using take_or_wait_time_take_token [OF t] n by simp
  ultimately have "wait = None" using take_token_spec(4) [OF inv'] by blast
  with t show ?thesis by blast
qed

lemma wait_interval_exact:
  "refill_interval c < ns_to_ms int64_max \<Longrightarrow> wait_interval c = ms_to_ns (refill_interval c)"
  by (simp add: wait_interval_def)

text \<open>
  A blocking acquisition by one thread returns: after at most one sleep a token is due. The
  interval must be below the range of the nanosecond clock, about 292 years.
\<close>

lemma acquire_until_retry:
  assumes env: "steady_env env tm" and inv: "bucket_inv rl (tm w)"
    and due: "last_refill rl + interval_ns rl \<le> tm w + d" "0 \<le> d"
  shows "\<exists>rl' w'. acquire_until env rl deadline (sleep_for env d w) = Some (True, rl', w') \<and>
           bucket_inv rl' (tm w') \<and> limiter_config rl' = limiter_config rl"
proof -
  let ?w = "sleep_for env d w"
  have later: "tm w + d \<le> tm ?w" using steady_env_sleep [OF env, of w d] by linarith
  then have inv': "bucket_inv rl (tm ?w)" using due by (intro bucket_inv_later [OF inv]) auto
  have "last_refill rl + interval_ns rl \<le> tm ?w" using due later by linarith
  then obtain rl' w' where t: "take_or_wait_time env rl ?w = (None, rl', w')"
    using take_or_wait_time_due [OF env inv'] by blast
  then have "acquire_until env rl deadline ?w = Some (True, rl', w')"
    by (subst acquire_until.simps) simp
  with take_or_wait_time_steady(1,2) [OF env inv' t] show ?thesis by simp
qed

text \<open>
  When the loop gives up, sleeping until the next token, as computed from a reading \<open>checked\<close>, would
  have ended after the deadline.
\<close>

definition gave_up :: "RateLimiter \<Rightarrow> nanoseconds \<Rightarrow> nanoseconds \<Rightarrow> nanoseconds \<Rightarrow> bool" where
  "gave_up rl from until t \<longleftrightarrow> tokens rl = 0 \<and>
     (\<exists>checked now. from \<le> checked \<and> checked \<le> now \<and> now \<le> until \<and>
        t < now + max (last_refill rl + interval_ns rl - checked) 0)"

lemma acquire_until_pass:
  assumes "take_or_wait_time env rl w = (Some d, rl1, w1)"
  shows "acquire_until env rl None w = acquire_until env rl1 None (sleep_for env d w1)"
    and "steady_now env w1 = (n, w2) \<Longrightarrow> acquire_until env rl (Some t) w =
           (if t - n < d then Some (False, rl1, w2) else acquire_until env rl1 (Some t) (sleep_for env d w2))"
  using assms by (subst acquire_until.simps, simp)+

lemma acquire_until_returns:
  assumes env: "steady_env env tm" and inv: "bucket_inv rl (tm w)"
    and small: "refill_interval (limiter_config rl) < ns_to_ms int64_max"
  shows "\<exists>ok rl' w'. acquire_until env rl deadline w = Some (ok, rl', w') \<and>
           bucket_inv rl' (tm w') \<and> limiter_config rl' = limiter_config rl \<and>
           (\<not> ok \<longrightarrow> (\<exists>t. deadline = Some t \<and> gave_up rl' (tm w) (tm w') t))"
proof -
  obtain wait rl1 w1 where t: "take_or_wait_time env rl w = (wait, rl1, w1)" by (cases "take_or_wait_time env rl w")
  note st = take_or_wait_time_steady [OF env inv t]
  show ?thesis
  proof (cases wait)
    case None
    with t st show ?thesis by (subst acquire_until.simps) auto
  next
    case wait: (Some d)
    obtain checked where zero: "tokens rl1 = 0" and checked: "tm w \<le> checked" "checked \<le> tm w1"
      and d: "d = max (last_refill rl1 + interval_ns rl1 - checked) 0"
      using st(4) [OF wait] st(2) small by (auto simp: wait_interval_exact)
    have "last_refill rl1 + interval_ns rl1 \<le> checked + d" "0 \<le> d" by (simp_all add: d)
    then have retry: "\<exists>rl' w'. acquire_until env rl1 deadline (sleep_for env d v) = Some (True, rl', w') \<and>
        bucket_inv rl' (tm w') \<and> limiter_config rl' = limiter_config rl1"
      if "bucket_inv rl1 (tm v)" "checked \<le> tm v" for v
      using acquire_until_retry [OF env that(1), of d deadline] that(2) by simp
    show ?thesis
    proof (cases deadline)
      case None
      with retry [OF st(1) checked(2)] st(2) show ?thesis using acquire_until_pass(1) [OF t [unfolded wait]] by auto
    next
      case deadline: (Some t')
      obtain n w2 where n: "steady_now env w1 = (n, w2)" by (cases "steady_now env w1")
      note le = steady_env_now [OF env n] and pass = acquire_until_pass(2) [OF t [unfolded wait] n, of t']
      have inv2: "bucket_inv rl1 (tm w2)" using le by (intro bucket_inv_later [OF st(1)]) auto
      have "gave_up rl1 (tm w) (tm w2) t'" if "t' - n < d"
        unfolding gave_up_def using zero checked le d that by (intro conjI exI [of _ checked] exI [of _ n]) auto
      then show ?thesis using pass deadline inv2 st(2) retry [OF inv2] checked(2) le by auto
    qed
  qed
qed


lemma acquire_returns:
  assumes env: "steady_env env tm" and inv: "bucket_inv rl (tm w)"
    and small: "refill_interval (limiter_config rl) < ns_to_ms int64_max"
  shows "\<exists>ok rl' w'. acquire env rl w = Some (ok, rl', w') \<and> bucket_inv rl' (tm w') \<and>
           limiter_config rl' = limiter_config rl \<and> (max_wait (limiter_config rl) = None \<longrightarrow> ok)"
proof (cases "max_wait (limiter_config rl)")
  case None
  then show ?thesis using acquire_until_returns [OF env inv small, of None] by (auto simp: acquire_def)
next
  case (Some d)
  obtain n w1 where n: "steady_now env w = (n, w1)" by (cases "steady_now env w")
  note le = steady_env_now [OF env n]
  have inv1: "bucket_inv rl (tm w1)" using le by (intro bucket_inv_later [OF inv]) auto
  have "\<exists>deadline. acquire env rl w = acquire_until env rl (Some deadline) w1"
    by (auto simp: acquire_def acquire_for_def Some n Let_def)
  then obtain deadline where "acquire env rl w = acquire_until env rl (Some deadline) w1" ..
  with acquire_until_returns [OF env inv1 small, of "Some deadline"] Some show ?thesis by auto
qed

text \<open>
  What an acquisition costs: the credit a token is worth. Observations of the world that reading the
  clock and sleeping leave alone, it leaves alone.
\<close>

lemma take_or_wait_time_credit:
  assumes env: "steady_env env tm" and inv: "bucket_inv rl (tm w)"
    and eq: "take_or_wait_time env rl w = (wait, rl1, w1)"
  shows "credit rl1 (tm w1) + of_bool (wait = None) * interval_ns rl \<le> credit rl (tm w) + (tm w1 - tm w)"
proof -
  obtain n w' where n: "steady_now env w = (n, w')" by (cases "steady_now env w")
  note le = steady_env_now [OF env n]
  have inv': "bucket_inv rl n" using bucket_inv_later [OF inv le(1)] .
  have "take_token rl n = (wait = None, rl1)" using take_or_wait_time_take_token [OF eq] n by simp
  from take_token_spec(3) [OF inv' this] refill_credit(1) [OF inv'] show ?thesis
    using credit_later [of rl1 "tm w1" n] credit_later [of rl n "tm w"] by linarith
qed

lemma take_or_wait_time_observes:
  "take_or_wait_time env rl w = (wait, rl1, w1) \<Longrightarrow> (\<And>w. f (snd (steady_now env w)) = f w) \<Longrightarrow> f w1 = f w"
  by (auto simp: take_or_wait_time_def Let_def split: prod.splits if_splits) (metis snd_conv)+

definition spends :: "('w \<Rightarrow> nanoseconds) \<Rightarrow> ('w \<Rightarrow> 'a) \<Rightarrow> RateLimiter \<Rightarrow> 'w \<Rightarrow> bool \<times> RateLimiter \<times> 'w \<Rightarrow> bool" where
  "spends tm f rl w y \<longleftrightarrow>
     (case y of (ok, rl', w') \<Rightarrow>
        credit rl' (tm w') + of_bool ok * interval_ns rl \<le> credit rl (tm w) + (tm w' - tm w) \<and> f w' = f w)"

lemma spends_after_sleep:
  assumes "take_or_wait_time env rl w = (Some d, rl1, w1)" and "steady_env env tm" and "bucket_inv rl (tm w)"
    and "\<And>w. f (snd (steady_now env w)) = f w" "\<And>d w. f (sleep_for env d w) = f w"
    and "f v = f w1" and "spends tm f rl1 (sleep_for env d v) y"
  shows "spends tm f rl w y"
  using assms(5-7) take_or_wait_time_steady [OF assms(2,3,1)] take_or_wait_time_credit [OF assms(2,3,1)]
    take_or_wait_time_observes [where f = f, OF assms(1,4)] credit_later [of rl1 "tm (sleep_for env d v)" "tm w1"]
  by (cases y) (auto simp: spends_def)

text \<open>One pass of the loop, whatever the next one is.\<close>

lemma spends_pass:
  assumes env: "steady_env env tm" and inv: "bucket_inv rl (tm w)"
    and obs: "\<And>w. f (snd (steady_now env w)) = f w" "\<And>d w. f (sleep_for env d w) = f w"
    and again: "\<And>rl v. bucket_inv rl (tm v) \<Longrightarrow> g rl v = Some y \<Longrightarrow> spends tm f rl v y"
    and pass: "(case take_or_wait_time env rl w of (wait, rl1, w1) \<Rightarrow>
       case wait of
         None \<Rightarrow> Some (True, rl1, w1)
       | Some d \<Rightarrow>
           (case deadline of
              None \<Rightarrow> g rl1 (sleep_for env d w1)
            | Some t \<Rightarrow>
                (case steady_now env w1 of (now, w2) \<Rightarrow>
                   if t - now < d then Some (False, rl1, w2) else g rl1 (sleep_for env d w2)))) = Some y"
  shows "spends tm f rl w y"
proof -
  obtain wait rl1 w1 where t: "take_or_wait_time env rl w = (wait, rl1, w1)" by (cases "take_or_wait_time env rl w")
  obtain n w2 where n: "steady_now env w1 = (n, w2)" by (cases "steady_now env w1")
  note st = take_or_wait_time_steady [OF env inv t] take_or_wait_time_credit [OF env inv t]
    take_or_wait_time_observes [where f = f, OF t obs(1)] and le = steady_env_now [OF env n]
  have o2: "f w2 = f w1" using obs(1) [of w1] n by simp
  have slept: "spends tm f rl w y" if "wait = Some d" "g rl1 (sleep_for env d v) = Some y" "tm w1 \<le> tm v" "f v = f w1" for d v
  proof -
    have "tm w1 \<le> tm (sleep_for env d v)" using steady_env_sleep [OF env, of v d] that(3) by linarith
    then show ?thesis
      using spends_after_sleep [OF t [unfolded that(1)] env inv obs that(4)] again that(2) bucket_inv_later [OF st(1)] by blast
  qed
  consider "wait = None" | d where "wait = Some d" "deadline = None" | d t' where "wait = Some d" "deadline = Some t'" "t' - n < d"
    | d t' where "wait = Some d" "deadline = Some t'" "\<not> t' - n < d" by (cases wait; cases deadline) auto
  then show ?thesis
  proof cases
    case 1
    then show ?thesis using pass t st by (auto simp: spends_def)
  next
    case (2 d)
    then show ?thesis using pass t slept [of d w1] by simp
  next
    case (3 d t')
    then show ?thesis using pass t n st o2 credit_later [of rl1 "tm w2" "tm w1"] by (auto simp: spends_def)
  next
    case (4 d t')
    then show ?thesis using pass t n o2 le slept [of d w2] by simp
  qed
qed

lemma acquire_until_spends:
  assumes "acquire_until env rl deadline w = Some y"
    and "steady_env env tm" and "\<And>w. f (snd (steady_now env w)) = f w" "\<And>d w. f (sleep_for env d w) = f w"
  shows "bucket_inv rl (tm w) \<longrightarrow> spends tm f rl w y"
proof -
  have "e = env \<longrightarrow> bucket_inv rl (tm w) \<longrightarrow> spends tm f rl w y" if "acquire_until e rl deadline w = Some y" for e rl deadline w y
  proof (rule acquire_until.raw_induct [OF _ that], goal_cases)
    case (1 g e rl deadline w y)
    show ?case
    proof (intro impI)
      assume e: "e = env" and inv: "bucket_inv rl (tm w)"
      show "spends tm f rl w y"
        by (rule spends_pass [OF assms(2) inv assms(3,4) _ 1(2) [unfolded e]]) (use 1(1) e in blast)
    qed
  qed
  with assms(1) show ?thesis by blast
qed

lemma acquire_until_credit:
  assumes "acquire_until env rl deadline w = Some (ok, rl', w')"
    and "steady_env env tm" and "bucket_inv rl (tm w)"
    and "\<And>w. f (snd (steady_now env w)) = f w" "\<And>d w. f (sleep_for env d w) = f w"
  shows "credit rl' (tm w') + of_bool ok * interval_ns rl \<le> credit rl (tm w) + (tm w' - tm w) \<and> f w' = f w"
  using acquire_until_spends [where f = f, OF assms(1,2,4,5)] assms(3) by (simp add: spends_def)

lemma acquire_credit:
  assumes "acquire env rl w = Some (ok, rl', w')"
    and env: "steady_env env tm" and inv: "bucket_inv rl (tm w)"
    and obs: "\<And>w. f (snd (steady_now env w)) = f w" "\<And>d w. f (sleep_for env d w) = f w"
  shows "credit rl' (tm w') + of_bool ok * interval_ns rl \<le> credit rl (tm w) + (tm w' - tm w) \<and> f w' = f w"
proof (cases "max_wait (limiter_config rl)")
  case None
  then show ?thesis
    using acquire_until_credit [where f = f, OF _ env inv obs] assms(1) by (simp add: acquire_def)
next
  case (Some d)
  obtain n w1 where n: "steady_now env w = (n, w1)" by (cases "steady_now env w")
  note le = steady_env_now [OF env n]
  have inv1: "bucket_inv rl (tm w1)" using le by (intro bucket_inv_later [OF inv]) auto
  have "\<exists>deadline. acquire env rl w = acquire_until env rl (Some deadline) w1"
    by (auto simp: acquire_def acquire_for_def Some n Let_def)
  then obtain deadline where "acquire_until env rl (Some deadline) w1 = Some (ok, rl', w')"
    using assms(1) by auto
  from acquire_until_credit [where f = f, OF this env inv1 obs] show ?thesis
    using credit_later [of rl "tm w1" "tm w"] obs(1) [of w] n by simp
qed

text \<open>An acquisition does not turn back time.\<close>

lemma take_or_wait_time_later:
  assumes "steady_env env tm" and "take_or_wait_time env rl w = (wait, rl1, w1)"
  shows "tm w \<le> tm w1"
proof -
  have now: "tm v \<le> tm v'" if "steady_now env v = (n, v')" for v n v' using steady_env_now [OF assms(1) that] by simp
  show ?thesis
    using assms(2) by (auto simp: take_or_wait_time_def Let_def split: prod.splits if_splits dest!: now)
qed

lemma acquire_until_later:
  assumes "acquire_until env rl deadline w = Some (ok, rl', w')" and env: "steady_env env tm"
  shows "tm w \<le> tm w'"
proof -
  have "e = env \<longrightarrow> tm w \<le> tm (snd (snd y))" if "acquire_until e rl deadline w = Some y" for e rl deadline w y
  proof (rule acquire_until.raw_induct [OF _ that], intro impI)
    fix g e rl deadline w y
    assume IH: "\<And>e rl deadline w y. g e rl deadline w = Some y \<Longrightarrow> e = env \<longrightarrow> tm w \<le> tm (snd (snd y))"
      and body: "(case take_or_wait_time e rl w of (wait, rl1, w1) \<Rightarrow>
       case wait of
         None \<Rightarrow> Some (True, rl1, w1)
       | Some d \<Rightarrow>
           (case deadline of
              None \<Rightarrow> g e rl1 deadline (sleep_for e d w1)
            | Some t \<Rightarrow>
                (case steady_now e w1 of (now, w2) \<Rightarrow>
                   if t - now < d then Some (False, rl1, w2)
                   else g e rl1 deadline (sleep_for e d w2)))) = Some y"
      and e: "e = env"
    obtain wait rl1 w1 where t: "take_or_wait_time env rl w = (wait, rl1, w1)" by (cases "take_or_wait_time env rl w")
    obtain n w2 where n: "steady_now env w1 = (n, w2)" by (cases "steady_now env w1")
    have le: "tm w \<le> tm w1" "tm w1 \<le> tm w2"
      using take_or_wait_time_later [OF env t] steady_env_now [OF env n] by simp_all
    have "tm v \<le> tm (snd (snd y))" if "g env rl1 deadline (sleep_for env d v) = Some y" for d v
      using IH [OF that] steady_env_sleep [OF env, of v d] by simp
    then show "tm w \<le> tm (snd (snd y))"
      using body le unfolding e t by (fastforce simp: n split: option.splits if_splits)
  qed
  with assms(1) show ?thesis by fastforce
qed

lemma acquire_later:
  assumes "acquire env rl w = Some (ok, rl', w')" and env: "steady_env env tm"
  shows "tm w \<le> tm w'"
proof -
  obtain n w1 where n: "steady_now env w = (n, w1)" by (cases "steady_now env w")
  have le: "tm w \<le> tm w1" using steady_env_now [OF env n] by simp
  have "(\<exists>deadline. acquire env rl w = acquire_until env rl deadline w) \<or>
      (\<exists>deadline. acquire env rl w = acquire_until env rl deadline w1)"
    by (auto simp: acquire_def acquire_for_def n Let_def split: option.splits)
  then show ?thesis using acquire_until_later [OF _ env] assms(1) le by (metis order_trans)
qed

section \<open>Machine integers\<close>

text \<open>
  Every intermediate value of \<open>refill\<close> and \<open>take_or_wait_time\<close> fits the signed 64-bit type the
  source computes it in, provided the clock readings do.
\<close>

lemma earned_in_range:
  assumes "bucket_inv rl now" and "int64_range (last_refill rl)" and "int64_range now"
    and "now - last_refill rl \<le> int64_max"
  shows "int64_range (uint (tokens rl) + earned rl now)"
    and "int64_range (earned rl now * refill_interval (limiter_config rl))"
    and "int64_range (earned rl now * interval_ns rl)"
    and "int64_range (last_refill rl + earned rl now * interval_ns rl)"
proof -
  note e = earned_bounds [OF assms(1)]
  have R: "0 < refill_interval (limiter_config rl)" using assms(1) by (simp add: bucket_inv_def)
  let ?ER = "earned rl now * refill_interval (limiter_config rl)"
  have prod: "earned rl now * interval_ns rl = ?ER * ns_per_ms" by (simp add: ms_to_ns_def)
  have ER: "0 \<le> ?ER" "?ER * ns_per_ms \<le> now - last_refill rl" using e(1,2) R prod by simp_all
  have "earned rl now * 1 \<le> ?ER" using e(1) R by (intro mult_left_mono) auto
  then have "earned rl now * ns_per_ms \<le> int64_max" using ER assms(4) by linarith
  moreover have "uint (tokens rl) < 65536" using uint_lt2p [of "tokens rl"] by simp
  ultimately show "int64_range (uint (tokens rl) + earned rl now)"
    using e(1) uint_ge_0 [of "tokens rl"] by linarith
  show "int64_range ?ER" using ER assms(4) by linarith
  show "int64_range (earned rl now * interval_ns rl)" using ER assms(4) unfolding prod by linarith
  show "int64_range (last_refill rl + earned rl now * interval_ns rl)"
    using ER assms(2,3) unfolding prod by linarith
qed

lemma wait_in_range:
  assumes "bucket_inv rl now" and "now - last_refill rl \<le> int64_max"
  shows "int64_range (wait_interval (limiter_config rl))"
    and "int64_range (wait_interval (limiter_config rl) - (now - last_refill rl))"
proof -
  have "0 \<le> wait_interval (limiter_config rl) \<and> wait_interval (limiter_config rl) \<le> int64_max"
    using assms(1) by (auto simp: wait_interval_def bucket_inv_def ms_to_ns_def ns_to_ms_def sdiv_nonneg)
  moreover have "0 \<le> now - last_refill rl" using assms(1) by (simp add: bucket_inv_def)
  ultimately show "int64_range (wait_interval (limiter_config rl))"
    and "int64_range (wait_interval (limiter_config rl) - (now - last_refill rl))"
    using assms(2) by linarith+
qed


text \<open>The last refill is never before the construction, and never moves back.\<close>

lemma refill_last:
  assumes "bucket_inv rl now"
  shows "last_refill rl \<le> last_refill (refill rl now)"
  using assms earned_bounds [OF assms]
  by (auto simp: refill_def bucket_inv_def Let_def earned_def ms_to_ns_def)

lemma limiter_step_since:
  assumes "limiter_step s s'" and "bucket_inv (fst s) (snd s)" "t0 \<le> last_refill (fst s)"
  shows "t0 \<le> last_refill (fst s')"
  using assms
proof (induction rule: limiter_step.induct)
  case (take rl t granted rl')
  then have "last_refill rl' = last_refill (refill rl t)" by (auto simp: take_token_def Let_def split: if_splits)
  with take refill_last [of rl t] show ?case by simp
qed (auto simp: reset_def bucket_inv_def)

lemma limiter_steps_since:
  assumes "limiter_step\<^sup>*\<^sup>* (make_RateLimiter config t0, t0) (rl, now)"
  shows "t0 \<le> last_refill rl" and "bucket_inv rl now"
proof -
  have "t0 \<le> last_refill (fst s) \<and> bucket_inv (fst s) (snd s)"
    if "limiter_step\<^sup>*\<^sup>* (make_RateLimiter config t0, t0) s" for s
    using that
  proof (induction rule: rtranclp_induct)
    case base
    show ?case by (simp add: make_RateLimiter_inv) (simp add: make_RateLimiter_def)
  next
    case (step s s')
    then show ?case using limiter_step_since limiter_step_inv(1) by blast
  qed
  from this [OF assms] show "t0 \<le> last_refill rl" and "bucket_inv rl now" by simp_all
qed

lemma deadline_sum:
  assumes "0 \<le> now" and "now \<le> int64_max"
  shows "wait < ns_to_ms (int64_max - now) \<Longrightarrow> now + ms_to_ns (max wait 0) \<le> int64_max"
    and "0 \<le> ms_to_ns (max wait 0)"
  using assms by (auto simp: ns_to_ms_def ms_to_ns_def sdiv_nonneg)

lemma deadline_in_range:
  assumes "0 \<le> now" and "now \<le> int64_max"
  shows "0 \<le> deadline_of wait now \<and> deadline_of wait now \<le> int64_max"
  using assms deadline_sum [OF assms, of wait] by (auto simp: deadline_of_def Let_def)

section \<open>Properties\<close>

text \<open>
  C22: The rate limit. From any state the limiter can reach, by any interleaving of acquisitions and
  resets over time, the number of tokens granted by a sequence of calls between the times \<open>t\<close> and
  \<open>last (t # ts)\<close> is at most \<open>max_tokens\<close> plus the number of refill intervals in that window (both sides
  are scaled by the interval in nanoseconds). The configuration is the sanitized one.
\<close>
theorem limiter_rate_bound:
  assumes "limiter_reachable config (rl, t)" and "sorted (t # ts)"
  shows "int (grants rl (t # ts)) * ms_to_ns (refill_interval (sanitized config)) \<le>
           uint (max_tokens (sanitized config)) * ms_to_ns (refill_interval (sanitized config)) +
           (last (t # ts) - t)"
  using grants_window [of rl t ts] limiter_reachable_inv [OF assms(1)] assms(2) by simp

theorem limiter_rate_bound_witness:
  "grants (make_RateLimiter default_RateLimiterConfig 0) [0, 0, 0, 0, 0, 0, 0, 2000000000] = 6 \<and>
   sorted [0, 0, 0, 0, 0, 0, 0, 2000000000 :: int] \<and>
   int (grants (make_RateLimiter default_RateLimiterConfig 0) [0, 0, 0, 0, 0, 0, 0, 2000000000]) *
     ms_to_ns 1000 \<le> 5 * ms_to_ns 1000 + 2000000000"
proof -
  have s: "sorted [0, 0, 0, 0, 0, 0, 0, 2000000000 :: int]" by simp
  have g: "grants (make_RateLimiter default_RateLimiterConfig 0) [0, 0, 0, 0, 0, 0, 0, 2000000000] = 6"
    by code_simp
  have c: "refill_interval (sanitized default_RateLimiterConfig) = 1000"
    "uint (max_tokens (sanitized default_RateLimiterConfig)) = 5"
    by (simp_all add: sanitized_def default_RateLimiterConfig_def)
  show ?thesis
    using limiter_rate_bound [OF limiter_reachable.start s, of default_RateLimiterConfig] s g
    by (simp add: c del: grants.simps)
qed

text \<open>
  The bucket invariant. In every reachable state the configuration is the sanitized one, it is
  sane (a positive interval, a capacity of at least one token), the bucket holds at most the
  capacity, and the last refill is not in the future.
\<close>
theorem limiter_invariant:
  assumes "limiter_reachable config (rl, t)"
  shows "limiter_config rl = sanitized config \<and> 0 < refill_interval (sanitized config) \<and>
         1 \<le> max_tokens (sanitized config) \<and> tokens rl \<le> max_tokens (sanitized config) \<and>
         last_refill rl \<le> t"
  using limiter_reachable_inv [OF assms]
  by (auto simp: bucket_inv_def word_le_def word_less_def)

theorem limiter_invariant_witness:
  "tokens (snd (take_token (make_RateLimiter (default_RateLimiterConfig\<lparr>max_tokens := 0\<rparr>) 7) 7))
     \<le> max_tokens (sanitized (default_RateLimiterConfig\<lparr>max_tokens := 0\<rparr>))"
proof -
  let ?c = "default_RateLimiterConfig\<lparr>max_tokens := 0\<rparr>"
  let ?r = "make_RateLimiter ?c 7"
  have "limiter_step (?r, 7) (snd (take_token ?r 7), 7)"
    by (rule limiter_step.take [of _ _ "fst (take_token ?r 7)"]) simp
  then have "limiter_reachable ?c (snd (take_token ?r 7), 7)"
    by (rule limiter_reachable.step [OF limiter_reachable.start])
  from limiter_invariant [OF this] show ?thesis by simp
qed

text \<open>
  \<open>available_tokens\<close> reports, without changing the bucket, exactly the number of tokens a refill at
  that moment would leave, so it is positive if and only if an acquisition then succeeds.
\<close>
theorem available_tokens_correct:
  assumes "limiter_reachable config (rl, t)"
  shows "available_tokens rl t = tokens (refill rl t) \<and>
         (0 < available_tokens rl t \<longleftrightarrow> fst (take_token rl t))"
  using available_tokens_refill [of rl t] limiter_reachable_inv [OF assms]
  by (simp add: take_token_def Let_def)

theorem available_tokens_correct_witness:
  "available_tokens (make_RateLimiter default_RateLimiterConfig 0) 0 = 5 \<and>
   fst (take_token (make_RateLimiter default_RateLimiterConfig 0) 0)"
proof -
  have a: "available_tokens (make_RateLimiter default_RateLimiterConfig 0) 0 = 5" by code_simp
  have "0 < available_tokens (make_RateLimiter default_RateLimiterConfig 0) 0" unfolding a by simp
  with a available_tokens_correct [OF limiter_reachable.start, of default_RateLimiterConfig 0]
  show ?thesis by blast
qed

text \<open>
  A blocking acquisition always returns (a single thread, a refill interval below the range of the
  nanosecond clock): with no \<open>max_wait\<close> it returns a token; the bucket invariant and the
  configuration are kept.
\<close>
theorem acquire_terminates:
  assumes "steady_env env tm" and "bucket_inv rl (tm w)"
    and "refill_interval (limiter_config rl) < ns_to_ms int64_max"
  shows "\<exists>ok rl' w'. acquire env rl w = Some (ok, rl', w') \<and> bucket_inv rl' (tm w') \<and>
           limiter_config rl' = limiter_config rl \<and> (max_wait (limiter_config rl) = None \<longrightarrow> ok)"
  using assms by (rule acquire_returns)

theorem acquire_terminates_witness:
  "\<exists>rl' w'. acquire tick_env (make_RateLimiter (default_RateLimiterConfig\<lparr>initial_tokens := 0\<rparr>) 0) 0 =
     Some (True, rl', w')"
proof -
  let ?c = "default_RateLimiterConfig\<lparr>initial_tokens := 0\<rparr>"
  have i: "bucket_inv (make_RateLimiter ?c 0) 0" by (rule make_RateLimiter_inv)
  have s: "refill_interval (limiter_config (make_RateLimiter ?c 0)) < ns_to_ms int64_max"
    by code_simp
  have m: "max_wait (limiter_config (make_RateLimiter ?c 0)) = None" by code_simp
  show ?thesis
    using acquire_terminates [OF tick_env_steady i s] m by auto
qed

text \<open>
  C30: The deadline. A bounded acquisition returns, and it gives up only when the bucket is empty and
  sleeping until the next token, from the moment it checks the deadline, would end after it.
\<close>
theorem acquire_until_deadline:
  assumes "steady_env env tm" and "bucket_inv rl (tm w)"
    and "refill_interval (limiter_config rl) < ns_to_ms int64_max"
  shows "\<exists>ok rl' w'. acquire_until env rl (Some t) w = Some (ok, rl', w') \<and>
           (\<not> ok \<longrightarrow> gave_up rl' (tm w) (tm w') t)"
  using acquire_until_returns [OF assms, of "Some t"] by auto

theorem acquire_until_deadline_witness:
  "\<exists>ok rl' w'.
     acquire_until tick_env (make_RateLimiter (default_RateLimiterConfig\<lparr>initial_tokens := 0\<rparr>) 0)
       (Some 5) 0 = Some (ok, rl', w') \<and> (\<not> ok \<longrightarrow> gave_up rl' 0 w' 5)"
proof -
  let ?c = "default_RateLimiterConfig\<lparr>initial_tokens := 0\<rparr>"
  have i: "bucket_inv (make_RateLimiter ?c 0) 0" by (rule make_RateLimiter_inv)
  have s: "refill_interval (limiter_config (make_RateLimiter ?c 0)) < ns_to_ms int64_max"
    by code_simp
  show ?thesis using acquire_until_deadline [OF tick_env_steady i s, of 5] .
qed

text \<open>
  C31: No signed overflow. On a clock that never reads below zero or beyond the 64-bit range, from any
  state the limiter can reach after its construction: every product, sum and difference that
  \<open>refill\<close>, \<open>take_or_wait_time\<close>, \<open>available_tokens\<close>, \<open>acquire_for\<close> and \<open>acquire_until\<close> form, for any
  configured interval and any requested wait, stays in that range, and so do the new time of the
  last refill and the deadline; and the conversion of the new token count to 16 bits loses nothing.
\<close>
theorem limiter_no_overflow:
  assumes "limiter_step\<^sup>*\<^sup>* (make_RateLimiter config t0, t0) (rl, now)" and "0 \<le> t0"
    and "now \<le> later" and "later \<le> int64_max"
  shows "(int64_range (now - last_refill rl) \<and> int64_range (uint (tokens rl) + earned rl now) \<and>
      int64_range (earned rl now * refill_interval (limiter_config rl)) \<and> int64_range (earned rl now * interval_ns rl) \<and>
      int64_range (last_refill rl + earned rl now * interval_ns rl) \<and> int64_range (last_refill (refill rl now)) \<and>
      uint (tokens (refill rl now)) = min (uint (tokens rl) + earned rl now) (uint (max_tokens (limiter_config rl)))) \<and>
    (int64_range (wait_interval (limiter_config rl)) \<and> int64_range (later - last_refill (refill rl now)) \<and>
      int64_range (wait_interval (limiter_config rl) - (later - last_refill (refill rl now)))) \<and>
    (int64_range (int64_max - now) \<and>
      (wait < ns_to_ms (int64_max - now) \<longrightarrow> int64_range (now + ms_to_ns (max wait 0)))) \<and>
    (int64_range (deadline_of wait now) \<and> int64_range (deadline_of wait now - later))"
proof -
  have start: "t0 \<le> last_refill rl" "bucket_inv rl now" using limiter_steps_since [OF assms(1)] by simp_all
  have r: "0 \<le> last_refill rl" "last_refill rl \<le> now" "0 \<le> now" "now \<le> int64_max"
    using start assms(2-4) by (auto simp: bucket_inv_def)
  have range: "int64_range (last_refill rl)" "int64_range now" "now - last_refill rl \<le> int64_max" using r by linarith+
  have inv: "bucket_inv (refill rl now) later" using bucket_inv_later [OF refill_inv [OF start(2)] assms(3)] .
  have l: "last_refill rl \<le> last_refill (refill rl now)" "last_refill (refill rl now) \<le> later"
    using refill_last [OF start(2)] inv by (simp_all add: bucket_inv_def)
  have w: "later - last_refill (refill rl now) \<le> int64_max" using l r assms(4) by linarith
  note e = earned_in_range [OF start(2) range] and wait = wait_in_range [OF inv w, unfolded refill_config]
  have d: "0 \<le> deadline_of wait now \<and> deadline_of wait now \<le> int64_max" using deadline_in_range r(3,4) by blast
  show ?thesis
    using e wait l r assms(3,4) d refill_tokens [OF start(2)] deadline_sum [OF r(3,4), of wait] by auto
qed

theorem limiter_no_overflow_witness:
  "int64_range (deadline_of int64_max 7) \<and>
   int64_range (wait_interval (limiter_config (make_RateLimiter (default_RateLimiterConfig\<lparr>refill_interval := int64_max\<rparr>) 0)) -
     (9 - last_refill (refill (make_RateLimiter (default_RateLimiterConfig\<lparr>refill_interval := int64_max\<rparr>) 0) 7)))"
proof -
  let ?c = "default_RateLimiterConfig\<lparr>refill_interval := int64_max\<rparr>"
  have "limiter_step\<^sup>*\<^sup>* (make_RateLimiter ?c 0, 0) (make_RateLimiter ?c 0, 7)"
    by (rule r_into_rtranclp) (simp add: limiter_step.tick)
  from limiter_no_overflow [OF this, of 9 int64_max] show ?thesis by simp
qed

end
