(* ===== verification/Lru_Cache.thy ===== *)
theory Lru_Cache
  imports Binary64 "HOL-Library.AList"
begin

unbundle bit_operations_syntax

text \<open>
  The LRU cache with time to live (\<open>include/nws/cache.hpp\<close>) and its coordinate keys. The recency
  list is a \<open>std::list\<close> whose nodes have an identity, because every map entry keeps an iterator into
  it: erasing or splicing through an iterator that is not in the list is undefined behaviour, the
  value \<open>None\<close> of the operations below, and so is \<open>back()\<close> of an empty list. The operations refine a
  plain recency list, from which the caching behaviour is read off.
\<close>

section \<open>State\<close>

record LruCacheConfig =
  max_entries :: "64 word"
  ttl :: seconds

definition default_LruCacheConfig :: LruCacheConfig where
  "default_LruCacheConfig = \<lparr>max_entries = 1000, ttl = 3600\<rparr>"

record 'v CacheEntry =
  cached_value :: 'v
  inserted_at :: nanoseconds
  list_it :: nat

type_synonym 'k nodes = "(nat \<times> 'k) list"

record ('k, 'v) LruCache =
  cache_config :: LruCacheConfig
  order :: "'k nodes"
  entries :: "('k \<times> 'v CacheEntry) list"
  next_node :: nat

definition make_LruCache :: "LruCacheConfig \<Rightarrow> ('k, 'v) LruCache" where
  "make_LruCache c = \<lparr>cache_config = c, order = [], entries = [], next_node = 0\<rparr>"

text \<open>\<open>std::list::erase\<close> and \<open>splice\<close> to the front, through an iterator.\<close>

definition erase_node :: "nat \<Rightarrow> 'k nodes \<Rightarrow> 'k nodes option" where
  "erase_node n xs =
     (if n \<in> set (map fst xs) then Some (filter (\<lambda>x. fst x \<noteq> n) xs) else None)"

definition splice_front :: "nat \<Rightarrow> 'k nodes \<Rightarrow> 'k nodes option" where
  "splice_front n xs =
     (case List.find (\<lambda>x. fst x = n) xs of
        None \<Rightarrow> None
      | Some x \<Rightarrow> Some (x # filter (\<lambda>x. fst x \<noteq> n) xs))"

section \<open>Operations\<close>

text \<open>\<open>now\<close> is the reading of the steady clock; an operation makes at most one.\<close>

definition expired :: "LruCacheConfig \<Rightarrow> 'v CacheEntry \<Rightarrow> nanoseconds \<Rightarrow> bool" where
  "expired cfg e now \<longleftrightarrow> now - inserted_at e > ttl cfg * ns_per_s"

definition LruCache_get ::
  "nanoseconds \<Rightarrow> 'k \<Rightarrow> ('k, 'v) LruCache \<Rightarrow> ('v option \<times> ('k, 'v) LruCache) option" where
  "LruCache_get now key c =
    (case map_of (entries c) key of
       None \<Rightarrow> Some (None, c)
     | Some entry \<Rightarrow>
         if expired (cache_config c) entry now
         then map_option (\<lambda>xs. (None, c\<lparr>order := xs, entries := AList.delete key (entries c)\<rparr>))
                (erase_node (list_it entry) (order c))
         else map_option (\<lambda>xs. (Some (cached_value entry), c\<lparr>order := xs\<rparr>))
                (splice_front (list_it entry) (order c)))"

function evict ::
  "nat \<Rightarrow> 'k nodes \<Rightarrow> ('k \<times> 'v CacheEntry) list \<Rightarrow> ('k nodes \<times> ('k \<times> 'v CacheEntry) list) option" where
  "evict n xs m =
     (if n < length m
      then if xs = [] then None else evict n (butlast xs) (AList.delete (snd (last xs)) m)
      else Some (xs, m))"
  by pat_completeness auto

termination evict
  by (relation "measure (\<lambda>(_, xs, _). length xs)") auto

declare evict.simps [simp del]

text \<open>
  \<open>node_ok\<close> and \<open>entry_ok\<close> say whether allocating the list node and the map entry succeeds; the
  result is \<open>True\<close> when the operation completes and \<open>False\<close> when it throws.
\<close>

definition LruCache_put ::
  "bool \<Rightarrow> bool \<Rightarrow> nanoseconds \<Rightarrow> 'k \<Rightarrow> 'v \<Rightarrow> ('k, 'v) LruCache \<Rightarrow> (bool \<times> ('k, 'v) LruCache) option" where
  "LruCache_put node_ok entry_ok now key v c =
    (if max_entries (cache_config c) = 0 \<or> ttl (cache_config c) \<le> 0 then Some (True, c)
     else case map_of (entries c) key of
       Some entry \<Rightarrow>
         map_option (\<lambda>xs. (True, c\<lparr>order := xs,
             entries := AList.update key (entry\<lparr>cached_value := v, inserted_at := now\<rparr>) (entries c)\<rparr>))
           (splice_front (list_it entry) (order c))
     | None \<Rightarrow>
         if \<not> node_ok then Some (False, c)
         else
           let node = next_node c; c = c\<lparr>order := (node, key) # order c, next_node := node + 1\<rparr>
           in if \<not> entry_ok then Some (False, c\<lparr>order := tl (order c)\<rparr>)
              else
                let entry = \<lparr>cached_value = v, inserted_at = now, list_it = fst (hd (order c))\<rparr>
                in map_option (\<lambda>(xs, m). (True, c\<lparr>order := xs, entries := m\<rparr>))
                     (evict (unat (max_entries (cache_config c))) (order c) ((key, entry) # entries c)))"

definition LruCache_invalidate :: "'k \<Rightarrow> ('k, 'v) LruCache \<Rightarrow> ('k, 'v) LruCache option" where
  "LruCache_invalidate key c =
    (case map_of (entries c) key of
       None \<Rightarrow> Some c
     | Some entry \<Rightarrow>
         map_option (\<lambda>xs. c\<lparr>order := xs, entries := AList.delete key (entries c)\<rparr>)
           (erase_node (list_it entry) (order c)))"

definition LruCache_clear :: "('k, 'v) LruCache \<Rightarrow> ('k, 'v) LruCache" where
  "LruCache_clear c = c\<lparr>entries := [], order := []\<rparr>"

definition LruCache_size :: "('k, 'v) LruCache \<Rightarrow> nat" where
  "LruCache_size c = length (entries c)"

section \<open>Invariant\<close>

text \<open>
  The list and the map hold the same keys, each once, and every entry points to its own node; nodes
  are fresh; the cache never holds more than \<open>max_entries\<close> and nothing when it is switched off.
\<close>

definition linked :: "'k nodes \<Rightarrow> ('k \<times> 'v CacheEntry) list \<Rightarrow> bool" where
  "linked xs m \<longleftrightarrow>
     distinct (map fst xs) \<and> distinct (map snd xs) \<and> distinct (map fst m) \<and>
     snd ` set xs = fst ` set m \<and> list_all (\<lambda>(k, e). (list_it e, k) \<in> set xs) m"

definition lru_inv :: "('k, 'v) LruCache \<Rightarrow> bool" where
  "lru_inv c \<longleftrightarrow>
     linked (order c) (entries c) \<and> list_all (\<lambda>x. fst x < next_node c) (order c) \<and>
     length (order c) \<le> unat (max_entries (cache_config c)) \<and>
     (ttl (cache_config c) \<le> 0 \<longrightarrow> order c = [])"

lemma make_LruCache_inv: "lru_inv (make_LruCache cfg)"
  by (simp add: lru_inv_def linked_def make_LruCache_def)

lemma linked_entry: "linked xs m \<Longrightarrow> map_of m k = Some e \<Longrightarrow> (list_it e, k) \<in> set xs"
  by (auto simp: linked_def list_all_iff dest: map_of_SomeD)

lemma linked_key: "linked xs m \<Longrightarrow> x \<in> set xs \<Longrightarrow> \<exists>e. map_of m (snd x) = Some e"
  unfolding linked_def by (metis image_eqI map_of_eq_None_iff not_None_eq)

lemma linked_size: "linked xs m \<Longrightarrow> length m = length xs"
  unfolding linked_def by (metis distinct_card length_map list.set_map)

text \<open>In the invariant a node is found by its identity exactly when it is found by its key.\<close>

lemma node_key:
  assumes "distinct (map fst xs)" and "distinct (map snd xs)" and "(n, k) \<in> set xs"
  shows "filter (\<lambda>x. fst x \<noteq> n) xs = filter (\<lambda>x. snd x \<noteq> k) xs"
    and "List.find (\<lambda>x. fst x = n) xs = Some (n, k)"
proof -
  have iff: "fst x = n \<longleftrightarrow> snd x = k" if "x \<in> set xs" for x
    using assms that by (metis distinct_map fst_conv inj_on_def snd_conv prod.collapse)
  then show "filter (\<lambda>x. fst x \<noteq> n) xs = filter (\<lambda>x. snd x \<noteq> k) xs" by (intro filter_cong) auto
  show "List.find (\<lambda>x. fst x = n) xs = Some (n, k)"
    using assms(1,3) by (induction xs) (auto simp: rev_image_eqI)
qed

lemma linked_node [cache_simps]:
  assumes "linked xs m" and "map_of m k = Some e"
  shows "erase_node (list_it e) xs = Some (filter (\<lambda>x. snd x \<noteq> k) xs)"
    and "splice_front (list_it e) xs = Some ((list_it e, k) # filter (\<lambda>x. snd x \<noteq> k) xs)"
proof -
  have d: "distinct (map fst xs)" "distinct (map snd xs)" using assms(1) by (auto simp: linked_def)
  note i = linked_entry [OF assms]
  note k = node_key [OF d i]
  show "erase_node (list_it e) xs = Some (filter (\<lambda>x. snd x \<noteq> k) xs)"
    using i by (force simp: erase_node_def k(1))
  show "splice_front (list_it e) xs = Some ((list_it e, k) # filter (\<lambda>x. snd x \<noteq> k) xs)"
    by (simp add: splice_front_def k)
qed

lemma linked_remove:
  assumes "linked xs m"
  shows "linked (filter (\<lambda>x. snd x \<noteq> k) xs) (AList.delete k m)"
proof -
  have "snd ` set (filter (\<lambda>x. snd x \<noteq> k) xs) = snd ` set xs - {k}" by auto
  moreover have "fst ` set (AList.delete k m) = fst ` set m - {k}" by (auto simp: AList.delete_eq)
  ultimately have keys: "snd ` set (filter (\<lambda>x. snd x \<noteq> k) xs) = fst ` set (AList.delete k m)"
    using assms by (simp add: linked_def)
  show ?thesis
    using assms unfolding linked_def keys
    by (auto simp: distinct_map_filter AList.distinct_delete list_all_iff AList.delete_eq)
qed

lemma linked_front:
  assumes "linked xs m" and "map_of m k = Some e"
  shows "linked ((list_it e, k) # filter (\<lambda>x. snd x \<noteq> k) xs) m"
proof -
  have d: "distinct (map fst xs)" "distinct (map snd xs)" using assms(1) by (auto simp: linked_def)
  note i = linked_entry [OF assms]
  have "set ((list_it e, k) # filter (\<lambda>x. snd x \<noteq> k) xs) = set xs"
    using i d(2) by (fastforce simp: distinct_map inj_on_def)
  moreover have "list_it e \<notin> fst ` set (filter (\<lambda>x. snd x \<noteq> k) xs)"
    unfolding node_key(1) [OF d i, symmetric] by auto
  ultimately show ?thesis
    using assms(1) unfolding linked_def by (auto simp: distinct_map_filter)
qed

lemma linked_update:
  assumes "linked xs m" and "map_of m k = Some e" and "list_it e' = list_it e"
  shows "linked xs (AList.update k e' m)"
proof -
  have k: "k \<in> fst ` set m" using assms(2) by (auto simp: rev_image_eqI dest: map_of_SomeD)
  have "list_all (\<lambda>(k, e). (list_it e, k) \<in> set xs) (AList.update k e' m)"
    unfolding list_all_iff
  proof clarify
    fix k1 e1 assume "(k1, e1) \<in> set (AList.update k e' m)"
    then have "map_of (AList.update k e' m) k1 = Some e1"
      using assms(1) by (auto simp: linked_def AList.distinct_update)
    then show "(list_it e1, k1) \<in> set xs"
      using linked_entry [OF assms(1)] assms(2,3) by (auto simp: AList.update_conv' split: if_splits)
  qed
  then show ?thesis
    using assms(1) k unfolding linked_def
    by (simp add: AList.distinct_update AList.dom_update insert_absorb)
qed

lemma linked_insert:
  assumes "linked xs m" and "map_of m k = None" and "n \<notin> fst ` set xs" and "list_it e = n"
  shows "linked ((n, k) # xs) ((k, e) # m)"
proof -
  have "k \<notin> fst ` set m" using assms(2) by (simp add: map_of_eq_None_iff)
  then show ?thesis using assms unfolding linked_def by (auto simp: list_all_iff)
qed

section \<open>The recency list behind the cache\<close>

type_synonym ('k, 'v) recency = "('k \<times> 'v \<times> nanoseconds) list"

definition view :: "'k nodes \<Rightarrow> ('k \<times> 'v CacheEntry) list \<Rightarrow> ('k, 'v) recency" where
  "view xs m = map (\<lambda>x. (snd x, case map_of m (snd x) of Some e \<Rightarrow> (cached_value e, inserted_at e))) xs"

definition contents :: "('k, 'v) LruCache \<Rightarrow> ('k, 'v) recency" where
  "contents c = view (order c) (entries c)"

definition drop_key :: "'k \<Rightarrow> ('k, 'v) recency \<Rightarrow> ('k, 'v) recency" where
  "drop_key k = filter (\<lambda>x. fst x \<noteq> k)"

lemma keys_view [simp]: "map fst (view xs m) = map snd xs"
  by (simp add: view_def)

lemma length_view [simp]: "length (view xs m) = length xs"
  by (simp add: view_def)

lemma view_lookup:
  assumes "linked xs m"
  shows "map_of (view xs m) k = map_option (\<lambda>e. (cached_value e, inserted_at e)) (map_of m k)"
proof (cases "k \<in> snd ` set xs")
  case True
  then obtain e where e: "map_of m k = Some e" using linked_key [OF assms] by fastforce
  have "distinct (map fst (view xs m))" using assms by (simp add: linked_def)
  moreover have "(k, cached_value e, inserted_at e) \<in> set (view xs m)"
    using True e by (auto simp: view_def)
  ultimately show ?thesis using e by simp
next
  case False
  then have "k \<notin> fst ` set m" using assms by (auto simp: linked_def)
  then have "map_of m k = None" by (simp add: map_of_eq_None_iff)
  moreover have "map_of (view xs m) k = None"
    unfolding map_of_eq_None_iff list.set_map [symmetric] keys_view using False by simp
  ultimately show ?thesis by simp
qed

lemma view_filter: "view (filter (\<lambda>x. snd x \<noteq> k) xs) m = drop_key k (view xs m)"
  by (simp add: view_def drop_key_def filter_map comp_def)

lemma view_ignore: "k \<notin> snd ` set xs \<Longrightarrow> view xs (AList.delete k m) = view xs m"
  "k \<notin> snd ` set xs \<Longrightarrow> view xs (AList.update k e m) = view xs m"
  "k \<notin> snd ` set xs \<Longrightarrow> view xs ((k, e) # m) = view xs m"
  by (auto simp: view_def AList.delete_conv' AList.update_conv' intro!: map_cong split: option.splits)

lemma view_remove: "view (filter (\<lambda>x. snd x \<noteq> k) xs) (AList.delete k m) = drop_key k (view xs m)"
  by (subst view_ignore(1)) (auto simp: view_filter)

lemma drop_key_absent: "k \<notin> fst ` set xs \<Longrightarrow> drop_key k xs = xs"
  by (auto simp: drop_key_def filter_id_conv)

lemma butlast_filter:
  assumes "distinct (map f xs)" and "xs \<noteq> []"
  shows "butlast xs = filter (\<lambda>x. f x \<noteq> f (last xs)) xs"
proof -
  obtain ys y where xs: "xs = ys @ [y]" using assms(2) by (metis append_butlast_last_id)
  with assms(1) show ?thesis by (auto simp: image_iff intro!: filter_id_conv [THEN iffD2, symmetric])
qed

text \<open>The eviction loop keeps exactly the \<open>n\<close> most recent entries and never finds the list empty.\<close>

lemma evict_take:
  "linked xs m \<Longrightarrow> \<exists>m'. evict n xs m = Some (take n xs, m') \<and> linked (take n xs) m' \<and>
     view (take n xs) m' = take n (view xs m)"
proof (induction n xs m rule: evict.induct)
  case (1 n xs m)
  note len = linked_size [OF "1.prems"]
  show ?case
  proof (cases "n < length m")
    case False
    then show ?thesis using "1.prems" len by (simp add: evict.simps [of n])
  next
    case True
    then have ne: "xs \<noteq> []" using len by auto
    define k where "k = snd (last xs)"
    have b: "butlast xs = filter (\<lambda>x. snd x \<noteq> k) xs"
      unfolding k_def using "1.prems" ne by (intro butlast_filter) (simp_all add: linked_def)
    have take: "take n (butlast xs) = take n xs" using True len by (simp add: take_butlast)
    have "linked (butlast xs) (AList.delete k m)" unfolding b by (rule linked_remove [OF "1.prems"])
    from "1.IH" [OF True ne, folded k_def, OF this] obtain m' where
      m': "evict n (butlast xs) (AList.delete k m) = Some (take n xs, m')" "linked (take n xs) m'"
        "view (take n xs) m' = take n (view (butlast xs) (AList.delete k m))"
      unfolding take by blast
    have "view (butlast xs) (AList.delete k m) = view (butlast xs) m"
      by (rule view_ignore(1)) (auto simp: b)
    also have "\<dots> = butlast (view xs m)" by (simp add: view_def map_butlast)
    finally have "take n (view (butlast xs) (AList.delete k m)) = take n (view xs m)"
      using True len by (simp add: take_butlast)
    with m' True ne show ?thesis by (simp add: evict.simps [of n xs m] k_def)
  qed
qed

section \<open>Refinement\<close>

text \<open>The specification: a list of key, value and insertion time, most recent first.\<close>

definition spec_get :: "LruCacheConfig \<Rightarrow> nanoseconds \<Rightarrow> 'k \<Rightarrow> ('k, 'v) recency \<Rightarrow> 'v option \<times> ('k, 'v) recency" where
  "spec_get cfg now k xs =
    (case map_of xs k of
       None \<Rightarrow> (None, xs)
     | Some (v, t) \<Rightarrow> if now - t > ttl cfg * ns_per_s then (None, drop_key k xs)
                      else (Some v, (k, v, t) # drop_key k xs))"

definition spec_put ::
  "LruCacheConfig \<Rightarrow> bool \<Rightarrow> nanoseconds \<Rightarrow> 'k \<Rightarrow> 'v \<Rightarrow> ('k, 'v) recency \<Rightarrow> bool \<times> ('k, 'v) recency" where
  "spec_put cfg mem_ok now k v xs =
    (if max_entries cfg = 0 \<or> ttl cfg \<le> 0 then (True, xs)
     else if map_of xs k = None \<and> \<not> mem_ok then (False, xs)
     else (True, take (unat (max_entries cfg)) ((k, v, now) # drop_key k xs)))"

datatype ('k, 'v) cache_op =
    Get nanoseconds 'k
  | Put bool bool nanoseconds 'k 'v
  | Invalidate 'k
  | Clear
  | Size

datatype 'v cache_reply = Found "'v option" | Completed bool | Count nat

fun cache_step :: "('k, 'v) cache_op \<Rightarrow> ('k, 'v) LruCache \<Rightarrow> ('v cache_reply \<times> ('k, 'v) LruCache) option" where
  "cache_step (Get now k) c = map_option (\<lambda>(r, c). (Found r, c)) (LruCache_get now k c)"
| "cache_step (Put node_ok entry_ok now k v) c =
     map_option (\<lambda>(r, c). (Completed r, c)) (LruCache_put node_ok entry_ok now k v c)"
| "cache_step (Invalidate k) c = map_option (\<lambda>c. (Completed True, c)) (LruCache_invalidate k c)"
| "cache_step Clear c = Some (Completed True, LruCache_clear c)"
| "cache_step Size c = Some (Count (LruCache_size c), c)"

fun spec_step :: "LruCacheConfig \<Rightarrow> ('k, 'v) cache_op \<Rightarrow> ('k, 'v) recency \<Rightarrow> 'v cache_reply \<times> ('k, 'v) recency" where
  "spec_step cfg (Get now k) xs = (case spec_get cfg now k xs of (r, xs) \<Rightarrow> (Found r, xs))"
| "spec_step cfg (Put node_ok entry_ok now k v) xs =
     (case spec_put cfg (node_ok \<and> entry_ok) now k v xs of (r, xs) \<Rightarrow> (Completed r, xs))"
| "spec_step cfg (Invalidate k) xs = (Completed True, drop_key k xs)"
| "spec_step cfg Clear xs = (Completed True, [])"
| "spec_step cfg Size xs = (Count (length xs), xs)"

lemma lru_invD:
  assumes "lru_inv c"
  shows "linked (order c) (entries c)" "list_all (\<lambda>x. fst x < next_node c) (order c)"
    "length (order c) \<le> unat (max_entries (cache_config c))"
    "ttl (cache_config c) \<le> 0 \<Longrightarrow> order c = []"
  using assms by (auto simp: lru_inv_def)

lemma contents_lookup:
  "lru_inv c \<Longrightarrow>
   map_of (contents c) k = map_option (\<lambda>e. (cached_value e, inserted_at e)) (map_of (entries c) k)"
  unfolding contents_def by (intro view_lookup lru_invD)

lemma filter_front_length: "x \<in> set xs \<Longrightarrow> \<not> P x \<Longrightarrow> Suc (length (filter P xs)) \<le> length xs"
  using length_filter_less [of x xs P] by simp

text \<open>The two moves on the list: a removed node and a node brought to the front.\<close>

lemma lru_inv_remove:
  assumes "lru_inv c"
  shows "lru_inv (c\<lparr>order := filter (\<lambda>x. snd x \<noteq> k) (order c), entries := AList.delete k (entries c)\<rparr>)"
  using linked_remove [OF lru_invD(1) [OF assms]] lru_invD(2-4) [OF assms]
    le_trans [OF length_filter_le [of "\<lambda>x. snd x \<noteq> k" "order c"] lru_invD(3) [OF assms]]
  by (auto simp: lru_inv_def list_all_iff)

lemma lru_inv_front:
  assumes "lru_inv c" and "map_of (entries c) k = Some e"
  shows "lru_inv (c\<lparr>order := (list_it e, k) # filter (\<lambda>x. snd x \<noteq> k) (order c)\<rparr>)"
proof -
  note l = lru_invD [OF assms(1)]
  note i = linked_entry [OF l(1) assms(2)]
  have "list_it e < next_node c" using i l(2) by (auto simp: list_all_iff)
  moreover have "Suc (length (filter (\<lambda>x. snd x \<noteq> k) (order c))) \<le> length (order c)"
    using i by (rule filter_front_length) simp
  ultimately show ?thesis
    using linked_front [OF l(1) assms(2)] l(2-4) i by (auto simp: lru_inv_def list_all_iff)
qed

lemma lru_inv_update:
  assumes "lru_inv c" and "map_of (entries c) k = Some e" and "list_it e' = list_it e"
  shows "lru_inv (c\<lparr>entries := AList.update k e' (entries c)\<rparr>)"
  using linked_update [OF lru_invD(1) [OF assms(1)] assms(2,3)] lru_invD(2-4) [OF assms(1)]
  by (simp add: lru_inv_def)

lemma get_simulates:
  assumes "lru_inv c"
  shows "\<exists>r c'. LruCache_get now k c = Some (r, c') \<and> lru_inv c' \<and> cache_config c' = cache_config c \<and>
           spec_get (cache_config c) now k (contents c) = (r, contents c')"
proof (cases "map_of (entries c) k")
  case None
  then show ?thesis using assms by (simp add: LruCache_get_def spec_get_def contents_lookup)
next
  case (Some e)
  note l = lru_invD [OF assms]
  note cl = contents_lookup [OF assms, of k, unfolded contents_def]
  show ?thesis
  proof (cases "expired (cache_config c) e now")
    case True
    with Some show ?thesis
      using lru_inv_remove [OF assms, of k]
      by (simp add: LruCache_get_def spec_get_def cl linked_node [OF l(1) Some] expired_def contents_def
          view_remove)
  next
    case False
    with Some show ?thesis
      using lru_inv_front [OF assms Some]
      by (simp add: LruCache_get_def spec_get_def cl linked_node [OF l(1) Some] expired_def contents_def
          view_filter [symmetric]) (simp add: view_def)
  qed
qed

lemma invalidate_simulates:
  assumes "lru_inv c"
  shows "\<exists>c'. LruCache_invalidate k c = Some c' \<and> lru_inv c' \<and> cache_config c' = cache_config c \<and>
           contents c' = drop_key k (contents c)"
proof (cases "map_of (entries c) k")
  case None
  have "k \<notin> fst ` set (contents c)"
    using None contents_lookup [OF assms, of k] by (simp add: map_of_eq_None_iff [symmetric])
  then show ?thesis
    using None assms by (simp add: LruCache_invalidate_def drop_key_absent)
next
  case (Some e)
  then show ?thesis
    using lru_inv_remove [OF assms, of k]
    by (simp add: LruCache_invalidate_def linked_node [OF lru_invD(1) [OF assms] Some] contents_def view_remove)
qed

definition put_ok ::
  "bool \<Rightarrow> bool \<Rightarrow> nanoseconds \<Rightarrow> 'k \<Rightarrow> 'v \<Rightarrow> ('k, 'v) LruCache \<Rightarrow> bool" where
  "put_ok node_ok entry_ok now k v c \<longleftrightarrow>
     (\<exists>r c'. LruCache_put node_ok entry_ok now k v c = Some (r, c') \<and> lru_inv c' \<and>
        cache_config c' = cache_config c \<and>
        spec_put (cache_config c) (node_ok \<and> entry_ok) now k v (contents c) = (r, contents c'))"

lemma put_updates:
  assumes "lru_inv c" and on: "max_entries (cache_config c) \<noteq> 0" "\<not> ttl (cache_config c) \<le> 0"
    and Some: "map_of (entries c) k = Some e"
  shows "put_ok node_ok entry_ok now k v c"
proof -
  note l = lru_invD [OF assms(1)] and cl = contents_lookup [OF assms(1), of k, unfolded contents_def]
  let ?e = "e\<lparr>cached_value := v, inserted_at := now\<rparr>"
  let ?c = "c\<lparr>order := (list_it e, k) # filter (\<lambda>x. snd x \<noteq> k) (order c)\<rparr>"
  have "lru_inv (?c\<lparr>entries := AList.update k ?e (entries ?c)\<rparr>)"
    using lru_inv_front [OF assms(1) Some] by (rule lru_inv_update) (use Some in simp_all)
  moreover have "length (drop_key k (contents c)) < unat (max_entries (cache_config c))"
    using le_trans [OF filter_front_length [OF linked_entry [OF l(1) Some], of "\<lambda>x. snd x \<noteq> k"] l(3)]
    by (simp add: contents_def view_filter [symmetric] Suc_le_eq)
  moreover have "view (filter (\<lambda>x. snd x \<noteq> k) (order c)) (AList.update k ?e (entries c)) = drop_key k (contents c)"
    by (subst view_ignore(2)) (auto simp: contents_def view_filter)
  then have "view ((list_it e, k) # filter (\<lambda>x. snd x \<noteq> k) (order c)) (AList.update k ?e (entries c)) =
      (k, v, now) # drop_key k (contents c)"
    by (simp add: view_def AList.update_conv')
  ultimately show ?thesis
    unfolding put_ok_def using on Some by (intro exI [of _ True]) (simp add: LruCache_put_def spec_put_def cl
        linked_node [OF l(1) Some] contents_def)
qed

lemma put_inserts:
  assumes "lru_inv c" and on: "max_entries (cache_config c) \<noteq> 0" "\<not> ttl (cache_config c) \<le> 0"
    and None: "map_of (entries c) k = None"
  shows "put_ok node_ok entry_ok now k v c"
proof -
  note l = lru_invD [OF assms(1)] and cl = contents_lookup [OF assms(1), of k, unfolded contents_def]
  define n where "n = unat (max_entries (cache_config c))"
  have n: "0 < n" using on by (simp add: n_def unat_gt_0)
  let ?xs = "(next_node c, k) # order c"
  let ?e = "\<lparr>cached_value = v, inserted_at = now, list_it = next_node c\<rparr>"
  have fresh: "next_node c \<notin> fst ` set (order c)" using l(2) by (auto simp: list_all_iff)
  have absent: "k \<notin> fst ` set (contents c)"
    using None cl by (simp add: map_of_eq_None_iff [symmetric] contents_def)
  have absent': "k \<notin> snd ` set (order c)"
    using absent unfolding contents_def list.set_map [symmetric] keys_view .
  have "view ?xs ((k, ?e) # entries c) = (k, v, now) # drop_key k (contents c)"
    using view_ignore(3) [OF absent', of ?e "entries c"] absent
    by (simp add: view_def contents_def drop_key_absent)
  moreover obtain m' where m': "evict n ?xs ((k, ?e) # entries c) = Some (take n ?xs, m')"
      "linked (take n ?xs) m'" "view (take n ?xs) m' = take n (view ?xs ((k, ?e) # entries c))"
    using evict_take [OF linked_insert [OF l(1) None fresh, of ?e], of n] by auto
  moreover have "list_all (\<lambda>x. fst x < Suc (next_node c)) (take n ?xs)"
    using l(2) by (auto simp: list_all_iff less_Suc_eq dest!: in_set_takeD)
  ultimately show ?thesis
    unfolding put_ok_def using on None assms(1) n l(2)
    by (auto simp: LruCache_put_def spec_put_def cl contents_def n_def [symmetric] Let_def lru_inv_def
        list_all_iff less_Suc_eq)
qed

lemma put_simulates:
  assumes "lru_inv c"
  shows "\<exists>r c'. LruCache_put node_ok entry_ok now k v c = Some (r, c') \<and> lru_inv c' \<and>
           cache_config c' = cache_config c \<and>
           spec_put (cache_config c) (node_ok \<and> entry_ok) now k v (contents c) = (r, contents c')"
proof (cases "max_entries (cache_config c) = 0 \<or> ttl (cache_config c) \<le> 0")
  case True
  then show ?thesis using assms by (auto simp: LruCache_put_def spec_put_def)
next
  case False
  then have "put_ok node_ok entry_ok now k v c"
    using put_updates [OF assms] put_inserts [OF assms] by (cases "map_of (entries c) k") auto
  then show ?thesis by (simp add: put_ok_def)
qed

lemma cache_step_simulates:
  assumes "lru_inv c"
  shows "\<exists>r c'. cache_step x c = Some (r, c') \<and> lru_inv c' \<and> cache_config c' = cache_config c \<and>
           spec_step (cache_config c) x (contents c) = (r, contents c')"
proof (cases x)
  case (Get now k)
  then show ?thesis using get_simulates [OF assms, of now k] by auto
next
  case (Put node_ok entry_ok now k v)
  then show ?thesis using put_simulates [OF assms, of node_ok entry_ok now k v] by auto
next
  case (Invalidate k)
  then show ?thesis using invalidate_simulates [OF assms, of k] by auto
next
  case Clear
  then show ?thesis
    by (simp add: LruCache_clear_def lru_inv_def linked_def contents_def view_def)
next
  case Size
  then show ?thesis
    using assms linked_size [OF lru_invD(1) [OF assms]] by (simp add: LruCache_size_def contents_def)
qed

interpretation lru: simulation "\<lambda>c. lru_inv c \<and> cache_config c = cfg" contents cache_step "spec_step cfg"
  for cfg
  by unfold_locales (use cache_step_simulates in blast)

section \<open>What the recency list keeps\<close>

text \<open>\<open>last_write k ops\<close> is the value and time of the last \<open>put\<close> of \<open>k\<close> no removal of \<open>k\<close> follows.\<close>

fun write_of :: "'k \<Rightarrow> ('k, 'v) cache_op \<Rightarrow> ('v \<times> nanoseconds) option \<Rightarrow> ('v \<times> nanoseconds) option" where
  "write_of k (Put _ _ t k' v) acc = (if k' = k then Some (v, t) else acc)"
| "write_of k (Invalidate k') acc = (if k' = k then None else acc)"
| "write_of k Clear acc = None"
| "write_of k _ acc = acc"

definition last_write :: "'k \<Rightarrow> ('k, 'v) cache_op list \<Rightarrow> ('v \<times> nanoseconds) option" where
  "last_write k ops = fold (write_of k) ops None"

lemma drop_key_Nil [simp]: "drop_key k [] = []"
  by (simp add: drop_key_def)

lemma map_of_drop_key: "map_of (drop_key k xs) j = (if j = k then None else map_of xs j)"
  by (induction xs) (auto simp: drop_key_def)

lemma map_of_take: "map_of (take n xs) k = Some v \<Longrightarrow> map_of xs k = Some v"
proof (induction xs arbitrary: n)
  case (Cons x xs)
  then show ?case by (cases n) (auto split: if_splits)
qed simp

definition disabled :: "LruCacheConfig \<Rightarrow> bool" where
  "disabled cfg \<longleftrightarrow> max_entries cfg = 0 \<or> ttl cfg \<le> 0"

lemma spec_put_cases:
  assumes "spec_put cfg ok now k v xs = (r, ys)"
  obtains (off) "disabled cfg" "ys = xs" "r"
    | (failed) "map_of xs k = None" "ys = xs" "\<not> ok" "\<not> r"
    | (stored) "\<not> disabled cfg" "ys = take (unat (max_entries cfg)) ((k, v, now) # drop_key k xs)" "r"
proof -
  consider "disabled cfg" | "\<not> disabled cfg" "map_of xs k = None \<and> \<not> ok" |
    "\<not> disabled cfg" "\<not> (map_of xs k = None \<and> \<not> ok)" by blast
  then show thesis
  proof cases
    case 1
    then show thesis using assms by (intro off) (auto simp: spec_put_def disabled_def)
  next
    case 2
    then show thesis using assms by (intro failed) (auto simp: spec_put_def disabled_def)
  next
    case 3
    have "spec_put cfg ok now k v xs =
        (True, take (unat (max_entries cfg)) ((k, v, now) # drop_key k xs))"
      using 3 unfolding spec_put_def disabled_def by (simp only: if_False)
    with 3(1) assms show thesis by (intro stored) (simp_all only: prod.inject not_False_eq_True)
  qed
qed

lemma spec_get_cases:
  assumes "spec_get cfg now k xs = (r, ys)"
  obtains (miss) "map_of xs k = None" "r = None" "ys = xs"
    | (stale) v t where "map_of xs k = Some (v, t)" "ttl cfg * ns_per_s < now - t" "r = None" "ys = drop_key k xs"
    | (hit) v t where "map_of xs k = Some (v, t)" "now - t \<le> ttl cfg * ns_per_s" "r = Some v"
        "ys = (k, v, t) # drop_key k xs"
  using assms by (auto simp: spec_get_def split: option.splits if_splits)

definition coherent :: "LruCacheConfig \<Rightarrow> ('k, 'v) cache_op list \<Rightarrow> ('k, 'v) recency \<Rightarrow> bool" where
  "coherent cfg ops xs \<longleftrightarrow>
     (disabled cfg \<longrightarrow> xs = []) \<and> (\<forall>k v t. map_of xs k = Some (v, t) \<longrightarrow> last_write k ops = Some (v, t))"

lemma last_write_snoc: "last_write k (ops @ [x]) = write_of k x (last_write k ops)"
  by (simp add: last_write_def)

lemma coherent_step:
  assumes "coherent cfg ops xs" and "spec_step cfg x xs = (r, ys)"
  shows "coherent cfg (ops @ [x]) ys"
proof (cases x)
  case (Get now k)
  then obtain r' where "spec_get cfg now k xs = (r', ys)" using assms(2) by (auto split: prod.splits)
  then show ?thesis
    by (cases rule: spec_get_cases)
      (use assms(1) Get in \<open>auto simp: coherent_def last_write_snoc map_of_drop_key\<close>)
next
  case (Put node_ok entry_ok now k v)
  then obtain r' where "spec_put cfg (node_ok \<and> entry_ok) now k v xs = (r', ys)"
    using assms(2) by (auto split: prod.splits)
  then show ?thesis
  proof (cases rule: spec_put_cases)
    case stored
    have "map_of ((k, v, now) # drop_key k xs) j = Some (u, t)" if "map_of ys j = Some (u, t)" for j u t
      using that unfolding stored(2) by (rule map_of_take)
    with stored(1) assms(1) Put show ?thesis
      by (fastforce simp: coherent_def last_write_snoc map_of_drop_key split: if_splits)
  qed (use assms(1) Put in \<open>auto simp: coherent_def last_write_snoc\<close>)
qed (use assms in \<open>auto simp: coherent_def last_write_snoc map_of_drop_key split: if_splits\<close>)

lemma coherent_run:
  "coherent cfg ops xs \<Longrightarrow> run_spec (spec_step cfg) ops' xs = (rs, ys) \<Longrightarrow> coherent cfg (ops @ ops') ys"
proof (induction ops' arbitrary: ops xs rs)
  case (Cons x ops')
  then show ?case using coherent_step [OF Cons.prems(1)] by (fastforce split: prod.splits)
qed simp

subsection \<open>Retention\<close>

text \<open>
  A key stays cached as long as fewer than \<open>max_entries\<close> other keys are used: the keys ahead of it in
  the list are among those used since.
\<close>

definition retained :: "'k set \<Rightarrow> 'k \<Rightarrow> 'v \<Rightarrow> nanoseconds \<Rightarrow> ('k, 'v) recency \<Rightarrow> bool" where
  "retained T k v t xs \<longleftrightarrow>
     distinct (map fst xs) \<and>
     (\<exists>ys zs. xs = ys @ (k, v, t) # zs \<and> fst ` set ys \<subseteq> T)"

fun used_keys :: "('k, 'v) cache_op \<Rightarrow> 'k set" where
  "used_keys (Get now k) = {k}"
| "used_keys (Put node_ok entry_ok now k v) = {k}"
| "used_keys _ = {}"

fun spares :: "LruCacheConfig \<Rightarrow> 'k \<Rightarrow> nanoseconds \<Rightarrow> ('k, 'v) cache_op \<Rightarrow> bool" where
  "spares cfg k t (Get now j) \<longleftrightarrow> (j = k \<longrightarrow> now - t \<le> ttl cfg * ns_per_s)"
| "spares cfg k t (Put node_ok entry_ok now j v) \<longleftrightarrow> j \<noteq> k"
| "spares cfg k t (Invalidate j) \<longleftrightarrow> j \<noteq> k"
| "spares cfg k t Clear \<longleftrightarrow> False"
| "spares cfg k t Size \<longleftrightarrow> True"

lemma used_keys_finite: "finite (used_keys x)"
  by (cases x) simp_all

lemma distinct_drop_key: "distinct (map fst xs) \<Longrightarrow> distinct (map fst (drop_key k xs))"
  by (simp add: drop_key_def distinct_map_filter)

lemma keys_drop_key: "fst ` set (drop_key k xs) = fst ` set xs - {k}"
  by (auto simp: drop_key_def)

lemma drop_key_append: "drop_key j (xs @ ys) = drop_key j xs @ drop_key j ys"
  by (simp add: drop_key_def)

lemma drop_key_Cons: "drop_key j (x # xs) = (if fst x = j then drop_key j xs else x # drop_key j xs)"
  by (simp add: drop_key_def)

lemma retained_lookup: "retained T k v t xs \<Longrightarrow> map_of xs k = Some (v, t)"
  by (auto simp: retained_def map_of_eq_None_iff map_add_def split: option.splits)

lemma retained_drop:
  assumes "retained T k v t xs" and "j \<noteq> k"
  shows "retained T k v t (drop_key j xs)"
proof -
  obtain ys zs where "xs = ys @ (k, v, t) # zs" "fst ` set ys \<subseteq> T" "distinct (map fst xs)"
    using assms(1) by (auto simp: retained_def)
  then show ?thesis
    using assms(2) distinct_drop_key [of xs j] unfolding retained_def
    by (intro conjI exI [of _ "drop_key j ys"] exI [of _ "drop_key j zs"])
      (auto simp: drop_key_append drop_key_Cons keys_drop_key)
qed

lemma retained_front:
  assumes "retained T k v t xs" and "j \<noteq> k" and "j \<in> T"
  shows "retained T k v t ((j, u) # drop_key j xs)"
proof -
  obtain ys zs where x: "drop_key j xs = ys @ (k, v, t) # zs" "fst ` set ys \<subseteq> T"
      "distinct (map fst (drop_key j xs))"
    using retained_drop [OF assms(1,2)] by (auto simp: retained_def)
  have "j \<notin> fst ` set (drop_key j xs)" by (simp add: keys_drop_key)
  with x assms(3) show ?thesis unfolding retained_def
    by (intro conjI exI [of _ "(j, u) # ys"] exI [of _ zs]) auto
qed

lemma retained_take:
  assumes "retained T k v t xs" and "finite T" and "card T < n"
  shows "retained T k v t (take n xs)"
proof -
  obtain ys zs where x: "xs = ys @ (k, v, t) # zs" "fst ` set ys \<subseteq> T" "distinct (map fst xs)"
    using assms(1) by (auto simp: retained_def)
  have "length ys = card (fst ` set ys)" using x(1,3) by (metis distinct_append distinct_card length_map list.set_map map_append)
  also have "\<dots> < n" using card_mono [OF assms(2) x(2)] assms(3) by simp
  finally have "take n xs = ys @ (k, v, t) # take (n - length ys - 1) zs"
    by (simp add: x(1) take_Cons')
  moreover have "distinct (map fst (take n xs))" using x(3) by (simp add: take_map [symmetric])
  ultimately show ?thesis using x(2) unfolding retained_def by blast
qed

lemma retained_step:
  assumes "retained T k v t xs" and "finite T" and "card T < unat (max_entries cfg)"
    and "spares cfg k t x" and "used_keys x - {k} \<subseteq> T" and "spec_step cfg x xs = (r, ys)"
  shows "retained T k v t ys"
proof (cases x)
  case (Get now j)
  then obtain r' where "spec_get cfg now j xs = (r', ys)" using assms(6) by (auto split: prod.splits)
  then show ?thesis
  proof (cases rule: spec_get_cases)
    case (stale v' t')
    then have "j \<noteq> k" using retained_lookup [OF assms(1)] assms(4) Get by auto
    with stale(4) assms(1) show ?thesis by (simp add: retained_drop)
  next
    case (hit v' t')
    show ?thesis
    proof (cases "j = k")
      case True
      have "distinct (map fst ys)"
        using assms(1) hit(4) by (simp add: retained_def distinct_drop_key keys_drop_key)
      with True hit retained_lookup [OF assms(1)] show ?thesis
        unfolding retained_def by (intro conjI exI [of _ "[]"] exI [of _ "drop_key k xs"]) auto
    next
      case False
      with hit(4) assms(1,5) Get show ?thesis by (simp add: retained_front)
    qed
  qed (use assms(1) in simp)
next
  case (Put node_ok entry_ok now j u)
  then obtain r' where "spec_put cfg (node_ok \<and> entry_ok) now j u xs = (r', ys)"
    using assms(6) by (auto split: prod.splits)
  then show ?thesis
  proof (cases rule: spec_put_cases)
    case stored
    have "j \<noteq> k" "j \<in> T" using assms(4,5) Put by auto
    then show ?thesis unfolding stored(2) by (intro retained_take retained_front assms)
  qed (use assms(1) in simp_all)
qed (use assms retained_drop in auto)

lemma retained_run:
  "retained T k v t xs \<Longrightarrow> finite T \<Longrightarrow> card T < unat (max_entries cfg) \<Longrightarrow>
   list_all (spares cfg k t) ops \<Longrightarrow> (\<Union> (used_keys ` set ops)) - {k} \<subseteq> T \<Longrightarrow>
   run_spec (spec_step cfg) ops xs = (rs, ys) \<Longrightarrow> retained T k v t ys"
proof (induction ops arbitrary: xs rs)
  case (Cons x ops)
  obtain r zs where x: "spec_step cfg x xs = (r, zs)" by (cases "spec_step cfg x xs")
  have "retained T k v t zs" using Cons.prems x by (intro retained_step [OF _ _ _ _ _ x]) auto
  then show ?case
    using Cons.IH [of zs] Cons.prems x by (auto split: prod.splits)
qed simp

section \<open>Coordinate keys\<close>

record CoordinateKey =
  key_latitude :: double
  key_longitude :: double

text \<open>\<open>operator==\<close>: numeric equality, with all NaNs alike.\<close>

definition same_coordinate :: "double \<Rightarrow> double \<Rightarrow> bool" where
  "same_coordinate a b \<longleftrightarrow> deq a b \<or> isnan a \<and> isnan b"

definition CoordinateKey_eq :: "CoordinateKey \<Rightarrow> CoordinateKey \<Rightarrow> bool" where
  "CoordinateKey_eq a b \<longleftrightarrow>
     same_coordinate (key_latitude a) (key_latitude b) \<and> same_coordinate (key_longitude a) (key_longitude b)"

text \<open>\<open>std::hash<CoordinateKey>\<close>, over any \<open>std::hash<double>\<close>.\<close>

definition CoordinateKey_hash :: "(double \<Rightarrow> 64 word) \<Rightarrow> CoordinateKey \<Rightarrow> 64 word" where
  "CoordinateKey_hash hash_double k =
    (let h1 = hash_double (if isnan (key_latitude k) then dlit 0 else key_latitude k);
         h2 = hash_double (if isnan (key_longitude k) then dlit 0 else key_longitude k)
     in h1 XOR push_bit 1 h2)"

text \<open>
  The representative of a class of equal keys: positive zero for both zeros, one NaN for all of them.
  A map keyed by \<open>operator==\<close> is a map keyed by representatives.
\<close>

fun canonical_double :: "double \<Rightarrow> double" where
  "canonical_double (Fin s m) = Fin (s \<and> m \<noteq> 0) m"
| "canonical_double (NaN s p) = default_nan"
| "canonical_double (Inf s) = Inf s"

definition canonical_key :: "CoordinateKey \<Rightarrow> CoordinateKey" where
  "canonical_key k = \<lparr>key_latitude = canonical_double (key_latitude k),
                      key_longitude = canonical_double (key_longitude k)\<rparr>"

lemma same_coordinate_canonical:
  "dwf a \<Longrightarrow> dwf b \<Longrightarrow> same_coordinate a b \<longleftrightarrow> canonical_double a = canonical_double b"
  by (cases a; cases b) (auto simp: same_coordinate_def deq_def split: if_splits)

lemma hash_canonical:
  assumes "hash_double (Fin True 0) = hash_double (Fin False 0)"
  shows "hash_double (if isnan (canonical_double d) then dlit 0 else canonical_double d) =
         hash_double (if isnan d then dlit 0 else d)"
proof (cases d)
  case (Fin s m)
  then show ?thesis using assms by (cases s; cases "m = 0") simp_all
qed simp_all

definition key_wf :: "CoordinateKey \<Rightarrow> bool" where
  "key_wf k \<longleftrightarrow> dwf (key_latitude k) \<and> dwf (key_longitude k)"

lemma CoordinateKey_eq_canonical:
  assumes "key_wf a" and "key_wf b"
  shows "CoordinateKey_eq a b \<longleftrightarrow> canonical_key a = canonical_key b"
  using assms by (simp add: key_wf_def CoordinateKey_eq_def canonical_key_def same_coordinate_canonical)

section \<open>Properties\<close>

text \<open>
  C6: every sequence of cache operations, whatever allocations fail, runs on a new cache without
  undefined behaviour (no dangling iterator is erased or spliced, \<open>back()\<close> is never asked of an
  empty list), replies exactly what a plain most-recent-first list replies, and never holds more
  than \<open>max_entries\<close> entries.
\<close>

theorem lru_refines_recency_list:
  "\<exists>rs c. run_steps cache_step ops (make_LruCache cfg) = Some (rs, c) \<and>
          run_spec (spec_step cfg) ops [] = (rs, contents c) \<and>
          lru_inv c \<and> LruCache_size c \<le> unat (max_entries cfg)"
proof -
  have "lru_inv (make_LruCache cfg) \<and> cache_config (make_LruCache cfg) = cfg"
    by (simp add: make_LruCache_inv) (simp add: make_LruCache_def)
  from lru.run_simulates [OF this, of ops] obtain rs c where
    c: "run_steps cache_step ops (make_LruCache cfg) = Some (rs, c)" "lru_inv c" "cache_config c = cfg"
      "run_spec (spec_step cfg) ops (contents (make_LruCache cfg)) = (rs, contents c)"
    by blast
  moreover have "run_spec (spec_step cfg) ops [] = (rs, contents c)"
    using c(4) by (simp add: contents_def view_def make_LruCache_def)
  moreover have "LruCache_size c \<le> unat (max_entries cfg)"
    using lru_invD(3) [OF c(2)] linked_size [OF lru_invD(1) [OF c(2)]] c(3) by (simp add: LruCache_size_def)
  ultimately show ?thesis by blast
qed

text \<open>
  C27: a value a \<open>get\<close> returns is the one the most recent \<open>put\<close> of that key stored, no \<open>invalidate\<close> or
  \<open>clear\<close> came after that \<open>put\<close>, and it is not older than the time to live; after any history of
  operations and failed allocations.
\<close>

theorem lru_get_coherent:
  assumes "run_steps cache_step ops (make_LruCache cfg) = Some (rs, c)"
    and "LruCache_get now k c = Some (Some v, c')"
  shows "\<exists>t. last_write k ops = Some (v, t) \<and> now - t \<le> ttl cfg * ns_per_s"
proof -
  have init: "lru_inv (make_LruCache cfg) \<and> cache_config (make_LruCache cfg) = cfg"
    "contents (make_LruCache cfg) = []"
    by (simp_all add: make_LruCache_inv) (simp_all add: make_LruCache_def contents_def view_def)
  from lru.run_simulates [OF init(1), of ops] assms(1)
  have c: "lru_inv c" "cache_config c = cfg" "run_spec (spec_step cfg) ops [] = (rs, contents c)"
    by (auto simp: init(2))
  have "coherent cfg [] []" by (simp add: coherent_def)
  from coherent_run [OF this c(3)] have coh: "coherent cfg ops (contents c)" by simp
  from get_simulates [OF c(1), of now k] assms(2) c(2)
  have "spec_get cfg now k (contents c) = (Some v, contents c')" by auto
  then show ?thesis
    by (cases rule: spec_get_cases) (use coh in \<open>auto simp: coherent_def\<close>)
qed

definition demo_cache_ops :: "(string, int) cache_op list" where
  "demo_cache_ops = [Put True True 0 ''a'' 1, Put True True 5 ''b'' 2, Put True True 7 ''a'' 3]"

definition demo_cache :: "(string, int) LruCache" where
  "demo_cache = \<lparr>cache_config = default_LruCacheConfig, order = [(0, ''a''), (1, ''b'')],
     entries = [(''b'', \<lparr>cached_value = 2, inserted_at = 5, list_it = 1\<rparr>),
                (''a'', \<lparr>cached_value = 3, inserted_at = 7, list_it = 0\<rparr>)], next_node = 2\<rparr>"

theorem lru_get_coherent_witness:
  "\<exists>t. last_write ''a'' demo_cache_ops = Some (3, t) \<and> 8 - t \<le> ttl default_LruCacheConfig * ns_per_s"
proof -
  have "run_steps cache_step demo_cache_ops (make_LruCache default_LruCacheConfig) =
      Some ([Completed True, Completed True, Completed True], demo_cache)"
    by code_simp
  moreover have "LruCache_get 8 ''a'' demo_cache = Some (Some 3, demo_cache)"
    by code_simp
  ultimately show ?thesis by (rule lru_get_coherent)
qed

text \<open>
  C21: least recently used: after a successful \<open>put\<close> of \<open>k\<close>, as long as the operations that follow
  use fewer than \<open>max_entries\<close> other keys, do not overwrite, invalidate or clear \<open>k\<close>, and no reading
  of the clock at \<open>k\<close> is past its time to live, a \<open>get\<close> of \<open>k\<close> still returns its value.
\<close>

theorem lru_retention:
  assumes "lru_inv c" and "\<not> disabled (cache_config c)"
    and "LruCache_put node_ok entry_ok t k v c = Some (True, c1)"
    and "list_all (spares (cache_config c) k t) ops"
    and "card (\<Union> (used_keys ` set ops) - {k}) < unat (max_entries (cache_config c))"
    and "run_steps cache_step ops c1 = Some (rs, c2)"
    and "now - t \<le> ttl (cache_config c) * ns_per_s"
  shows "\<exists>c3. LruCache_get now k c2 = Some (Some v, c3)"
proof -
  define T where "T = \<Union> (used_keys ` set ops) - {k}"
  have fin: "finite T" unfolding T_def by (intro finite_Diff finite_UN_I finite_set) (rule used_keys_finite)
  from put_simulates [OF assms(1), of node_ok entry_ok t k v] assms(3)
  have c1: "lru_inv c1" "cache_config c1 = cache_config c"
    and put: "spec_put (cache_config c) (node_ok \<and> entry_ok) t k v (contents c) = (True, contents c1)"
    by auto
  have "retained T k v t (contents c1)"
    using put
  proof (cases rule: spec_put_cases)
    case stored
    obtain n where n: "unat (max_entries (cache_config c)) = Suc n"
      using assms(5) by (metis less_nat_zero_code not0_implies_Suc)
    have "distinct (map fst (drop_key k (contents c)))"
      using lru_invD(1) [OF assms(1)] by (intro distinct_drop_key) (simp add: contents_def linked_def)
    then have "distinct (map fst (take n (drop_key k (contents c))))" by (simp add: take_map [symmetric])
    moreover have "k \<notin> fst ` set (take n (drop_key k (contents c)))"
      using keys_drop_key [of k "contents c"] by (auto dest: in_set_takeD)
    ultimately show ?thesis
      unfolding stored(2) n retained_def by (intro conjI exI [of _ "[]"] exI [of _ "take n (drop_key k (contents c))"]) auto
  qed (use assms(2) in simp_all)
  moreover from lru.run_simulates [of c1 "cache_config c" ops] c1 assms(6)
  have c2: "lru_inv c2" "cache_config c2 = cache_config c"
    and run: "run_spec (spec_step (cache_config c)) ops (contents c1) = (rs, contents c2)"
    by auto
  ultimately have "retained T k v t (contents c2)"
    using assms(4,5) fin by (intro retained_run [OF _ fin _ _ _ run]) (simp_all add: T_def)
  from retained_lookup [OF this] get_simulates [OF c2(1), of now k] c2(2) assms(7) show ?thesis
    by (auto simp: spec_get_def)
qed

theorem lru_retention_witness:
  "\<exists>c3. LruCache_get 8 ''a'' (demo_cache\<lparr>order := [(1, ''b''), (0, ''a'')]\<rparr>) = Some (Some (3::int), c3)"
proof (rule lru_retention [where ops = "[Get 8 ''b'']" and t = 7 and node_ok = True and entry_ok = True])
  let ?c = "demo_cache\<lparr>order := [(1, ''b''), (0, ''a'')]\<rparr>"
  show "lru_inv ?c" by code_simp
  show "\<not> disabled (cache_config ?c)" by code_simp
  show "LruCache_put True True 7 ''a'' 3 ?c = Some (True, demo_cache)" by code_simp
  show "list_all (spares (cache_config ?c) ''a'' 7) [Get 8 ''b'' :: (string, int) cache_op]" by simp
  show "card (\<Union> (used_keys ` set [Get 8 ''b'' :: (string, int) cache_op]) - {''a''})
      < unat (max_entries (cache_config ?c))"
    by (simp add: demo_cache_def default_LruCacheConfig_def)
  show "run_steps cache_step [Get 8 ''b''] demo_cache = Some ([Found (Some 2)], ?c)" by code_simp
  show "8 - 7 \<le> ttl (cache_config ?c) * ns_per_s"
    by (simp add: demo_cache_def default_LruCacheConfig_def)
qed

text \<open>
  Strong exception guarantee: a \<open>put\<close> that throws leaves the list, the map and the configuration
  as they were, so that the list never holds a key the map does not.
\<close>

theorem lru_put_exception_safe:
  assumes "LruCache_put node_ok entry_ok now k v c = Some (False, c')"
  shows "order c' = order c \<and> entries c' = entries c \<and> cache_config c' = cache_config c \<and>
         map_of (entries c) k = None \<and> \<not> (node_ok \<and> entry_ok)"
  using assms by (auto simp: LruCache_put_def Let_def split: if_splits option.splits)

theorem lru_put_exception_safe_witness:
  "order demo_cache = [(0, ''a''), (1, ''b'')] \<and> map_of (entries demo_cache) ''c'' = None"
  using lru_put_exception_safe [of True False 9 "''c''" 4 demo_cache "demo_cache\<lparr>next_node := 3\<rparr>"]
  by (simp add: demo_cache_def LruCache_put_def default_LruCacheConfig_def)

text \<open>
  C38: the equality of coordinate keys is an equivalence (any NaN equals any other, unlike for
  doubles), and equal keys, NaNs of different sign and payload included, have equal hashes for every \<open>std::hash<double>\<close> that hashes the two zeros alike, as the
  standard demands of equal doubles: the keys are fit for an unordered map.
\<close>

theorem coordinate_key_lawful:
  assumes "key_wf a" and "key_wf b" and "key_wf c"
    and hash: "hash_double (Fin True 0) = hash_double (Fin False 0)"
  shows "CoordinateKey_eq a a \<and>
         (CoordinateKey_eq a b \<longrightarrow> CoordinateKey_eq b a) \<and>
         (CoordinateKey_eq a b \<and> CoordinateKey_eq b c \<longrightarrow> CoordinateKey_eq a c) \<and>
         (CoordinateKey_eq a b \<longrightarrow> CoordinateKey_hash hash_double a = CoordinateKey_hash hash_double b)"
proof -
  have wf: "CoordinateKey_eq x y \<longleftrightarrow> canonical_key x = canonical_key y"
    if "x \<in> {a, b, c}" "y \<in> {a, b, c}" for x y
    using that assms(1-3) by (intro CoordinateKey_eq_canonical) blast+
  have "CoordinateKey_hash hash_double (canonical_key x) = CoordinateKey_hash hash_double x" for x
    unfolding CoordinateKey_hash_def canonical_key_def CoordinateKey.simps hash_canonical [OF hash] ..
  then show ?thesis using wf by (metis insertI1 insertI2)
qed

theorem coordinate_key_lawful_witness:
  "CoordinateKey_eq \<lparr>key_latitude = NaN True 1, key_longitude = Fin True 0\<rparr>
                    \<lparr>key_latitude = NaN False 2, key_longitude = Fin False 0\<rparr> \<and>
   CoordinateKey_hash (\<lambda>d. case d of NaN s p \<Rightarrow> ucast p | Inf s \<Rightarrow> 1 | Fin s m \<Rightarrow> if m = 0 then 0 else 1)
     \<lparr>key_latitude = NaN True 1, key_longitude = Fin True 0\<rparr> =
   CoordinateKey_hash (\<lambda>d. case d of NaN s p \<Rightarrow> ucast p | Inf s \<Rightarrow> 1 | Fin s m \<Rightarrow> if m = 0 then 0 else 1)
     \<lparr>key_latitude = NaN False 2, key_longitude = Fin False 0\<rparr>"
proof -
  let ?a = "\<lparr>key_latitude = NaN True 1, key_longitude = Fin True 0\<rparr>"
    and ?b = "\<lparr>key_latitude = NaN False 2, key_longitude = Fin False 0\<rparr>"
  have "CoordinateKey_eq ?a ?b" by (simp add: CoordinateKey_eq_def same_coordinate_def deq_def)
  then show ?thesis
    using coordinate_key_lawful [of ?a ?b ?a "\<lambda>d. case d of NaN s p \<Rightarrow> ucast p | Inf s \<Rightarrow> 1 | Fin s m \<Rightarrow> if m = 0 then 0 else 1"]
    by (simp add: key_wf_def)
qed

end
