(* ===== verification/Url_Encode.thy ===== *)
theory Url_Encode
  imports Nws_Prelude
begin

text \<open>
  Percent encoding of query and path components (\<open>include/nws/detail/url_encode.hpp\<close>), the
  interface a query builder needs of an encoder, and its discharge for \<open>encode_query_value\<close>.
\<close>

section \<open>The encoder\<close>

definition unreserved :: "nat \<Rightarrow> bool" where
  "unreserved byte \<longleftrightarrow>
     (97 \<le> byte \<and> byte \<le> 122) \<or> (65 \<le> byte \<and> byte \<le> 90) \<or> (48 \<le> byte \<and> byte \<le> 57) \<or>
     byte = 45 \<or> byte = 46 \<or> byte = 95 \<or> byte = 126"

definition hex :: string where
  "hex = ''0123456789ABCDEF''"

fun encode_query_value :: "string \<Rightarrow> string" where
  "encode_query_value [] = []"
| "encode_query_value (c # cs) =
     (let byte = (of_char c :: nat)
      in if unreserved byte then c # encode_query_value cs
         else CHR ''%'' # hex ! (byte div 16) # hex ! (byte mod 16) # encode_query_value cs)"


section \<open>Decoding\<close>

text \<open>What a server does with a component (RFC 3986, section 2.1): the reference for the encoder.\<close>

definition hex_val :: "char \<Rightarrow> nat option" where
  "hex_val c = (let n = of_char c
                in if 48 \<le> n \<and> n \<le> 57 then Some (n - 48)
                   else if 65 \<le> n \<and> n \<le> 70 then Some (n - 55)
                   else if 97 \<le> n \<and> n \<le> 102 then Some (n - 87) else None)"

fun percent_decode :: "string \<Rightarrow> string option" where
  "percent_decode [] = Some []"
| "percent_decode (c # cs) =
     (if c = CHR ''%''
      then (case cs of
              a # b # rest \<Rightarrow>
                (case (hex_val a, hex_val b) of
                   (Some x, Some y) \<Rightarrow>
                     map_option (Cons (char_of (16 * x + y))) (percent_decode rest)
                 | _ \<Rightarrow> None)
            | _ \<Rightarrow> None)
      else map_option (Cons c) (percent_decode cs))"

lemma of_char_less_256: "(of_char c :: nat) < 256"
  using nat_of_char_less_256 [of c] by simp

lemma hex_val_hex: "i < 16 \<Longrightarrow> hex_val (hex ! i) = Some i"
proof -
  have "\<forall>i\<in>set [0..<16]. hex_val (hex ! i) = Some i" by code_simp
  then show "i < 16 \<Longrightarrow> hex_val (hex ! i) = Some i" by simp
qed

lemma hex_unreserved: "i < 16 \<Longrightarrow> unreserved (of_char (hex ! i))"
proof -
  have "\<forall>i\<in>set [0..<16]. unreserved (of_char (hex ! i))" by code_simp
  then show "i < 16 \<Longrightarrow> unreserved (of_char (hex ! i))" by simp
qed

lemma percent_not_unreserved: "\<not> unreserved (of_char CHR ''%'')"
  by code_simp

definition url_safe :: "char \<Rightarrow> bool" where
  "url_safe c \<longleftrightarrow> unreserved (of_char c) \<or> c = CHR ''%''"

lemma percent_decode_encode: "percent_decode (encode_query_value s) = Some s"
proof (induction s)
  case (Cons c cs)
  show ?case
  proof (cases "unreserved (of_char c)")
    case True
    then have "c \<noteq> CHR ''%''" using percent_not_unreserved by metis
    with True Cons show ?thesis by simp
  next
    case False
    have "(of_char c :: nat) div 16 < 16" using of_char_less_256 [of c] by linarith
    with False Cons show ?thesis by (simp add: Let_def hex_val_hex)
  qed
qed simp

lemma encode_url_safe: "c \<in> set (encode_query_value s) \<Longrightarrow> url_safe c"
proof (induction s)
  case (Cons d ds)
  have "(of_char d :: nat) div 16 < 16" using of_char_less_256 [of d] by linarith
  with Cons show ?case
    by (auto simp: Let_def url_safe_def hex_unreserved split: if_splits)
qed simp

lemma encode_unreserved: "(\<And>c. c \<in> set s \<Longrightarrow> unreserved (of_char c)) \<Longrightarrow> encode_query_value s = s"
  by (induction s) auto

lemma digit_unreserved: "d < 10 \<Longrightarrow> unreserved (of_char (digit_char d))"
  by (simp add: digit_char_def unreserved_def)

lemma minus_unreserved: "unreserved (of_char CHR ''-'')"
  by code_simp

lemma int_to_string_unreserved:
  assumes "c \<in> set (int_to_string i)"
  shows "unreserved (of_char c)"
proof -
  consider "c = CHR ''-''" | n where "c \<in> set (nat_to_string n)"
    using assms by (auto simp: int_to_string_def split: if_splits)
  then show "unreserved (of_char c)"
  proof cases
    case 1
    then show ?thesis using minus_unreserved by (simp only:)
  next
    case 2
    then show ?thesis using nat_to_string_digits digit_unreserved by blast
  qed
qed

text \<open>Decimal integers pass through the encoder unchanged.\<close>

lemma encode_int_to_string: "encode_query_value (int_to_string i) = int_to_string i"
  using int_to_string_unreserved by (rule encode_unreserved)

section \<open>Query strings\<close>

text \<open>
  A query is a list of fields, each a key with one or more values. \<open>render_fields\<close> is the wire
  format the SDK's builders produce: a leading question mark, fields separated by ampersands, key
  and value by an equals sign, several values by commas, every value encoded. \<open>parse_fields\<close> is the
  receiving side.
\<close>

type_synonym query_field = "string \<times> string list"

definition render_field :: "(string \<Rightarrow> string) \<Rightarrow> query_field \<Rightarrow> string" where
  "render_field enc f = fst f @ CHR ''='' # join_with CHR '','' (map enc (snd f))"

definition render_fields :: "(string \<Rightarrow> string) \<Rightarrow> query_field list \<Rightarrow> string" where
  "render_fields enc fs =
     (if fs = [] then [] else CHR ''?'' # join_with CHR ''&'' (map (render_field enc) fs))"

fun decode_all :: "(string \<Rightarrow> string option) \<Rightarrow> string list \<Rightarrow> string list option" where
  "decode_all dec [] = Some []"
| "decode_all dec (x # xs) =
     (case (dec x, decode_all dec xs) of (Some y, Some ys) \<Rightarrow> Some (y # ys) | _ \<Rightarrow> None)"

definition parse_field :: "(string \<Rightarrow> string option) \<Rightarrow> string \<Rightarrow> query_field option" where
  "parse_field dec s =
     (case split_on CHR ''='' s of
        [k, v] \<Rightarrow> map_option (Pair k) (decode_all dec (split_on CHR '','' v))
      | _ \<Rightarrow> None)"

fun parse_all :: "(string \<Rightarrow> string option) \<Rightarrow> string list \<Rightarrow> query_field list option" where
  "parse_all dec [] = Some []"
| "parse_all dec (x # xs) =
     (case (parse_field dec x, parse_all dec xs) of
        (Some y, Some ys) \<Rightarrow> Some (y # ys) | _ \<Rightarrow> None)"

definition parse_fields :: "(string \<Rightarrow> string option) \<Rightarrow> string \<Rightarrow> query_field list option" where
  "parse_fields dec s =
     (case s of [] \<Rightarrow> Some []
      | c # cs \<Rightarrow> if c = CHR ''?'' then parse_all dec (split_on CHR ''&'' cs) else None)"

text \<open>Keys carry no separator and every field has a value.\<close>

definition plain_field :: "query_field \<Rightarrow> bool" where
  "plain_field f \<longleftrightarrow> CHR ''='' \<notin> set (fst f) \<and> CHR ''&'' \<notin> set (fst f) \<and> snd f \<noteq> []"

text \<open>
  The interface between the builders and the encoder: an inverse exists, and the output stays in an
  alphabet that excludes the separators.
\<close>

locale component_codec =
  fixes enc :: "string \<Rightarrow> string" and dec :: "string \<Rightarrow> string option" and safe :: "char \<Rightarrow> bool"
  assumes dec_enc: "dec (enc s) = Some s"
    and enc_safe: "c \<in> set (enc s) \<Longrightarrow> safe c"
    and separators: "\<not> safe CHR ''&''" "\<not> safe CHR ''=''" "\<not> safe CHR '',''"
begin

lemma enc_no_separator: "CHR ''&'' \<notin> set (enc s)" "CHR ''='' \<notin> set (enc s)" "CHR '','' \<notin> set (enc s)"
  using enc_safe [of _ s] separators by blast+

lemma enc_inj: "enc s = enc t \<Longrightarrow> s = t"
  by (metis dec_enc option.inject)

lemma decode_all_map: "decode_all dec (map enc vs) = Some vs"
  by (induction vs) (simp_all add: dec_enc)

lemma values_no_separator:
  "CHR ''&'' \<notin> set (join_with CHR '','' (map enc vs))"
  "CHR ''='' \<notin> set (join_with CHR '','' (map enc vs))"
proof -
  have "c = CHR '','' \<or> (\<exists>v. c \<in> set (enc v))" if "c \<in> set (join_with CHR '','' (map enc vs))" for c
    using that set_join_with [of "CHR '',''" "map enc vs"] by auto
  note this [of "CHR ''&''"] this [of "CHR ''=''"]
  then show "CHR ''&'' \<notin> set (join_with CHR '','' (map enc vs))"
    "CHR ''='' \<notin> set (join_with CHR '','' (map enc vs))"
    by (auto simp: enc_no_separator)
qed

lemma parse_render_field:
  assumes "plain_field f"
  shows "parse_field dec (render_field enc f) = Some f"
proof -
  have "split_on CHR ''='' (render_field enc f) =
          [fst f, join_with CHR '','' (map enc (snd f))]"
    using assms values_no_separator
    by (simp add: render_field_def plain_field_def split_on_append split_on_none)
  moreover have "split_on CHR '','' (join_with CHR '','' (map enc (snd f))) = map enc (snd f)"
    using assms enc_no_separator by (intro split_on_join_with) (auto simp: plain_field_def)
  ultimately show ?thesis by (simp add: parse_field_def decode_all_map)
qed

lemma parse_all_render: "list_all plain_field fs \<Longrightarrow>
    parse_all dec (map (render_field enc) fs) = Some fs"
  by (induction fs) (simp_all add: parse_render_field)

lemma parse_render_fields:
  assumes "list_all plain_field fs"
  shows "parse_fields dec (render_fields enc fs) = Some fs"
proof (cases fs)
  case (Cons f fs')
  have "\<forall>x\<in>set (map (render_field enc) fs). CHR ''&'' \<notin> set x"
    using assms values_no_separator by (auto simp: render_field_def plain_field_def list_all_iff)
  then have "split_on CHR ''&'' (join_with CHR ''&'' (map (render_field enc) fs)) =
      map (render_field enc) fs"
    using Cons by (intro split_on_join_with) auto
  then show ?thesis
    using Cons parse_all_render [OF assms] by (simp add: parse_fields_def render_fields_def)
qed (simp add: parse_fields_def render_fields_def)

end

interpretation url_codec: component_codec encode_query_value percent_decode url_safe
proof unfold_locales
  show "percent_decode (encode_query_value s) = Some s" for s
    by (rule percent_decode_encode)
  show "url_safe c" if "c \<in> set (encode_query_value s)" for c s
    using that by (rule encode_url_safe)
qed (simp_all add: url_safe_def, code_simp+)

end
