(* ===== verification/Units.thy ===== *)
theory Units
  imports Binary64
begin

text \<open>
  Units and measurements (\<open>include/nws/units.hpp\<close>, \<open>src/core/units.cpp\<close>): the unit codes of the
  wire format, the conversions in double arithmetic as the code writes them, and the measured values
  the models carry.
\<close>

section \<open>Units\<close>

datatype Unit =
    DegC
  | DegF
  | Kelvin
  | Km_h
  | M_s
  | Knot
  | Mi_h
  | Meter
  | Kilometer
  | Mile
  | Pascal
  | Millibar
  | Millimeter
  | Inch
  | Centimeter
  | DegreeAngle
  | Percent
  | Unknown

fun to_string_Unit :: "Unit \<Rightarrow> string" where
  "to_string_Unit Unit.DegC = ''C''"
| "to_string_Unit Unit.DegF = ''F''"
| "to_string_Unit Unit.Kelvin = ''K''"
| "to_string_Unit Unit.Km_h = ''km/h''"
| "to_string_Unit Unit.M_s = ''m/s''"
| "to_string_Unit Unit.Knot = ''kt''"
| "to_string_Unit Unit.Mi_h = ''mph''"
| "to_string_Unit Unit.Meter = ''m''"
| "to_string_Unit Unit.Kilometer = ''km''"
| "to_string_Unit Unit.Mile = ''mi''"
| "to_string_Unit Unit.Pascal = ''Pa''"
| "to_string_Unit Unit.Millibar = ''mbar''"
| "to_string_Unit Unit.Millimeter = ''mm''"
| "to_string_Unit Unit.Inch = ''in''"
| "to_string_Unit Unit.Centimeter = ''cm''"
| "to_string_Unit Unit.DegreeAngle = ''deg''"
| "to_string_Unit Unit.Percent = ''%''"
| "to_string_Unit Unit.Unknown = ''?''"

definition unit_map :: "(string \<times> Unit) list" where
  "unit_map =
    [(''wmoUnit:degC'', Unit.DegC),
     (''wmoUnit:degF'', Unit.DegF),
     (''wmoUnit:K'', Unit.Kelvin),
     (''wmoUnit:km_h-1'', Unit.Km_h),
     (''wmoUnit:m_s-1'', Unit.M_s),
     (''wmoUnit:kt'', Unit.Knot),
     (''wmoUnit:mi_h-1'', Unit.Mi_h),
     (''wmoUnit:m'', Unit.Meter),
     (''wmoUnit:km'', Unit.Kilometer),
     (''unit:mi'', Unit.Mile),
     (''wmoUnit:Pa'', Unit.Pascal),
     (''wmoUnit:mbar'', Unit.Millibar),
     (''wmoUnit:hPa'', Unit.Millibar),
     (''wmoUnit:mm'', Unit.Millimeter),
     (''unit:in'', Unit.Inch),
     (''wmoUnit:cm'', Unit.Centimeter),
     (''wmoUnit:degree_(angle)'', Unit.DegreeAngle),
     (''wmoUnit:percent'', Unit.Percent)]"

definition parse_unit_code :: "string \<Rightarrow> Unit" where
  "parse_unit_code unit_code = (case map_of unit_map unit_code of Some u \<Rightarrow> u | None \<Rightarrow> Unit.Unknown)"

section \<open>Conversions\<close>

definition celsius_to_fahrenheit :: "double \<Rightarrow> double" where
  "celsius_to_fahrenheit v = dadd (ddiv (dmul v (dlit 9)) (dlit 5)) (dlit 32)"

definition fahrenheit_to_celsius :: "double \<Rightarrow> double" where
  "fahrenheit_to_celsius v = ddiv (dmul (dsub v (dlit 32)) (dlit 5)) (dlit 9)"

definition kmh_to_mph :: "double \<Rightarrow> double" where
  "kmh_to_mph v = dmul v (dlit (621371 / 1000000))"

definition mph_to_kmh :: "double \<Rightarrow> double" where
  "mph_to_kmh v = ddiv v (dlit (621371 / 1000000))"

definition ms_to_mph :: "double \<Rightarrow> double" where
  "ms_to_mph v = dmul v (dlit (223694 / 100000))"

definition mph_to_ms :: "double \<Rightarrow> double" where
  "mph_to_ms v = ddiv v (dlit (223694 / 100000))"

definition ms_to_kmh :: "double \<Rightarrow> double" where
  "ms_to_kmh v = dmul v (dlit (36 / 10))"

definition knots_to_mph :: "double \<Rightarrow> double" where
  "knots_to_mph v = dmul v (dlit (115078 / 100000))"

definition mph_to_knots :: "double \<Rightarrow> double" where
  "mph_to_knots v = ddiv v (dlit (115078 / 100000))"

definition pascal_to_millibar :: "double \<Rightarrow> double" where
  "pascal_to_millibar v = ddiv v (dlit 100)"

definition millibar_to_pascal :: "double \<Rightarrow> double" where
  "millibar_to_pascal v = dmul v (dlit 100)"

definition mm_to_inches :: "double \<Rightarrow> double" where
  "mm_to_inches v = ddiv v (dlit (254 / 10))"

definition inches_to_mm :: "double \<Rightarrow> double" where
  "inches_to_mm v = dmul v (dlit (254 / 10))"

definition meters_to_miles :: "double \<Rightarrow> double" where
  "meters_to_miles v = ddiv v (dlit (1609344 / 1000))"

definition km_to_miles :: "double \<Rightarrow> double" where
  "km_to_miles v = dmul v (dlit (621371 / 1000000))"

definition convert :: "double \<Rightarrow> Unit \<Rightarrow> Unit \<Rightarrow> double option" where
  "convert v from_unit to_unit =
    (if from_unit = to_unit then Some v
     else if from_unit = Unit.DegC \<and> to_unit = Unit.DegF then Some (celsius_to_fahrenheit v)
     else if from_unit = Unit.DegF \<and> to_unit = Unit.DegC then Some (fahrenheit_to_celsius v)
     else if from_unit = Unit.Kelvin \<and> to_unit = Unit.DegC then Some (dsub v (dlit (27315 / 100)))
     else if from_unit = Unit.DegC \<and> to_unit = Unit.Kelvin then Some (dadd v (dlit (27315 / 100)))
     else if from_unit = Unit.Kelvin \<and> to_unit = Unit.DegF then Some (celsius_to_fahrenheit (dsub v (dlit (27315 / 100))))
     else if from_unit = Unit.DegF \<and> to_unit = Unit.Kelvin then Some (dadd (fahrenheit_to_celsius v) (dlit (27315 / 100)))
     else if from_unit = Unit.Km_h \<and> to_unit = Unit.Mi_h then Some (kmh_to_mph v)
     else if from_unit = Unit.Mi_h \<and> to_unit = Unit.Km_h then Some (mph_to_kmh v)
     else if from_unit = Unit.M_s \<and> to_unit = Unit.Mi_h then Some (ms_to_mph v)
     else if from_unit = Unit.Mi_h \<and> to_unit = Unit.M_s then Some (mph_to_ms v)
     else if from_unit = Unit.M_s \<and> to_unit = Unit.Km_h then Some (ms_to_kmh v)
     else if from_unit = Unit.Km_h \<and> to_unit = Unit.M_s then Some (ddiv v (dlit (36 / 10)))
     else if from_unit = Unit.Knot \<and> to_unit = Unit.Mi_h then Some (knots_to_mph v)
     else if from_unit = Unit.Mi_h \<and> to_unit = Unit.Knot then Some (mph_to_knots v)
     else if from_unit = Unit.Knot \<and> to_unit = Unit.Km_h then Some (dmul v (dlit (1852 / 1000)))
     else if from_unit = Unit.Km_h \<and> to_unit = Unit.Knot then Some (ddiv v (dlit (1852 / 1000)))
     else if from_unit = Unit.Knot \<and> to_unit = Unit.M_s then Some (dmul v (dlit (514444 / 1000000)))
     else if from_unit = Unit.M_s \<and> to_unit = Unit.Knot then Some (ddiv v (dlit (514444 / 1000000)))
     else if from_unit = Unit.Pascal \<and> to_unit = Unit.Millibar then Some (pascal_to_millibar v)
     else if from_unit = Unit.Millibar \<and> to_unit = Unit.Pascal then Some (millibar_to_pascal v)
     else if from_unit = Unit.Millimeter \<and> to_unit = Unit.Inch then Some (mm_to_inches v)
     else if from_unit = Unit.Inch \<and> to_unit = Unit.Millimeter then Some (inches_to_mm v)
     else if from_unit = Unit.Meter \<and> to_unit = Unit.Mile then Some (meters_to_miles v)
     else if from_unit = Unit.Mile \<and> to_unit = Unit.Meter then Some (dmul v (dlit (1609344 / 1000)))
     else if from_unit = Unit.Kilometer \<and> to_unit = Unit.Mile then Some (km_to_miles v)
     else if from_unit = Unit.Mile \<and> to_unit = Unit.Kilometer then Some (ddiv v (dlit (621371 / 1000000)))
     else if from_unit = Unit.Meter \<and> to_unit = Unit.Kilometer then Some (ddiv v (dlit 1000))
     else if from_unit = Unit.Kilometer \<and> to_unit = Unit.Meter then Some (dmul v (dlit 1000))
     else if from_unit = Unit.Centimeter \<and> to_unit = Unit.Inch then Some (ddiv v (dlit (254 / 100)))
     else if from_unit = Unit.Inch \<and> to_unit = Unit.Centimeter then Some (dmul v (dlit (254 / 100)))
     else if from_unit = Unit.Centimeter \<and> to_unit = Unit.Millimeter then Some (dmul v (dlit 10))
     else if from_unit = Unit.Millimeter \<and> to_unit = Unit.Centimeter then Some (ddiv v (dlit 10))
     else None)"

section \<open>Measured values\<close>

record Measurement =
  measured :: "double option"
  measured_unit :: Unit

definition Measurement_to :: "Measurement \<Rightarrow> Unit \<Rightarrow> Measurement" where
  "Measurement_to m target =
    (case measured m of
       None \<Rightarrow> \<lparr>measured = None, measured_unit = target\<rparr>
     | Some v \<Rightarrow>
         (case convert v (measured_unit m) target of
            Some r \<Rightarrow> \<lparr>measured = Some r, measured_unit = target\<rparr>
          | None \<Rightarrow> \<lparr>measured = None, measured_unit = target\<rparr>))"

record QuantitativeValue =
  quantity_value :: "double option"
  unit_code :: string
  unit :: Unit
  max_value :: "double option"
  min_value :: "double option"
  quality_control :: "string option"

definition default_QuantitativeValue :: QuantitativeValue where
  "default_QuantitativeValue =
     \<lparr>quantity_value = None, unit_code = [], unit = Unit.Unknown, max_value = None, min_value = None,
      quality_control = None\<rparr>"

definition as_measurement :: "QuantitativeValue \<Rightarrow> Measurement" where
  "as_measurement q = \<lparr>measured = quantity_value q, measured_unit = unit q\<rparr>"

definition converted_to :: "QuantitativeValue \<Rightarrow> Unit \<Rightarrow> QuantitativeValue" where
  "converted_to q target =
     q\<lparr>unit := target,
       quantity_value := (case quantity_value q of Some v \<Rightarrow> convert v (unit q) target | None \<Rightarrow> None),
       min_value := (case min_value q of Some v \<Rightarrow> convert v (unit q) target | None \<Rightarrow> None),
       max_value := (case max_value q of Some v \<Rightarrow> convert v (unit q) target | None \<Rightarrow> None)\<rparr>"

section \<open>Monotone arithmetic\<close>

text \<open>Rounding a signed magnitude is monotone in the value it stands for.\<close>

lemma round64_mono:
  assumes "0 \<le> m" and "0 \<le> n" and "dval (Fin s m) \<le> dval (Fin t n)"
  shows "dle (round64 s m) (round64 t n)"
proof -
  consider "\<not> s" "\<not> t" "m \<le> n" | "s" "t" "n \<le> m" | "s" "\<not> t" | "\<not> s" "t" "m = 0" "n = 0"
    using assms by (cases s; cases t) auto
  then show ?thesis
  proof cases
    case 1
    then show ?thesis using round_mag_mono [of m n] by (auto simp: round64_def Let_def dle_iff)
  next
    case 2
    then show ?thesis using round_mag_mono [of n m] by (auto simp: round64_def Let_def dle_iff)
  next
    case 3
    then show ?thesis
      using round_mag_nonneg [of m] round_mag_nonneg [of n]
      by (auto simp: round64_def Let_def dle_iff not_less intro: order_trans [of _ 0])
  next
    case 4
    then show ?thesis by (simp add: round64_def)
  qed
qed

lemma round_signed_mono:
  assumes "x \<le> y"
  shows "dle (round_signed z x) (round_signed z' y)"
proof -
  have zero: "round64 s 0 = Fin s 0" for s by (simp add: round64_def)
  have "dle (round64 (if x = 0 then z else x < 0) \<bar>x\<bar>) (round64 (if y = 0 then z' else y < 0) \<bar>y\<bar>)"
    using assms by (intro round64_mono) auto
  then show ?thesis by (cases "x = 0"; cases "y = 0") (simp_all add: round_signed_def zero)
qed

lemma dlit_pos:
  assumes "0 < x" and "x \<le> 2 ^ 63" and "1 \<le> x * 2 ^ 10"
  shows "\<exists>c. dlit x = Fin False c \<and> 0 < c"
proof -
  have "round_mag x \<le> round_mag (2 powi 63)" using assms(2) by (intro round_mag_mono) simp
  then have "round_mag x \<le> 2 ^ 63" by (simp only: round_mag_pow2) simp
  moreover have "round_mag (2 powi (- 10)) \<le> round_mag x"
    using assms(3) by (intro round_mag_mono) (simp add: power_int_minus field_simps)
  then have "0 < round_mag x" using round_mag_pow2 [of "- 10"] powi2_pos [of "- 10"] by linarith
  ultimately show ?thesis
    using assms(1) small_no_overflow [of "round_mag x"] by (simp add: dlit_def round64_def)
qed

lemma dval_mult: "dval (Fin s (m * c)) = dval (Fin s m) * c"
  by simp

lemma dmul_mono:
  assumes "dle x y" and "dwf x" and "dwf y" and "0 < c"
  shows "dle (dmul x (Fin False c)) (dmul y (Fin False c))"
proof (cases x; cases y)
  fix s m t n assume xy: "x = Fin s m" "y = Fin t n"
  have "dle (round64 s (m * c)) (round64 t (n * c))"
  proof (rule round64_mono)
    show "dval (Fin s (m * c)) \<le> dval (Fin t (n * c))"
      unfolding dval_mult using assms(1,4) xy by (intro mult_right_mono) (simp_all del: dval.simps)
  qed (use assms xy in simp_all)
  then show ?thesis using xy by simp
qed (use assms in \<open>simp_all add: dle_iff round64_def Let_def\<close>)

lemma ddiv_mono:
  assumes "dle x y" and "dwf x" and "dwf y" and "0 < c"
  shows "dle (ddiv x (Fin False c)) (ddiv y (Fin False c))"
proof (cases x; cases y)
  fix s m t n assume xy: "x = Fin s m" "y = Fin t n"
  have "dle (round64 s (m * inverse c)) (round64 t (n * inverse c))"
  proof (rule round64_mono)
    show "dval (Fin s (m * inverse c)) \<le> dval (Fin t (n * inverse c))"
      unfolding dval_mult using assms(1,4) xy by (intro mult_right_mono) (simp_all del: dval.simps)
  qed (use assms xy in simp_all)
  then show ?thesis using xy assms(4) by (simp add: divide_inverse)
qed (use assms in \<open>simp_all add: dle_iff round64_def Let_def\<close>)

lemma dadd_mono:
  assumes "dle x y"
  shows "dle (dadd x (Fin s c)) (dadd y (Fin s c))"
proof (cases x; cases y)
  fix s1 m t n assume xy: "x = Fin s1 m" "y = Fin t n"
  then have "dval x + dval (Fin s c) \<le> dval y + dval (Fin s c)" using assms by simp
  then show ?thesis using xy round_signed_mono by (simp del: dval.simps)
qed (use assms in \<open>simp_all add: dle_iff round_signed_def round64_def Let_def\<close>)

text \<open>Conversions that keep the order of well-formed doubles, and how they compose.\<close>

definition monotone_conversion :: "(double \<Rightarrow> double) \<Rightarrow> bool" where
  "monotone_conversion f \<longleftrightarrow>
     (\<forall>x. dwf x \<longrightarrow> dwf (f x)) \<and> (\<forall>x y. dle x y \<longrightarrow> dwf x \<longrightarrow> dwf y \<longrightarrow> dle (f x) (f y))"

lemma monotone_id: "monotone_conversion (\<lambda>v. v)"
  by (simp add: monotone_conversion_def)

lemma monotone_comp:
  "monotone_conversion f \<Longrightarrow> monotone_conversion g \<Longrightarrow> monotone_conversion (\<lambda>v. f (g v))"
  by (simp add: monotone_conversion_def)

lemma monotone_scale:
  assumes "0 < x" and "x \<le> 2 ^ 63" and "1 \<le> x * 2 ^ 10"
  shows "monotone_conversion (\<lambda>v. dmul v (dlit x))" and "monotone_conversion (\<lambda>v. ddiv v (dlit x))"
  using dlit_pos [OF assms] by (auto simp: monotone_conversion_def dmul_mono ddiv_mono)

lemma monotone_shift:
  assumes "0 < x" and "x \<le> 2 ^ 63" and "1 \<le> x * 2 ^ 10"
  shows "monotone_conversion (\<lambda>v. dadd v (dlit x))" and "monotone_conversion (\<lambda>v. dsub v (dlit x))"
  using dlit_pos [OF assms] by (auto simp: monotone_conversion_def dadd_mono dsub_def)

lemma monotone_temperature:
  "monotone_conversion celsius_to_fahrenheit" "monotone_conversion fahrenheit_to_celsius"
proof -
  have "monotone_conversion (\<lambda>v. dadd (ddiv (dmul v (dlit 9)) (dlit 5)) (dlit 32))"
    by (intro monotone_comp [OF monotone_shift(1)] monotone_comp [OF monotone_scale(2)] monotone_scale(1)) simp_all
  then show "monotone_conversion celsius_to_fahrenheit" by (simp add: celsius_to_fahrenheit_def [abs_def])
  have "monotone_conversion (\<lambda>v. ddiv (dmul (dsub v (dlit 32)) (dlit 5)) (dlit 9))"
    by (intro monotone_comp [OF monotone_scale(2)] monotone_comp [OF monotone_scale(1)] monotone_shift(2)) simp_all
  then show "monotone_conversion fahrenheit_to_celsius" by (simp add: fahrenheit_to_celsius_def [abs_def])
qed

lemma monotone_speed:
  "monotone_conversion kmh_to_mph" "monotone_conversion mph_to_kmh" "monotone_conversion ms_to_mph"
  "monotone_conversion mph_to_ms" "monotone_conversion ms_to_kmh" "monotone_conversion knots_to_mph"
  "monotone_conversion mph_to_knots"
  unfolding kmh_to_mph_def [abs_def] mph_to_kmh_def [abs_def] ms_to_mph_def [abs_def] mph_to_ms_def [abs_def]
    ms_to_kmh_def [abs_def] knots_to_mph_def [abs_def] mph_to_knots_def [abs_def]
  by (rule monotone_scale; simp)+

lemma monotone_length:
  "monotone_conversion pascal_to_millibar" "monotone_conversion millibar_to_pascal"
  "monotone_conversion mm_to_inches" "monotone_conversion inches_to_mm"
  "monotone_conversion meters_to_miles" "monotone_conversion km_to_miles"
  unfolding pascal_to_millibar_def [abs_def] millibar_to_pascal_def [abs_def] mm_to_inches_def [abs_def]
    inches_to_mm_def [abs_def] meters_to_miles_def [abs_def] km_to_miles_def [abs_def]
  by (rule monotone_scale; simp)+

text \<open>The inline factors of \<open>convert\<close>, as reduced fractions.\<close>

lemma monotone_inline:
  "monotone_conversion (\<lambda>v. dsub v (dlit (5463 / 20)))" "monotone_conversion (\<lambda>v. dadd v (dlit (5463 / 20)))"
  "monotone_conversion (\<lambda>v. ddiv v (dlit (18 / 5)))" "monotone_conversion (\<lambda>v. dmul v (dlit (463 / 250)))"
  "monotone_conversion (\<lambda>v. ddiv v (dlit (463 / 250)))" "monotone_conversion (\<lambda>v. dmul v (dlit (128611 / 250000)))"
  "monotone_conversion (\<lambda>v. ddiv v (dlit (128611 / 250000)))" "monotone_conversion (\<lambda>v. dmul v (dlit (201168 / 125)))"
  "monotone_conversion (\<lambda>v. ddiv v (dlit (621371 / 1000000)))" "monotone_conversion (\<lambda>v. ddiv v (dlit 1000))"
  "monotone_conversion (\<lambda>v. dmul v (dlit 1000))" "monotone_conversion (\<lambda>v. ddiv v (dlit (127 / 50)))"
  "monotone_conversion (\<lambda>v. dmul v (dlit (127 / 50)))" "monotone_conversion (\<lambda>v. dmul v (dlit 10))"
  "monotone_conversion (\<lambda>v. ddiv v (dlit 10))"
  by (rule monotone_scale monotone_shift; simp)+

lemma monotone_kelvin:
  "monotone_conversion (\<lambda>v. celsius_to_fahrenheit (dsub v (dlit (5463 / 20))))"
  "monotone_conversion (\<lambda>v. dadd (fahrenheit_to_celsius v) (dlit (5463 / 20)))"
  using monotone_comp [OF monotone_temperature(1) monotone_inline(1)]
    monotone_comp [OF monotone_inline(2) monotone_temperature(2)] by simp_all

lemmas monotone_conversions =
  monotone_id monotone_temperature monotone_speed monotone_length monotone_inline monotone_kelvin

section \<open>Properties\<close>

text \<open>The physical quantity of a unit, as the enumeration groups them.\<close>

datatype quantity = Temperature | Speed | Distance | Pressure | Precipitation | Single Unit

fun quantity_of :: "Unit \<Rightarrow> quantity" where
  "quantity_of Unit.DegC = Temperature" | "quantity_of Unit.DegF = Temperature"
| "quantity_of Unit.Kelvin = Temperature"
| "quantity_of Unit.Km_h = Speed" | "quantity_of Unit.M_s = Speed" | "quantity_of Unit.Knot = Speed"
| "quantity_of Unit.Mi_h = Speed"
| "quantity_of Unit.Meter = Distance" | "quantity_of Unit.Kilometer = Distance" | "quantity_of Unit.Mile = Distance"
| "quantity_of Unit.Pascal = Pressure" | "quantity_of Unit.Millibar = Pressure"
| "quantity_of Unit.Millimeter = Precipitation" | "quantity_of Unit.Inch = Precipitation"
| "quantity_of Unit.Centimeter = Precipitation"
| "quantity_of u = Single u"

lemma convert_supported: "(convert v a b \<noteq> None) = (quantity_of a = quantity_of b)"
  by (cases a; cases b; simp add: convert_def)

lemma monotone_dle: "monotone_conversion f \<Longrightarrow> dle v w \<Longrightarrow> dwf v \<Longrightarrow> dwf w \<Longrightarrow> dle (f v) (f w)"
  by (simp add: monotone_conversion_def)

lemmas conversion_dle = monotone_conversions [THEN monotone_dle]

lemma convert_mono:
  "quantity_of a = quantity_of b \<Longrightarrow> dle v w \<Longrightarrow> dwf v \<Longrightarrow> dwf w \<Longrightarrow>
   dle (the (convert v a b)) (the (convert w a b))"
  by (cases a; cases b; simp add: convert_def conversion_dle)

text \<open>
  A conversion is supported exactly between units of the same physical quantity, in every pair
  and both directions: temperatures, speeds, distances, pressures and precipitation depths; any
  other pair gives no value.
\<close>

theorem convert_supported_iff:
  "(\<exists>r. convert v a b = Some r) \<longleftrightarrow> quantity_of a = quantity_of b"
  using convert_supported [of v a b] by simp

text \<open>
  C39: converting a quantitative value keeps its wire code and quality flag, gives values exactly
  when the units measure the same quantity, and keeps the order of the value and its bounds in the
  rounded double arithmetic: a value inside its bounds stays inside the converted bounds.
\<close>

theorem converted_to_keeps_bounds:
  assumes "quantity_value q = Some v" and "min_value q = Some lo" and "max_value q = Some hi"
    and "dwf v" "dwf lo" "dwf hi" and "dle lo v" "dle v hi"
  shows "unit (converted_to q u) = u \<and> unit_code (converted_to q u) = unit_code q \<and>
         quality_control (converted_to q u) = quality_control q \<and>
         (if quantity_of (unit q) = quantity_of u
          then \<exists>v' lo' hi'. quantity_value (converted_to q u) = Some v' \<and>
                 min_value (converted_to q u) = Some lo' \<and> max_value (converted_to q u) = Some hi' \<and>
                 dle lo' v' \<and> dle v' hi'
          else quantity_value (converted_to q u) = None \<and> min_value (converted_to q u) = None \<and>
               max_value (converted_to q u) = None)"
proof (cases "quantity_of (unit q) = quantity_of u")
  case True
  then have "convert x (unit q) u = Some (the (convert x (unit q) u))" for x
    using convert_supported [of x "unit q" u] by simp
  then show ?thesis
    using assms True convert_mono [OF True assms(7)] convert_mono [OF True assms(8)]
    by (auto simp: converted_to_def)
next
  case False
  then have "convert x (unit q) u = None" for x using convert_supported [of x "unit q" u] by simp
  with False assms show ?thesis by (simp add: converted_to_def)
qed

definition demo_quantity :: QuantitativeValue where
  "demo_quantity = \<lparr>quantity_value = Some (dlit 20), unit_code = ''wmoUnit:degC'', unit = Unit.DegC,
     max_value = Some (dlit 25), min_value = Some (dlit 15), quality_control = Some ''V''\<rparr>"

theorem converted_to_keeps_bounds_witness:
  "\<exists>v lo hi. quantity_value (converted_to demo_quantity Unit.DegF) = Some v \<and>
     min_value (converted_to demo_quantity Unit.DegF) = Some lo \<and>
     max_value (converted_to demo_quantity Unit.DegF) = Some hi \<and> dle lo v \<and> dle v hi"
proof -
  have d: "dle (dlit 15) (dlit 20)" "dle (dlit 20) (dlit 25)"
    using round64_int [of 15 False] round64_int [of 20 False] round64_int [of 25 False]
    by (simp_all add: dlit_def)
  have q: "quantity_value demo_quantity = Some (dlit 20)" "min_value demo_quantity = Some (dlit 15)"
      "max_value demo_quantity = Some (dlit 25)" "quantity_of (unit demo_quantity) = quantity_of Unit.DegF"
    by (simp_all add: demo_quantity_def)
  from converted_to_keeps_bounds [OF q(1-3) dwf_ops(2) dwf_ops(2) dwf_ops(2) d, of "Unit.DegF"]
  show ?thesis unfolding q(4) by (simp only: refl if_True)
qed

lemma scale_roundtrip:
  assumes "\<bar>n\<bar> * k \<le> 2 ^ 53" and "0 < k" and "k \<le> 2 ^ 53"
  shows "ddiv (dmul (double_of_int n) (double_of_int k)) (double_of_int k) = double_of_int n"
proof -
  have n: "\<bar>n\<bar> \<le> 2 ^ 53" using assms mult_left_mono [of 1 k "\<bar>n\<bar>"] by simp
  have "double_of_int k = Fin False (of_int k)" using assms(2,3) round64_int [of k False] by (simp add: double_of_int_def)
  moreover have "double_of_int n = Fin (n < 0) (of_int \<bar>n\<bar>)" using n round64_int [of "\<bar>n\<bar>"] by (simp add: double_of_int_def)
  moreover have "round64 s (of_int \<bar>n\<bar> * of_int k) = Fin s (of_int \<bar>n\<bar> * of_int k)" for s
    using round64_int [of "\<bar>n\<bar> * k" s] assms by simp
  moreover have "of_int \<bar>n\<bar> * of_int k / of_int k = (of_int \<bar>n\<bar> :: rat)" using assms(2) by simp
  ultimately show ?thesis using n round64_int [of "\<bar>n\<bar>"] assms(2) by (simp del: of_int_abs)
qed

text \<open>
  Whole numbers of kilometres, centimetres and millibars survive the round trip through metres,
  millimetres and pascals exactly.
\<close>

theorem convert_roundtrip:
  assumes "(a, b) \<in> {(Unit.Kilometer, Unit.Meter), (Unit.Centimeter, Unit.Millimeter), (Unit.Millibar, Unit.Pascal)}"
    and "\<bar>n\<bar> \<le> 2 ^ 43"
  shows "\<exists>v. convert (double_of_int n) a b = Some v \<and> convert v b a = Some (double_of_int n)"
proof -
  have k: "dlit 10 = double_of_int 10" "dlit 100 = double_of_int 100" "dlit 1000 = double_of_int 1000"
    by (simp_all add: dlit_def double_of_int_def)
  have "\<bar>n\<bar> * 10 \<le> 2 ^ 53" "\<bar>n\<bar> * 100 \<le> 2 ^ 53" "\<bar>n\<bar> * 1000 \<le> 2 ^ 53" using assms(2) by simp_all
  then show ?thesis
    using assms(1) by (auto simp: convert_def k scale_roundtrip millibar_to_pascal_def pascal_to_millibar_def)
qed

theorem convert_roundtrip_witness:
  "\<exists>v. convert (double_of_int (- 7)) Unit.Kilometer Unit.Meter = Some v \<and>
       convert v Unit.Meter Unit.Kilometer = Some (double_of_int (- 7))"
  by (rule convert_roundtrip) simp_all

end
