(* ===== verification/Json_Walk.thy ===== *)
theory Json_Walk
  imports Nws_Error Units
begin

text \<open>
  Walking a parsed JSON document (\<open>src/models/glaze_detail.cpp\<close>), the GeoJSON types
  (\<open>include/nws/geo.hpp\<close>) and the shape every deserializer of the SDK has: parse the body, leave the
  destination alone when that fails, otherwise reset it and fill it from the tree. The contract of a
  deserializer is the locale \<open>json_deserializer\<close>; its interpretation on \<open>read_into\<close>, for any function
  that fills a record from the tree, serves every deserializer of the model theories.
\<close>

section \<open>Null-safe accessors\<close>

fun as_object :: "json \<Rightarrow> (string \<times> json) list option" where
  "as_object (JObject ms) = Some ms"
| "as_object _ = None"

definition lookup :: "json \<Rightarrow> string \<Rightarrow> json option" where
  "lookup obj key = (case as_object obj of None \<Rightarrow> None | Some ms \<Rightarrow> map_of ms key)"

definition get_string :: "json \<Rightarrow> string \<Rightarrow> string" where
  "get_string obj key = (case lookup obj key of Some (JString s) \<Rightarrow> s | _ \<Rightarrow> [])"

definition get_int :: "json \<Rightarrow> string \<Rightarrow> int \<Rightarrow> int" where
  "get_int obj key def =
    (case lookup obj key of
       Some (JNumber d) \<Rightarrow>
         if \<not> dle (dlit (- 2147483648)) d \<or> dlt (dlit 2147483647) d then def else dtrunc d
     | _ \<Rightarrow> def)"

definition get_optional_double :: "json \<Rightarrow> string \<Rightarrow> double option" where
  "get_optional_double obj key = (case lookup obj key of Some (JNumber d) \<Rightarrow> Some d | _ \<Rightarrow> None)"

definition get_optional_string :: "json \<Rightarrow> string \<Rightarrow> string option" where
  "get_optional_string obj key = (case lookup obj key of Some (JString s) \<Rightarrow> Some s | _ \<Rightarrow> None)"

definition get_bool :: "json \<Rightarrow> string \<Rightarrow> bool \<Rightarrow> bool" where
  "get_bool obj key def = (case lookup obj key of Some (JBool b) \<Rightarrow> b | _ \<Rightarrow> def)"

fun strings_of :: "json list \<Rightarrow> string list" where
  "strings_of [] = []"
| "strings_of (JString s # xs) = s # strings_of xs"
| "strings_of (_ # xs) = strings_of xs"

definition get_string_array :: "json \<Rightarrow> string \<Rightarrow> string list" where
  "get_string_array obj key = (case lookup obj key of Some (JArray xs) \<Rightarrow> strings_of xs | _ \<Rightarrow> [])"

definition find_object :: "json \<Rightarrow> string \<Rightarrow> json option" where
  "find_object obj key = (case lookup obj key of Some (JObject ms) \<Rightarrow> Some (JObject ms) | _ \<Rightarrow> None)"

text \<open>The array itself, which is all the callers use of the node.\<close>

definition find_array :: "json \<Rightarrow> string \<Rightarrow> json list option" where
  "find_array obj key = (case lookup obj key of Some (JArray xs) \<Rightarrow> Some xs | _ \<Rightarrow> None)"

section \<open>Domain values\<close>

definition parse_quantitative_value :: "json \<Rightarrow> QuantitativeValue \<Rightarrow> QuantitativeValue" where
  "parse_quantitative_value node qv =
    (if is_null node \<or> \<not> is_object node then qv
     else
       let code = get_string node ''unitCode''
       in qv\<lparr>unit_code := code, unit := parse_unit_code code,
             quantity_value := get_optional_double node ''value'',
             max_value := get_optional_double node ''maxValue'',
             min_value := get_optional_double node ''minValue'',
             quality_control := get_optional_string node ''qualityControl''\<rparr>)"

text \<open>\<open>if (node != nullptr) parse_quantitative_value(*node, qv)\<close> on the object at a key.\<close>

definition parse_qv_field :: "json \<Rightarrow> string \<Rightarrow> QuantitativeValue \<Rightarrow> QuantitativeValue" where
  "parse_qv_field props key qv =
     (case find_object props key of None \<Rightarrow> qv | Some node \<Rightarrow> parse_quantitative_value node qv)"

record GeoPoint =
  longitude :: double
  latitude :: double

record GeoPolygon =
  coordinates :: "GeoPoint list list"

datatype Geometry = PointGeometry GeoPoint | PolygonGeometry GeoPolygon | NullGeometry

text \<open>At least two elements, the first two numbers.\<close>

fun position :: "json list \<Rightarrow> GeoPoint option" where
  "position (JNumber lon # JNumber lat # rest) = Some \<lparr>longitude = lon, latitude = lat\<rparr>"
| "position _ = None"

definition parse_geopoint :: "json \<Rightarrow> GeoPoint option" where
  "parse_geopoint node =
    (if is_object node
     then (case find_array node ''coordinates'' of None \<Rightarrow> None | Some arr \<Rightarrow> position arr)
     else case node of JArray arr \<Rightarrow> position arr | _ \<Rightarrow> None)"

fun ring_points :: "json list \<Rightarrow> GeoPoint list" where
  "ring_points [] = []"
| "ring_points (pt # pts) =
     (case pt of
        JArray pa \<Rightarrow> (case position pa of Some gp \<Rightarrow> gp # ring_points pts | None \<Rightarrow> ring_points pts)
      | _ \<Rightarrow> ring_points pts)"

fun polygon_rings :: "json list \<Rightarrow> GeoPoint list list" where
  "polygon_rings [] = []"
| "polygon_rings (ring # rings) =
     (case ring of JArray pts \<Rightarrow> ring_points pts # polygon_rings rings | _ \<Rightarrow> polygon_rings rings)"

definition parse_geometry :: "json \<Rightarrow> Geometry" where
  "parse_geometry node =
    (if is_null node \<or> \<not> is_object node then NullGeometry
     else
       let type = get_string node ''type''
       in if type = ''Point''
          then (case parse_geopoint node of Some gp \<Rightarrow> PointGeometry gp | None \<Rightarrow> NullGeometry)
          else if type = ''Polygon''
          then (case find_array node ''coordinates'' of
                  None \<Rightarrow> PolygonGeometry \<lparr>coordinates = []\<rparr>
                | Some outer \<Rightarrow> PolygonGeometry \<lparr>coordinates = polygon_rings outer\<rparr>)
          else NullGeometry)"

definition parse_root :: "json_reader \<Rightarrow> string \<Rightarrow> json result" where
  "parse_root glz_read body =
     (case glz_read body of Inl msg \<Rightarrow> Inl (Error_parse msg) | Inr tree \<Rightarrow> Inr tree)"

section \<open>Deserializers\<close>

text \<open>
  The common head of every deserializer: \<open>parse_root\<close>, the error return that does not touch the
  destination, and otherwise the destination \<open>fill\<close> builds from a fresh default (\<open>out = {}\<close>).
\<close>

definition read_into :: "(json \<Rightarrow> 'a) \<Rightarrow> json_reader \<Rightarrow> string \<Rightarrow> 'a \<Rightarrow> unit result \<times> 'a" where
  "read_into fill glz_read body out =
     (case parse_root glz_read body of Inl e \<Rightarrow> (Inl e, out) | Inr tree \<Rightarrow> (Inr (), fill tree))"

definition deserialize_quantitative_value ::
  "json_reader \<Rightarrow> string \<Rightarrow> QuantitativeValue \<Rightarrow> unit result \<times> QuantitativeValue" where
  "deserialize_quantitative_value =
     read_into (\<lambda>tree. parse_quantitative_value tree default_QuantitativeValue)"

subsection \<open>GeoJSON features\<close>

record 'p GeoJsonFeature =
  feature_id :: string
  feature_type :: string
  geometry :: Geometry
  properties :: 'p

record 'p GeoJsonFeatureCollection =
  collection_type :: string
  features :: "'p GeoJsonFeature list"

definition default_GeoJsonFeature :: "'p \<Rightarrow> 'p GeoJsonFeature" where
  "default_GeoJsonFeature p =
     \<lparr>feature_id = [], feature_type = ''Feature'', geometry = NullGeometry, properties = p\<rparr>"

definition default_GeoJsonFeatureCollection :: "'p GeoJsonFeatureCollection" where
  "default_GeoJsonFeatureCollection = \<lparr>collection_type = ''FeatureCollection'', features = []\<rparr>"

text \<open>
  The bodies of the \<open>populate_..._feature\<close> and \<open>populate_..._response\<close> functions and of the
  \<open>deserialize_..._collection\<close> functions differ only in the properties they fill.
\<close>

definition populate_feature ::
  "(json \<Rightarrow> 'p \<Rightarrow> 'p) \<Rightarrow> json \<Rightarrow> 'p GeoJsonFeature \<Rightarrow> 'p GeoJsonFeature" where
  "populate_feature populate_properties tree r =
    (let r = r\<lparr>feature_id := get_string tree ''id''\<rparr>;
         type = get_string tree ''type'';
         r = r\<lparr>feature_type := (if type = [] then ''Feature'' else type)\<rparr>;
         r = (case find_object tree ''geometry'' of None \<Rightarrow> r | Some geom \<Rightarrow> r\<lparr>geometry := parse_geometry geom\<rparr>)
     in case find_object tree ''properties'' of
          None \<Rightarrow> r
        | Some props \<Rightarrow> r\<lparr>properties := populate_properties props (properties r)\<rparr>)"

definition populate_collection ::
  "(json \<Rightarrow> 'p GeoJsonFeature) \<Rightarrow> json \<Rightarrow> 'p GeoJsonFeatureCollection" where
  "populate_collection feature tree =
    (let out = default_GeoJsonFeatureCollection; type = get_string tree ''type'';
         out = out\<lparr>collection_type := (if type = [] then ''FeatureCollection'' else type)\<rparr>
     in case find_array tree ''features'' of
          None \<Rightarrow> out
        | Some arr \<Rightarrow> out\<lparr>features := features out @ map feature arr\<rparr>)"

section \<open>Laws\<close>

lemma find_object_is_object: "find_object obj key = Some node \<Longrightarrow> is_object node"
  by (auto simp: find_object_def split: option.splits json.splits)

lemma lookup_simps [json_simps]:
  "lookup (JObject ms) key = map_of ms key" "lookup JNull key = None" "lookup (JBool b) key = None"
  "lookup (JNumber d) key = None" "lookup (JString s) key = None" "lookup (JArray xs) key = None"
  by (simp_all add: lookup_def)

lemma populate_feature_properties:
  "find_object tree ''properties'' = Some props \<Longrightarrow>
   properties (populate_feature f tree r) = f props (properties r)"
  by (simp add: populate_feature_def Let_def split: option.splits)

locale json_deserializer =
  fixes deserialize :: "json_reader \<Rightarrow> string \<Rightarrow> 'a \<Rightarrow> unit result \<times> 'a"
    and build :: "json \<Rightarrow> 'a"
  assumes rejects: "glz_read body = Inl msg \<Longrightarrow> deserialize glz_read body out = (Inl (Error_parse msg), out)"
    and accepts: "glz_read body = Inr tree \<Longrightarrow> deserialize glz_read body out = (Inr (), build tree)"
begin

lemma ok_iff_json: "fst (deserialize glz_read body out) = Inr () \<longleftrightarrow> (\<exists>tree. glz_read body = Inr tree)"
  by (cases "glz_read body") (simp_all add: rejects accepts)

lemma error_is_parse_error: "fst (deserialize glz_read body out) = Inl e \<Longrightarrow> code e = ErrorCode.ParseError"
  by (cases "glz_read body") (auto simp: rejects accepts error_constructors)

lemma destination_untouched:
  "fst (deserialize glz_read body out) = Inl e \<Longrightarrow> snd (deserialize glz_read body out) = out"
  by (cases "glz_read body") (auto simp: rejects accepts)

lemma no_stale_data:
  "fst (deserialize glz_read body out) = Inr () \<Longrightarrow> deserialize glz_read body out = deserialize glz_read body out'"
  by (cases "glz_read body") (auto simp: rejects accepts)

end

interpretation reader: json_deserializer "read_into fill" fill for fill
  by unfold_locales (simp_all add: read_into_def parse_root_def)

text \<open>
  What a caller who reuses a destination object relies on, for one deserializer: it succeeds exactly
  on well-formed JSON; a failure is a parse error and leaves the destination as it was; a success
  leaves nothing of what the destination held before.
\<close>

definition replaces_destination :: "(json_reader \<Rightarrow> string \<Rightarrow> 'a \<Rightarrow> unit result \<times> 'a) \<Rightarrow> bool" where
  "replaces_destination d \<longleftrightarrow>
     (\<forall>glz_read body out out'.
        (fst (d glz_read body out) = Inr () \<longleftrightarrow> (\<exists>tree. glz_read body = Inr tree)) \<and>
        (case d glz_read body out of
           (Inl e, out1) \<Rightarrow> code e = ErrorCode.ParseError \<and> out1 = out
         | (Inr _, out1) \<Rightarrow> d glz_read body out' = (Inr (), out1)))"

context json_deserializer
begin

lemma contract: "replaces_destination deserialize"
proof -
  have "(fst (deserialize r body out) = Inr () \<longleftrightarrow> (\<exists>tree. r body = Inr tree)) \<and>
      (case deserialize r body out of
         (Inl e, out1) \<Rightarrow> code e = ErrorCode.ParseError \<and> out1 = out
       | (Inr _, out1) \<Rightarrow> deserialize r body out' = (Inr (), out1))" for r body out out'
    by (cases "r body") (simp_all add: rejects accepts error_constructors)
  then show ?thesis unfolding replaces_destination_def by blast
qed

end

section \<open>Properties\<close>

text \<open>Members that are null, dropped from an object (whose keys are distinct).\<close>

definition drop_nulls :: "(string \<times> json) list \<Rightarrow> (string \<times> json) list" where
  "drop_nulls ms = filter (\<lambda>m. \<not> is_null (snd m)) ms"

lemma map_of_drop_nulls:
  "distinct (map fst ms) \<Longrightarrow>
   map_of (drop_nulls ms) k = (case map_of ms k of None \<Rightarrow> None | Some j \<Rightarrow> if is_null j then None else Some j)"
proof (induction ms)
  case (Cons m ms)
  obtain a j where m: "m = (a, j)" by (cases m)
  have "map_of ms a = None" using Cons.prems m by (simp add: map_of_eq_None_iff)
  then show ?case using Cons m by (auto simp: drop_nulls_def)
qed (simp add: drop_nulls_def)

text \<open>
  A null member is the same as a missing one for every accessor the deserializers use, so a
  response that spells out nulls and one that leaves the members out give the same model.
\<close>

theorem null_is_missing:
  assumes "distinct (map fst ms)"
  shows "get_string (JObject (drop_nulls ms)) k = get_string (JObject ms) k \<and>
         get_int (JObject (drop_nulls ms)) k i = get_int (JObject ms) k i \<and>
         get_optional_double (JObject (drop_nulls ms)) k = get_optional_double (JObject ms) k \<and>
         get_optional_string (JObject (drop_nulls ms)) k = get_optional_string (JObject ms) k \<and>
         get_bool (JObject (drop_nulls ms)) k b = get_bool (JObject ms) k b \<and>
         get_string_array (JObject (drop_nulls ms)) k = get_string_array (JObject ms) k \<and>
         find_object (JObject (drop_nulls ms)) k = find_object (JObject ms) k \<and>
         find_array (JObject (drop_nulls ms)) k = find_array (JObject ms) k"
proof -
  have l: "lookup (JObject (drop_nulls ms)) k =
      (case lookup (JObject ms) k of None \<Rightarrow> None | Some j \<Rightarrow> if is_null j then None else Some j)"
    by (simp add: json_simps map_of_drop_nulls [OF assms])
  show ?thesis
    unfolding get_string_def get_int_def get_optional_double_def get_optional_string_def get_bool_def
      get_string_array_def find_object_def find_array_def l
    by (cases "lookup (JObject ms) k"; simp; cases "the (lookup (JObject ms) k)"; simp)
qed

theorem null_is_missing_witness:
  "get_string (JObject []) ''headline'' = get_string (JObject [(''headline'', JNull)]) ''headline''"
  using null_is_missing [of "[(''headline'', JNull)]" "''headline''" 0 False] by (simp add: drop_nulls_def)

lemma int32_bounds: "dlit (- 2147483648) = Fin True 2147483648" "dlit 2147483647 = Fin False 2147483647"
  using round64_int [of 2147483648 True] round64_int [of 2147483647 False] by (simp_all add: dlit_def)

text \<open>
  The integer accessor is total on any document: whatever stands at the key (nothing, another
  type, a NaN, an infinity, a huge number), the result fits a 32-bit integer, so the cast is never
  out of range; and a number inside the range is truncated towards zero.
\<close>

theorem get_int_in_range:
  assumes "int32_range def"
  shows "int32_range (get_int obj key def) \<and>
         (\<forall>s m. lookup obj key = Some (JNumber (Fin s m)) \<longrightarrow>
            - 2147483648 \<le> dval (Fin s m) \<longrightarrow> dval (Fin s m) \<le> 2147483647 \<longrightarrow>
            get_int obj key def = (if s then - \<lfloor>m\<rfloor> else \<lfloor>m\<rfloor>))"
proof -
  have "int32_range (dtrunc d)" if "dle (dlit (- 2147483648)) d" "\<not> dlt (dlit 2147483647) d" for d
  proof (cases d)
    case (Fin s m)
    have "- 2147483648 \<le> dval (Fin s m)" "dval (Fin s m) \<le> 2147483647"
      using that Fin by (auto simp: int32_bounds split: if_splits)
    then show ?thesis
    proof (cases s)
      case True
      have "\<lfloor>m\<rfloor> \<le> 2147483648" "- 2147483647 \<le> \<lfloor>m\<rfloor>"
        using True \<open>- 2147483648 \<le> dval (Fin s m)\<close> \<open>dval (Fin s m) \<le> 2147483647\<close>
        by (simp_all add: le_floor_iff floor_le_iff)
      then show ?thesis using True Fin by (simp del: floor_le_numeral neg_numeral_le_floor)
    qed (auto simp: Fin le_floor_iff floor_le_iff)
  qed (use that in \<open>auto simp: int32_bounds dle_iff\<close>)
  then have "int32_range (get_int obj key def)"
    using assms by (auto simp: get_int_def split: option.splits json.splits)
  moreover have "get_int obj key def = dtrunc (Fin s m)"
    if "lookup obj key = Some (JNumber (Fin s m))" "- 2147483648 \<le> dval (Fin s m)" "dval (Fin s m) \<le> 2147483647"
    for s m
    using that by (simp add: get_int_def int32_bounds)
  ultimately show ?thesis by simp
qed

theorem get_int_in_range_witness:
  "int32_range (get_int (JObject [(''total'', JNumber (Fin True (7 / 2)))]) ''total'' 0) \<and>
   get_int (JObject [(''total'', JNumber (Fin True (7 / 2)))]) ''total'' 0 = - 3"
proof -
  let ?o = "JObject [(''total'', JNumber (Fin True (7 / 2)))]"
  have "lookup ?o ''total'' = Some (JNumber (Fin True (7 / 2)))" by (simp add: json_simps)
  moreover have "\<lfloor>7 / 2 :: rat\<rfloor> = 3" by (simp add: floor_eq_iff)
  ultimately show ?thesis
    using get_int_in_range [of 0 ?o "''total''"]
      get_int_in_range [of 0 ?o "''total''", THEN conjunct2, THEN spec, THEN spec, of True "7 / 2"]
    by simp
qed

end
