(* ===== verification/Model_Location.thy ===== *)
theory Model_Location
  imports Json_Walk
begin

text \<open>
  The models of places and reference data: points, stations, offices, zones, radar stations, text
  products and the glossary (\<open>include/nws/models\<close> and \<open>src/models\<close>). Each group is a record with its
  default, the function that fills it from a JSON object, and the deserializers, which meet
  the contract \<open>json_deserializer\<close> through \<open>read_into\<close>.
\<close>

section \<open>Points\<close>

record RelativeLocationProperties =
  city :: string
  state :: string
  distance :: QuantitativeValue
  bearing :: QuantitativeValue

record RelativeLocation =
  relative_geometry :: Geometry
  relative_properties :: RelativeLocationProperties

record PointProperties =
  point_id :: string
  grid_id :: string
  grid_x :: int
  grid_y :: int
  forecast_url :: string
  forecast_hourly_url :: string
  forecast_grid_data_url :: string
  observation_stations_url :: string
  forecast_zone_url :: string
  county_url :: string
  fire_weather_zone_url :: string
  time_zone :: string
  radar_station :: string
  relative_location :: RelativeLocation

type_synonym PointResponse = "PointProperties GeoJsonFeature"

definition default_PointProperties :: PointProperties where
  "default_PointProperties =
     \<lparr>point_id = [], grid_id = [], grid_x = 0, grid_y = 0, forecast_url = [], forecast_hourly_url = [],
      forecast_grid_data_url = [], observation_stations_url = [], forecast_zone_url = [], county_url = [],
      fire_weather_zone_url = [], time_zone = [], radar_station = [],
      relative_location =
        \<lparr>relative_geometry = NullGeometry,
         relative_properties = \<lparr>city = [], state = [], distance = default_QuantitativeValue,
           bearing = default_QuantitativeValue\<rparr>\<rparr>\<rparr>"

definition populate_relative_location :: "json \<Rightarrow> RelativeLocation \<Rightarrow> RelativeLocation" where
  "populate_relative_location rl loc =
    (let loc = (case find_object rl ''geometry'' of
                  None \<Rightarrow> loc | Some geom \<Rightarrow> loc\<lparr>relative_geometry := parse_geometry geom\<rparr>)
     in case find_object rl ''properties'' of
          None \<Rightarrow> loc
        | Some rl_props \<Rightarrow>
            let q = relative_properties loc
            in loc\<lparr>relative_properties :=
                 q\<lparr>city := get_string rl_props ''city'', state := get_string rl_props ''state'',
                   distance := parse_qv_field rl_props ''distance'' (distance q),
                   bearing := parse_qv_field rl_props ''bearing'' (bearing q)\<rparr>\<rparr>)"

definition populate_point_properties :: "json \<Rightarrow> PointProperties \<Rightarrow> PointProperties" where
  "populate_point_properties props p =
    (let p = p\<lparr>point_id := get_string props ''@id'', grid_id := get_string props ''gridId'',
               grid_x := get_int props ''gridX'' 0, grid_y := get_int props ''gridY'' 0,
               forecast_url := get_string props ''forecast'',
               forecast_hourly_url := get_string props ''forecastHourly'',
               forecast_grid_data_url := get_string props ''forecastGridData'',
               observation_stations_url := get_string props ''observationStations'',
               forecast_zone_url := get_string props ''forecastZone'',
               county_url := get_string props ''county'',
               fire_weather_zone_url := get_string props ''fireWeatherZone'',
               time_zone := get_string props ''timeZone'', radar_station := get_string props ''radarStation''\<rparr>
     in case find_object props ''relativeLocation'' of
          None \<Rightarrow> p
        | Some rl \<Rightarrow> p\<lparr>relative_location := populate_relative_location rl (relative_location p)\<rparr>)"

definition deserialize_point_response ::
  "json_reader \<Rightarrow> string \<Rightarrow> PointResponse \<Rightarrow> unit result \<times> PointResponse" where
  "deserialize_point_response =
     read_into (\<lambda>tree. populate_feature populate_point_properties tree
       (default_GeoJsonFeature default_PointProperties))"

section \<open>Stations\<close>

record StationProperties =
  station_prop_id :: string
  station_identifier :: string
  name :: string
  time_zone :: string
  forecast_url :: string
  county_url :: string
  fire_weather_zone_url :: string
  elevation :: QuantitativeValue

type_synonym StationResponse = "StationProperties GeoJsonFeature"
type_synonym StationCollectionResponse = "StationProperties GeoJsonFeatureCollection"

definition default_StationProperties :: StationProperties where
  "default_StationProperties =
     \<lparr>station_prop_id = [], station_identifier = [], name = [], time_zone = [], forecast_url = [],
      county_url = [], fire_weather_zone_url = [], elevation = default_QuantitativeValue\<rparr>"

definition populate_station_properties :: "json \<Rightarrow> StationProperties \<Rightarrow> StationProperties" where
  "populate_station_properties props p =
     p\<lparr>station_prop_id := get_string props ''@id'',
       station_identifier := get_string props ''stationIdentifier'', name := get_string props ''name'',
       time_zone := get_string props ''timeZone'', forecast_url := get_string props ''forecast'',
       county_url := get_string props ''county'',
       fire_weather_zone_url := get_string props ''fireWeatherZone'',
       elevation := parse_qv_field props ''elevation'' (elevation p)\<rparr>"

definition populate_station_response :: "json \<Rightarrow> StationResponse \<Rightarrow> StationResponse" where
  "populate_station_response = populate_feature populate_station_properties"

definition deserialize_station_response ::
  "json_reader \<Rightarrow> string \<Rightarrow> StationResponse \<Rightarrow> unit result \<times> StationResponse" where
  "deserialize_station_response =
     read_into (\<lambda>tree. populate_station_response tree (default_GeoJsonFeature default_StationProperties))"

definition deserialize_station_collection ::
  "json_reader \<Rightarrow> string \<Rightarrow> StationCollectionResponse \<Rightarrow> unit result \<times> StationCollectionResponse" where
  "deserialize_station_collection =
     read_into (populate_collection
       (\<lambda>feat. populate_station_response feat (default_GeoJsonFeature default_StationProperties)))"

section \<open>Zones\<close>

record ZoneProperties =
  zone_id :: string
  zone_type :: string
  name :: string
  state :: string
  forecast_offices :: "string list"
  observation_stations :: "string list"

type_synonym ZoneFeature = "ZoneProperties GeoJsonFeature"
type_synonym ZoneCollectionResponse = "ZoneProperties GeoJsonFeatureCollection"

definition default_ZoneProperties :: ZoneProperties where
  "default_ZoneProperties =
     \<lparr>zone_id = [], zone_type = [], name = [], state = [], forecast_offices = [], observation_stations = []\<rparr>"

definition populate_zone_properties :: "json \<Rightarrow> ZoneProperties \<Rightarrow> ZoneProperties" where
  "populate_zone_properties props p =
     p\<lparr>zone_id := get_string props ''@id'', zone_type := get_string props ''@type'',
       name := get_string props ''name'', state := get_string props ''state'',
       forecast_offices := get_string_array props ''forecastOffices'',
       observation_stations := get_string_array props ''observationStations''\<rparr>"

definition populate_zone_feature :: "json \<Rightarrow> ZoneFeature \<Rightarrow> ZoneFeature" where
  "populate_zone_feature = populate_feature populate_zone_properties"

definition deserialize_zone_feature ::
  "json_reader \<Rightarrow> string \<Rightarrow> ZoneFeature \<Rightarrow> unit result \<times> ZoneFeature" where
  "deserialize_zone_feature =
     read_into (\<lambda>tree. populate_zone_feature tree (default_GeoJsonFeature default_ZoneProperties))"

definition deserialize_zone_collection ::
  "json_reader \<Rightarrow> string \<Rightarrow> ZoneCollectionResponse \<Rightarrow> unit result \<times> ZoneCollectionResponse" where
  "deserialize_zone_collection =
     read_into (populate_collection
       (\<lambda>feat. populate_zone_feature feat (default_GeoJsonFeature default_ZoneProperties)))"

record ZoneForecastPeriod =
  number :: int
  name :: string
  detailed_forecast :: string

record ZoneForecastProperties =
  zone :: "string list"
  periods :: "ZoneForecastPeriod list"

definition populate_zone_forecast_period :: "json \<Rightarrow> ZoneForecastPeriod \<Rightarrow> ZoneForecastPeriod" where
  "populate_zone_forecast_period node p =
     p\<lparr>number := get_int node ''number'' 0, name := get_string node ''name'',
       detailed_forecast := get_string node ''detailedForecast''\<rparr>"

definition deserialize_zone_forecast ::
  "json_reader \<Rightarrow> string \<Rightarrow> ZoneForecastProperties \<Rightarrow> unit result \<times> ZoneForecastProperties" where
  "deserialize_zone_forecast =
     read_into (\<lambda>tree.
       let out = \<lparr>zone = [], periods = []\<rparr>;
           target = (case find_object tree ''properties'' of Some props \<Rightarrow> props | None \<Rightarrow> tree);
           out = out\<lparr>zone := get_string_array target ''zone''\<rparr>
       in case find_array target ''periods'' of
            None \<Rightarrow> out
          | Some arr \<Rightarrow>
              out\<lparr>periods := map (\<lambda>period_json. populate_zone_forecast_period period_json
                     \<lparr>number = 0, name = [], detailed_forecast = []\<rparr>) arr\<rparr>)"

section \<open>Radar\<close>

record RadarStationProperties =
  radar_id :: string
  name :: string
  station_type :: string
  radar_latitude :: double
  radar_longitude :: double
  elevation :: QuantitativeValue

type_synonym RadarStationFeature = "RadarStationProperties GeoJsonFeature"
type_synonym RadarStationCollectionResponse = "RadarStationProperties GeoJsonFeatureCollection"

definition default_RadarStationProperties :: RadarStationProperties where
  "default_RadarStationProperties =
     \<lparr>radar_id = [], name = [], station_type = [], radar_latitude = dlit 0, radar_longitude = dlit 0,
      elevation = default_QuantitativeValue\<rparr>"

definition populate_radar_station_properties :: "json \<Rightarrow> RadarStationProperties \<Rightarrow> RadarStationProperties" where
  "populate_radar_station_properties props p =
    (let p = p\<lparr>radar_id := get_string props ''id'', name := get_string props ''name'',
               station_type := get_string props ''stationType''\<rparr>;
         p = (case get_optional_double props ''latitude'' of None \<Rightarrow> p | Some lat \<Rightarrow> p\<lparr>radar_latitude := lat\<rparr>);
         p = (case get_optional_double props ''longitude'' of None \<Rightarrow> p | Some lon \<Rightarrow> p\<lparr>radar_longitude := lon\<rparr>)
     in p\<lparr>elevation := parse_qv_field props ''elevation'' (elevation p)\<rparr>)"

definition populate_radar_station_feature :: "json \<Rightarrow> RadarStationFeature \<Rightarrow> RadarStationFeature" where
  "populate_radar_station_feature tree r =
    (let r = populate_feature populate_radar_station_properties tree r
     in case (find_object tree ''properties'', geometry r) of
          (Some props, PointGeometry gp) \<Rightarrow>
            if get_optional_double props ''latitude'' = None
            then r\<lparr>properties := (properties r)\<lparr>radar_latitude := latitude gp, radar_longitude := longitude gp\<rparr>\<rparr>
            else r
        | _ \<Rightarrow> r)"

definition deserialize_radar_station_feature ::
  "json_reader \<Rightarrow> string \<Rightarrow> RadarStationFeature \<Rightarrow> unit result \<times> RadarStationFeature" where
  "deserialize_radar_station_feature =
     read_into (\<lambda>tree. populate_radar_station_feature tree (default_GeoJsonFeature default_RadarStationProperties))"

definition deserialize_radar_station_collection ::
  "json_reader \<Rightarrow> string \<Rightarrow> RadarStationCollectionResponse \<Rightarrow> unit result \<times> RadarStationCollectionResponse" where
  "deserialize_radar_station_collection =
     read_into (populate_collection
       (\<lambda>feat. populate_radar_station_feature feat (default_GeoJsonFeature default_RadarStationProperties)))"

record RadarServerProperties =
  server_id :: string
  host :: string

definition deserialize_radar_server_properties ::
  "json_reader \<Rightarrow> string \<Rightarrow> RadarServerProperties \<Rightarrow> unit result \<times> RadarServerProperties" where
  "deserialize_radar_server_properties =
     read_into (\<lambda>tree. \<lparr>server_id = get_string tree ''id'', host = get_string tree ''host''\<rparr>)"

section \<open>Offices, products, glossary\<close>

record OfficeProperties =
  office_prop_id :: string
  name :: string
  address :: string
  telephone :: string
  fax_number :: string
  email :: string
  nws_region :: string
  parent_org :: string
  responsible_counties :: "string list"

record HeadlineProperties =
  headline_id :: string
  office_id :: string
  title :: string
  summary :: string
  content :: string
  link :: string
  issuance_time :: string

definition deserialize_office_properties ::
  "json_reader \<Rightarrow> string \<Rightarrow> OfficeProperties \<Rightarrow> unit result \<times> OfficeProperties" where
  "deserialize_office_properties =
     read_into (\<lambda>tree.
       \<lparr>office_prop_id = get_string tree ''id'', name = get_string tree ''name'',
        address = get_string tree ''address'', telephone = get_string tree ''telephone'',
        fax_number = get_string tree ''faxNumber'', email = get_string tree ''email'',
        nws_region = get_string tree ''nwsRegion'', parent_org = get_string tree ''parentOrganization'',
        responsible_counties = get_string_array tree ''responsibleCounties''\<rparr>)"

definition deserialize_headline_properties ::
  "json_reader \<Rightarrow> string \<Rightarrow> HeadlineProperties \<Rightarrow> unit result \<times> HeadlineProperties" where
  "deserialize_headline_properties =
     read_into (\<lambda>tree.
       \<lparr>headline_id = get_string tree ''id'', office_id = get_string tree ''office'',
        title = get_string tree ''title'', summary = get_string tree ''summary'',
        content = get_string tree ''content'', link = get_string tree ''link'',
        issuance_time = get_string tree ''issuanceTime''\<rparr>)"

record ProductProperties =
  product_id :: string
  wmo_collective_id :: string
  issuing_office :: string
  issuance_time :: string
  product_code :: string
  product_name :: string
  product_text :: string

record ProductTypeProperties =
  type_id :: string
  type_name :: string

definition deserialize_product_properties ::
  "json_reader \<Rightarrow> string \<Rightarrow> ProductProperties \<Rightarrow> unit result \<times> ProductProperties" where
  "deserialize_product_properties =
     read_into (\<lambda>tree.
       \<lparr>product_id = get_string tree ''id'', wmo_collective_id = get_string tree ''wmoCollectiveId'',
        issuing_office = get_string tree ''issuingOffice'', issuance_time = get_string tree ''issuanceTime'',
        product_code = get_string tree ''productCode'', product_name = get_string tree ''productName'',
        product_text = get_string tree ''productText''\<rparr>)"

definition deserialize_product_type_properties ::
  "json_reader \<Rightarrow> string \<Rightarrow> ProductTypeProperties \<Rightarrow> unit result \<times> ProductTypeProperties" where
  "deserialize_product_type_properties =
     read_into (\<lambda>tree. \<lparr>type_id = get_string tree ''productCode'', type_name = get_string tree ''productName''\<rparr>)"

record GlossaryTerm =
  glossary_term :: string
  glossary_definition :: string

record GlossaryResponse =
  glossary :: "GlossaryTerm list"

definition deserialize_glossary_response ::
  "json_reader \<Rightarrow> string \<Rightarrow> GlossaryResponse \<Rightarrow> unit result \<times> GlossaryResponse" where
  "deserialize_glossary_response =
     read_into (\<lambda>tree.
       case find_array tree ''glossary'' of
         None \<Rightarrow> \<lparr>glossary = []\<rparr>
       | Some arr \<Rightarrow>
           \<lparr>glossary = map (\<lambda>term_json. \<lparr>glossary_term = get_string term_json ''term'',
               glossary_definition = get_string term_json ''definition''\<rparr>) arr\<rparr>)"

section \<open>Properties\<close>

text \<open>
  Every deserializer of this group succeeds exactly on well-formed JSON, leaves the destination
  untouched when it fails (with a parse error), and leaves no trace of the destination's former
  content when it succeeds.
\<close>

theorem location_deserializers_replace:
  "replaces_destination deserialize_quantitative_value \<and>
   replaces_destination deserialize_point_response \<and>
   replaces_destination deserialize_station_response \<and>
   replaces_destination deserialize_station_collection \<and>
   replaces_destination deserialize_zone_feature \<and>
   replaces_destination deserialize_zone_collection \<and>
   replaces_destination deserialize_zone_forecast \<and>
   replaces_destination deserialize_radar_station_feature \<and>
   replaces_destination deserialize_radar_station_collection \<and>
   replaces_destination deserialize_radar_server_properties \<and>
   replaces_destination deserialize_office_properties \<and>
   replaces_destination deserialize_headline_properties \<and>
   replaces_destination deserialize_product_properties \<and>
   replaces_destination deserialize_product_type_properties \<and>
   replaces_destination deserialize_glossary_response"
  unfolding deserialize_quantitative_value_def deserialize_point_response_def
    deserialize_station_response_def deserialize_station_collection_def deserialize_zone_feature_def
    deserialize_zone_collection_def deserialize_zone_forecast_def deserialize_radar_station_feature_def
    deserialize_radar_station_collection_def deserialize_radar_server_properties_def
    deserialize_office_properties_def deserialize_headline_properties_def
    deserialize_product_properties_def deserialize_product_type_properties_def
    deserialize_glossary_response_def
  by (intro conjI reader.contract)

lemma radar_inline_coordinates:
  "radar_latitude (populate_radar_station_properties props default_RadarStationProperties) =
     (case get_optional_double props ''latitude'' of Some x \<Rightarrow> x | None \<Rightarrow> dlit 0)"
  "radar_longitude (populate_radar_station_properties props default_RadarStationProperties) =
     (case get_optional_double props ''longitude'' of Some x \<Rightarrow> x | None \<Rightarrow> dlit 0)"
  by (simp_all add: populate_radar_station_properties_def default_RadarStationProperties_def Let_def
      split: option.splits)

lemma radar_geometry:
  "geometry (populate_radar_station_feature tree (default_GeoJsonFeature p)) =
     (case find_object tree ''geometry'' of Some geom \<Rightarrow> parse_geometry geom | None \<Rightarrow> NullGeometry)"
  by (simp add: populate_radar_station_feature_def populate_feature_def Let_def default_GeoJsonFeature_def
      split: option.splits Geometry.splits)

text \<open>
  The coordinates of a radar station whose document has properties: when the properties lack a latitude and the geometry is a
  point, both coordinates come from the point, even over a longitude the properties do give;
  otherwise each comes from the properties, and a missing one is zero.
\<close>

lemma radar_coordinates:
  assumes "find_object tree ''properties'' = Some props"
  shows "let r = populate_radar_station_feature tree (default_GeoJsonFeature default_RadarStationProperties);
             lat = get_optional_double props ''latitude''; lon = get_optional_double props ''longitude''
         in (radar_latitude (properties r), radar_longitude (properties r)) =
            (case geometry r of
               PointGeometry gp \<Rightarrow>
                 if lat = None then (latitude gp, longitude gp)
                 else (the lat, case lon of Some x \<Rightarrow> x | None \<Rightarrow> dlit 0)
             | _ \<Rightarrow> (case lat of Some x \<Rightarrow> x | None \<Rightarrow> dlit 0, case lon of Some x \<Rightarrow> x | None \<Rightarrow> dlit 0))"
proof -
  let ?d = "default_GeoJsonFeature default_RadarStationProperties"
  define f where "f = populate_feature populate_radar_station_properties tree ?d"
  have p: "properties f = populate_radar_station_properties props default_RadarStationProperties"
    by (simp add: f_def populate_feature_properties [OF assms]) (simp add: default_GeoJsonFeature_def)
  have "populate_radar_station_feature tree ?d = (case geometry f of
      PointGeometry gp \<Rightarrow> if get_optional_double props ''latitude'' = None
        then f\<lparr>properties := (properties f)\<lparr>radar_latitude := latitude gp, radar_longitude := longitude gp\<rparr>\<rparr>
        else f
    | _ \<Rightarrow> f)"
    by (simp add: populate_radar_station_feature_def f_def [symmetric] Let_def assms)
  then show ?thesis
    by (cases "geometry f"; cases "get_optional_double props ''latitude''";
        cases "get_optional_double props ''longitude''")
      (simp_all add: Let_def p radar_inline_coordinates)
qed

text \<open>
  C40: inline coordinates of a radar station take precedence over its geometry: reading a document whose
  properties give both coordinates stores exactly them, whatever geometry it has; when the properties
  give neither, the coordinates are those of a point geometry, and zero without one.
\<close>

theorem radar_precedence:
  assumes "glz_read b = Inr (JObject doc)" and "map_of doc ''properties'' = Some (JObject ps)"
    and "deserialize_radar_station_feature glz_read b old = (r, station)"
  shows "r = Inr () \<and>
    (\<forall>lat lon. map_of ps ''latitude'' = Some (JNumber lat) \<and> map_of ps ''longitude'' = Some (JNumber lon) \<longrightarrow>
       radar_latitude (properties station) = lat \<and> radar_longitude (properties station) = lon) \<and>
    (map_of ps ''latitude'' = None \<and> map_of ps ''longitude'' = None \<longrightarrow>
       (\<forall>x y. map_of doc ''geometry'' =
            Some (JObject [(''type'', JString ''Point''), (''coordinates'', JArray [JNumber x, JNumber y])]) \<longrightarrow>
          radar_longitude (properties station) = x \<and> radar_latitude (properties station) = y) \<and>
       (map_of doc ''geometry'' = None \<longrightarrow>
          radar_longitude (properties station) = Fin False 0 \<and> radar_latitude (properties station) = Fin False 0))"
proof -
  have station: "r = Inr ()"
      "station = populate_radar_station_feature (JObject doc) (default_GeoJsonFeature default_RadarStationProperties)"
    using assms(1,3) by (simp_all add: deserialize_radar_station_feature_def read_into_def parse_root_def)
  have props: "find_object (JObject doc) ''properties'' = Some (JObject ps)" using assms(2) by (simp add: find_object_def lookup_def)
  have point: "parse_geometry (JObject [(''type'', JString ''Point''), (''coordinates'', JArray [JNumber x, JNumber y])]) =
      PointGeometry \<lparr>longitude = x, latitude = y\<rparr>" for x y
    by code_simp
  have member: "get_optional_double (JObject ps) k = Some d" if "map_of ps k = Some (JNumber d)" for k d
    using that by (simp add: get_optional_double_def lookup_def)
  have absent: "get_optional_double (JObject ps) k = None" if "map_of ps k = None" for k
    using that by (simp add: get_optional_double_def lookup_def)
  note c = radar_coordinates [OF props, folded station(2), unfolded Let_def]
    and g = radar_geometry [of "JObject doc" default_RadarStationProperties, folded station(2), unfolded find_object_def lookup_def]
  show ?thesis
  proof (intro conjI allI impI; (elim conjE)?)
    fix lat lon
    assume "map_of ps ''latitude'' = Some (JNumber lat)" "map_of ps ''longitude'' = Some (JNumber lon)"
    then show "radar_latitude (properties station) = lat" "radar_longitude (properties station) = lon"
      using c by (cases "geometry station"; simp add: member)+
  next
    fix x y
    assume none: "map_of ps ''latitude'' = None" "map_of ps ''longitude'' = None"
    show "radar_longitude (properties station) = x" "radar_latitude (properties station) = y"
      if "map_of doc ''geometry'' = Some (JObject [(''type'', JString ''Point''), (''coordinates'', JArray [JNumber x, JNumber y])])"
      using c g none that by (simp_all add: absent point)
    show "radar_longitude (properties station) = Fin False 0" "radar_latitude (properties station) = Fin False 0"
      if "map_of doc ''geometry'' = None"
      using c g none that by (simp_all add: absent)
  qed (rule station(1))
qed

definition radar_doc :: json where
  "radar_doc = JObject
    [(''geometry'', JObject [(''type'', JString ''Point''),
        (''coordinates'', JArray [JNumber (Fin True 96), JNumber (Fin False 36)])]),
     (''properties'', JObject [(''latitude'', JNumber (Fin False 35)), (''longitude'', JNumber (Fin True 97))])]"

theorem radar_precedence_witness:
  "radar_longitude (properties (snd (deserialize_radar_station_feature (\<lambda>_. Inr radar_doc) []
     (default_GeoJsonFeature default_RadarStationProperties)))) = Fin True 97"
proof -
  let ?props = "[(''latitude'', JNumber (Fin False 35)), (''longitude'', JNumber (Fin True 97))]"
  obtain doc where doc: "radar_doc = JObject doc" "map_of doc ''properties'' = Some (JObject ?props)"
    by (simp add: radar_doc_def)
  from radar_precedence [of "\<lambda>_. Inr radar_doc" "[]" doc ?props _ "fst _" "snd _", OF _ doc(2) surjective_pairing] doc(1)
  show ?thesis by simp
qed

end
