(* ===== verification/Model_Weather.thy ===== *)
theory Model_Weather
  imports Json_Walk
begin

text \<open>
  The models of weather data: forecasts, observations, gridpoint layers, alerts and aviation
  products (\<open>include/nws/models\<close> and \<open>src/models\<close>), with their deserializers. The only formatting the
  deserializers do, of a wind speed given as a number, goes through \<open>std::to_chars\<close>, an argument of
  the definitions that use it.
\<close>

section \<open>Forecasts\<close>

record ForecastPeriod =
  number :: int
  is_daytime :: bool
  name :: string
  start_time :: string
  end_time :: string
  temperature :: int
  temperature_unit :: string
  temperature_trend :: "string option"
  probability_of_precipitation :: QuantitativeValue
  wind_speed :: string
  wind_direction :: string
  icon :: string
  short_forecast :: string
  detailed_forecast :: string

record ForecastProperties =
  update_time :: string
  generated_at :: string
  elevation :: QuantitativeValue
  periods :: "ForecastPeriod list"

type_synonym ForecastResponse = "ForecastProperties GeoJsonFeature"

definition default_ForecastPeriod :: ForecastPeriod where
  "default_ForecastPeriod =
     \<lparr>number = 0, is_daytime = True, name = [], start_time = [], end_time = [], temperature = 0,
      temperature_unit = [], temperature_trend = None,
      probability_of_precipitation = default_QuantitativeValue, wind_speed = [], wind_direction = [],
      icon = [], short_forecast = [], detailed_forecast = []\<rparr>"

definition default_ForecastProperties :: ForecastProperties where
  "default_ForecastProperties =
     \<lparr>update_time = [], generated_at = [], elevation = default_QuantitativeValue, periods = []\<rparr>"

text \<open>
  \<open>to_chars\<close> renders a finite double into the 64-byte buffer, or fails (\<open>None\<close>). The wind speed is
  text or a quantity; a failed rendering ends the function before the last four fields.
\<close>

type_synonym double_printer = "double \<Rightarrow> string option"

definition wind_speed_text :: "double_printer \<Rightarrow> json \<Rightarrow> string \<Rightarrow> string option" where
  "wind_speed_text to_chars node old =
    (case lookup node ''windSpeed'' of
       Some (JString s) \<Rightarrow> Some s
     | Some (JObject ms) \<Rightarrow>
         (case get_optional_double (JObject ms) ''value'' of
            Some v \<Rightarrow>
              if isfinite v
              then (case to_chars v of
                      None \<Rightarrow> None
                    | Some t \<Rightarrow>
                        let u = get_string (JObject ms) ''unitCode''
                        in Some (if u \<noteq> [] then t @ '' '' @ u else t))
              else Some old
          | None \<Rightarrow> Some old)
     | _ \<Rightarrow> Some old)"

definition populate_forecast_period :: "double_printer \<Rightarrow> json \<Rightarrow> ForecastPeriod \<Rightarrow> ForecastPeriod" where
  "populate_forecast_period to_chars node p =
    (let p = p\<lparr>number := get_int node ''number'' 0, name := get_string node ''name'',
               start_time := get_string node ''startTime'', end_time := get_string node ''endTime'',
               is_daytime := get_bool node ''isDaytime'' True,
               temperature := get_int node ''temperature'' 0,
               temperature_unit := get_string node ''temperatureUnit'',
               temperature_trend := get_optional_string node ''temperatureTrend'',
               probability_of_precipitation :=
                 parse_qv_field node ''probabilityOfPrecipitation'' (probability_of_precipitation p)\<rparr>
     in case wind_speed_text to_chars node (wind_speed p) of
          None \<Rightarrow> p
        | Some ws \<Rightarrow>
            p\<lparr>wind_speed := ws, wind_direction := get_string node ''windDirection'',
              icon := get_string node ''icon'', short_forecast := get_string node ''shortForecast'',
              detailed_forecast := get_string node ''detailedForecast''\<rparr>)"

definition populate_forecast_properties :: "double_printer \<Rightarrow> json \<Rightarrow> ForecastProperties \<Rightarrow> ForecastProperties" where
  "populate_forecast_properties to_chars props p =
    (let p = p\<lparr>update_time := get_string props ''updateTime'', generated_at := get_string props ''generatedAt'',
               elevation := parse_qv_field props ''elevation'' (elevation p)\<rparr>
     in case find_array props ''periods'' of
          None \<Rightarrow> p
        | Some arr \<Rightarrow>
            p\<lparr>periods := map (\<lambda>period_json. populate_forecast_period to_chars period_json default_ForecastPeriod) arr\<rparr>)"

definition deserialize_forecast_response ::
  "double_printer \<Rightarrow> json_reader \<Rightarrow> string \<Rightarrow> ForecastResponse \<Rightarrow> unit result \<times> ForecastResponse" where
  "deserialize_forecast_response to_chars =
     read_into (\<lambda>tree. populate_feature (populate_forecast_properties to_chars) tree
       (default_GeoJsonFeature default_ForecastProperties))"

section \<open>Observations\<close>

record CloudLayer =
  cloud_base :: QuantitativeValue
  amount :: string

record ObservationProperties =
  observation_id :: string
  station_url :: string
  station_id :: string
  station_name :: string
  timestamp :: string
  raw_message :: string
  text_description :: string
  icon :: string
  elevation :: QuantitativeValue
  temperature :: QuantitativeValue
  dewpoint :: QuantitativeValue
  wind_direction :: QuantitativeValue
  wind_speed :: QuantitativeValue
  wind_gust :: QuantitativeValue
  barometric_pressure :: QuantitativeValue
  sea_level_pressure :: QuantitativeValue
  visibility :: QuantitativeValue
  relative_humidity :: QuantitativeValue
  wind_chill :: QuantitativeValue
  heat_index :: QuantitativeValue
  precipitation_last_hour :: QuantitativeValue
  precipitation_last_3_hours :: QuantitativeValue
  precipitation_last_6_hours :: QuantitativeValue
  max_temperature_last_24_hours :: QuantitativeValue
  min_temperature_last_24_hours :: QuantitativeValue
  cloud_layers :: "CloudLayer list"

type_synonym ObservationResponse = "ObservationProperties GeoJsonFeature"
type_synonym ObservationCollectionResponse = "ObservationProperties GeoJsonFeatureCollection"

definition default_ObservationProperties :: ObservationProperties where
  "default_ObservationProperties =
     (let q = default_QuantitativeValue
      in \<lparr>observation_id = [], station_url = [], station_id = [], station_name = [], timestamp = [],
          raw_message = [], text_description = [], icon = [], elevation = q, temperature = q, dewpoint = q,
          wind_direction = q, wind_speed = q, wind_gust = q, barometric_pressure = q,
          sea_level_pressure = q, visibility = q, relative_humidity = q, wind_chill = q, heat_index = q,
          precipitation_last_hour = q, precipitation_last_3_hours = q, precipitation_last_6_hours = q,
          max_temperature_last_24_hours = q, min_temperature_last_24_hours = q, cloud_layers = []\<rparr>)"

definition populate_cloud_layer :: "json \<Rightarrow> CloudLayer" where
  "populate_cloud_layer cl_json =
     \<lparr>cloud_base = parse_qv_field cl_json ''base'' default_QuantitativeValue,
      amount = get_string cl_json ''amount''\<rparr>"

definition populate_observation_properties :: "json \<Rightarrow> ObservationProperties \<Rightarrow> ObservationProperties" where
  "populate_observation_properties props p =
    (let p = p\<lparr>observation_id := get_string props ''@id'', station_url := get_string props ''station'',
               station_id := get_string props ''stationId'', station_name := get_string props ''stationName'',
               timestamp := get_string props ''timestamp'', raw_message := get_string props ''rawMessage'',
               text_description := get_string props ''textDescription'', icon := get_string props ''icon''\<rparr>;
         p = p\<lparr>elevation := parse_qv_field props ''elevation'' (elevation p),
               temperature := parse_qv_field props ''temperature'' (temperature p),
               dewpoint := parse_qv_field props ''dewpoint'' (dewpoint p),
               wind_direction := parse_qv_field props ''windDirection'' (wind_direction p),
               wind_speed := parse_qv_field props ''windSpeed'' (wind_speed p),
               wind_gust := parse_qv_field props ''windGust'' (wind_gust p),
               barometric_pressure := parse_qv_field props ''barometricPressure'' (barometric_pressure p),
               sea_level_pressure := parse_qv_field props ''seaLevelPressure'' (sea_level_pressure p),
               visibility := parse_qv_field props ''visibility'' (visibility p),
               relative_humidity := parse_qv_field props ''relativeHumidity'' (relative_humidity p),
               wind_chill := parse_qv_field props ''windChill'' (wind_chill p),
               heat_index := parse_qv_field props ''heatIndex'' (heat_index p),
               precipitation_last_hour :=
                 parse_qv_field props ''precipitationLastHour'' (precipitation_last_hour p),
               precipitation_last_3_hours :=
                 parse_qv_field props ''precipitationLast3Hours'' (precipitation_last_3_hours p),
               precipitation_last_6_hours :=
                 parse_qv_field props ''precipitationLast6Hours'' (precipitation_last_6_hours p),
               max_temperature_last_24_hours :=
                 parse_qv_field props ''maxTemperatureLast24Hours'' (max_temperature_last_24_hours p),
               min_temperature_last_24_hours :=
                 parse_qv_field props ''minTemperatureLast24Hours'' (min_temperature_last_24_hours p)\<rparr>
     in case find_array props ''cloudLayers'' of
          None \<Rightarrow> p
        | Some arr \<Rightarrow> p\<lparr>cloud_layers := cloud_layers p @ map populate_cloud_layer arr\<rparr>)"

definition populate_observation_response :: "json \<Rightarrow> ObservationResponse \<Rightarrow> ObservationResponse" where
  "populate_observation_response = populate_feature populate_observation_properties"

definition deserialize_observation_response ::
  "json_reader \<Rightarrow> string \<Rightarrow> ObservationResponse \<Rightarrow> unit result \<times> ObservationResponse" where
  "deserialize_observation_response =
     read_into (\<lambda>tree. populate_observation_response tree (default_GeoJsonFeature default_ObservationProperties))"

definition deserialize_observation_collection ::
  "json_reader \<Rightarrow> string \<Rightarrow> ObservationCollectionResponse \<Rightarrow> unit result \<times> ObservationCollectionResponse" where
  "deserialize_observation_collection =
     read_into (populate_collection
       (\<lambda>feat. populate_observation_response feat (default_GeoJsonFeature default_ObservationProperties)))"

section \<open>Gridpoints\<close>

record GridpointTimeValue =
  valid_time :: string
  time_value :: "double option"

record GridpointLayer =
  uom :: string
  layer_unit :: Unit
  layer_values :: "GridpointTimeValue list"

record GridpointProperties =
  update_time :: string
  valid_times :: string
  elevation :: QuantitativeValue
  grid_id :: string
  grid_x :: int
  grid_y :: int
  temperature :: "GridpointLayer option"
  dewpoint :: "GridpointLayer option"
  max_temperature :: "GridpointLayer option"
  min_temperature :: "GridpointLayer option"
  relative_humidity :: "GridpointLayer option"
  apparent_temperature :: "GridpointLayer option"
  heat_index :: "GridpointLayer option"
  wind_chill :: "GridpointLayer option"
  sky_cover :: "GridpointLayer option"
  wind_direction :: "GridpointLayer option"
  wind_speed :: "GridpointLayer option"
  wind_gust :: "GridpointLayer option"
  probability_of_precipitation :: "GridpointLayer option"
  quantitative_precipitation :: "GridpointLayer option"
  ice_accumulation :: "GridpointLayer option"
  snowfall_amount :: "GridpointLayer option"
  ceiling_height :: "GridpointLayer option"
  visibility :: "GridpointLayer option"
  pressure :: "GridpointLayer option"

type_synonym GridpointResponse = "GridpointProperties GeoJsonFeature"

definition default_GridpointProperties :: GridpointProperties where
  "default_GridpointProperties =
     \<lparr>update_time = [], valid_times = [], elevation = default_QuantitativeValue, grid_id = [], grid_x = 0,
      grid_y = 0, temperature = None, dewpoint = None, max_temperature = None, min_temperature = None,
      relative_humidity = None, apparent_temperature = None, heat_index = None, wind_chill = None,
      sky_cover = None, wind_direction = None, wind_speed = None, wind_gust = None,
      probability_of_precipitation = None, quantitative_precipitation = None, ice_accumulation = None,
      snowfall_amount = None, ceiling_height = None, visibility = None, pressure = None\<rparr>"

definition populate_layer :: "json \<Rightarrow> GridpointLayer \<Rightarrow> GridpointLayer" where
  "populate_layer node layer =
    (let u = get_string node ''uom''; layer = layer\<lparr>uom := u, layer_unit := parse_unit_code u\<rparr>
     in case find_array node ''values'' of
          None \<Rightarrow> layer
        | Some arr \<Rightarrow>
            layer\<lparr>layer_values := map (\<lambda>v. \<lparr>valid_time = get_string v ''validTime'',
                     time_value = get_optional_double v ''value''\<rparr>) arr\<rparr>)"

definition maybe_layer :: "json \<Rightarrow> string \<Rightarrow> GridpointLayer option \<Rightarrow> GridpointLayer option" where
  "maybe_layer props key target =
    (case find_object props key of
       None \<Rightarrow> target
     | Some node \<Rightarrow> Some (populate_layer node \<lparr>uom = [], layer_unit = Unit.Unknown, layer_values = []\<rparr>))"

definition populate_gridpoint_properties :: "json \<Rightarrow> GridpointProperties \<Rightarrow> GridpointProperties" where
  "populate_gridpoint_properties props p =
    (let p = p\<lparr>update_time := get_string props ''updateTime'', valid_times := get_string props ''validTimes'',
               grid_id := get_string props ''gridId'', grid_x := get_int props ''gridX'' 0,
               grid_y := get_int props ''gridY'' 0,
               elevation := parse_qv_field props ''elevation'' (elevation p)\<rparr>
     in p\<lparr>temperature := maybe_layer props ''temperature'' (temperature p),
          dewpoint := maybe_layer props ''dewpoint'' (dewpoint p),
          max_temperature := maybe_layer props ''maxTemperature'' (max_temperature p),
          min_temperature := maybe_layer props ''minTemperature'' (min_temperature p),
          relative_humidity := maybe_layer props ''relativeHumidity'' (relative_humidity p),
          apparent_temperature := maybe_layer props ''apparentTemperature'' (apparent_temperature p),
          heat_index := maybe_layer props ''heatIndex'' (heat_index p),
          wind_chill := maybe_layer props ''windChill'' (wind_chill p),
          sky_cover := maybe_layer props ''skyCover'' (sky_cover p),
          wind_direction := maybe_layer props ''windDirection'' (wind_direction p),
          wind_speed := maybe_layer props ''windSpeed'' (wind_speed p),
          wind_gust := maybe_layer props ''windGust'' (wind_gust p),
          probability_of_precipitation :=
            maybe_layer props ''probabilityOfPrecipitation'' (probability_of_precipitation p),
          quantitative_precipitation :=
            maybe_layer props ''quantitativePrecipitation'' (quantitative_precipitation p),
          ice_accumulation := maybe_layer props ''iceAccumulation'' (ice_accumulation p),
          snowfall_amount := maybe_layer props ''snowfallAmount'' (snowfall_amount p),
          ceiling_height := maybe_layer props ''ceilingHeight'' (ceiling_height p),
          visibility := maybe_layer props ''visibility'' (visibility p),
          pressure := maybe_layer props ''pressure'' (pressure p)\<rparr>)"

definition deserialize_gridpoint_response ::
  "json_reader \<Rightarrow> string \<Rightarrow> GridpointResponse \<Rightarrow> unit result \<times> GridpointResponse" where
  "deserialize_gridpoint_response =
     read_into (\<lambda>tree. populate_feature populate_gridpoint_properties tree
       (default_GeoJsonFeature default_GridpointProperties))"

section \<open>Alerts\<close>

datatype AlertSeverity = Extreme | Severe | Moderate | Minor | Unknown

datatype AlertCertainty = Observed | Likely | Possible | Unlikely | Unknown

datatype AlertUrgency = Immediate | Expected | Future | Past | Unknown

datatype AlertStatus = Actual | Exercise | System | Test | Draft

datatype AlertMessageType = Alert | Update | Cancel | Ack | Error

definition parse_alert_severity :: "string \<Rightarrow> AlertSeverity" where
  "parse_alert_severity s =
    (if s = ''Extreme'' then AlertSeverity.Extreme
     else if s = ''Severe'' then AlertSeverity.Severe
     else if s = ''Moderate'' then AlertSeverity.Moderate
     else if s = ''Minor'' then AlertSeverity.Minor
     else AlertSeverity.Unknown)"

definition parse_alert_certainty :: "string \<Rightarrow> AlertCertainty" where
  "parse_alert_certainty s =
    (if s = ''Observed'' then AlertCertainty.Observed
     else if s = ''Likely'' then AlertCertainty.Likely
     else if s = ''Possible'' then AlertCertainty.Possible
     else if s = ''Unlikely'' then AlertCertainty.Unlikely
     else AlertCertainty.Unknown)"

definition parse_alert_urgency :: "string \<Rightarrow> AlertUrgency" where
  "parse_alert_urgency s =
    (if s = ''Immediate'' then AlertUrgency.Immediate
     else if s = ''Expected'' then AlertUrgency.Expected
     else if s = ''Future'' then AlertUrgency.Future
     else if s = ''Past'' then AlertUrgency.Past
     else AlertUrgency.Unknown)"

definition parse_alert_status :: "string \<Rightarrow> AlertStatus" where
  "parse_alert_status s =
    (if s = ''Actual'' then AlertStatus.Actual
     else if s = ''Exercise'' then AlertStatus.Exercise
     else if s = ''System'' then AlertStatus.System
     else if s = ''Test'' then AlertStatus.Test
     else if s = ''Draft'' then AlertStatus.Draft
     else AlertStatus.Actual)"

definition parse_alert_message_type :: "string \<Rightarrow> AlertMessageType" where
  "parse_alert_message_type s =
    (if s = ''Alert'' then AlertMessageType.Alert
     else if s = ''Update'' then AlertMessageType.Update
     else if s = ''Cancel'' then AlertMessageType.Cancel
     else if s = ''Ack'' then AlertMessageType.Ack
     else if s = ''Error'' then AlertMessageType.Error
     else AlertMessageType.Alert)"

fun to_string_AlertSeverity :: "AlertSeverity \<Rightarrow> string" where
  "to_string_AlertSeverity AlertSeverity.Extreme = ''Extreme''"
| "to_string_AlertSeverity AlertSeverity.Severe = ''Severe''"
| "to_string_AlertSeverity AlertSeverity.Moderate = ''Moderate''"
| "to_string_AlertSeverity AlertSeverity.Minor = ''Minor''"
| "to_string_AlertSeverity AlertSeverity.Unknown = ''Unknown''"

fun to_string_AlertCertainty :: "AlertCertainty \<Rightarrow> string" where
  "to_string_AlertCertainty AlertCertainty.Observed = ''Observed''"
| "to_string_AlertCertainty AlertCertainty.Likely = ''Likely''"
| "to_string_AlertCertainty AlertCertainty.Possible = ''Possible''"
| "to_string_AlertCertainty AlertCertainty.Unlikely = ''Unlikely''"
| "to_string_AlertCertainty AlertCertainty.Unknown = ''Unknown''"

fun to_string_AlertUrgency :: "AlertUrgency \<Rightarrow> string" where
  "to_string_AlertUrgency AlertUrgency.Immediate = ''Immediate''"
| "to_string_AlertUrgency AlertUrgency.Expected = ''Expected''"
| "to_string_AlertUrgency AlertUrgency.Future = ''Future''"
| "to_string_AlertUrgency AlertUrgency.Past = ''Past''"
| "to_string_AlertUrgency AlertUrgency.Unknown = ''Unknown''"

record AlertGeocodes =
  ugc :: "string list"
  same :: "string list"

record AlertProperties =
  alert_id :: string
  area_desc :: string
  geocode :: AlertGeocodes
  affected_zones :: "string list"
  sent :: string
  effective :: string
  onset :: "string option"
  expires :: string
  ends :: "string option"
  status :: AlertStatus
  message_type :: AlertMessageType
  category :: string
  severity :: AlertSeverity
  certainty :: AlertCertainty
  urgency :: AlertUrgency
  event :: string
  sender :: string
  sender_name :: string
  headline :: "string option"
  description :: string
  instruction :: "string option"
  alert_response :: string

type_synonym AlertFeature = "AlertProperties GeoJsonFeature"
type_synonym AlertCollectionResponse = "AlertProperties GeoJsonFeatureCollection"

record AlertActiveCount =
  total :: int
  land :: int
  marine :: int
  regions :: "string \<rightharpoonup> int"
  areas :: "string \<rightharpoonup> int"
  zones :: "string \<rightharpoonup> int"

definition default_AlertProperties :: AlertProperties where
  "default_AlertProperties =
     \<lparr>alert_id = [], area_desc = [], geocode = \<lparr>ugc = [], same = []\<rparr>, affected_zones = [], sent = [],
      effective = [], onset = None, expires = [], ends = None, status = AlertStatus.Actual,
      message_type = AlertMessageType.Alert, category = [], severity = AlertSeverity.Unknown,
      certainty = AlertCertainty.Unknown, urgency = AlertUrgency.Unknown, event = [], sender = [],
      sender_name = [], headline = None, description = [], instruction = None, alert_response = []\<rparr>"

definition default_AlertActiveCount :: AlertActiveCount where
  "default_AlertActiveCount =
     \<lparr>total = 0, land = 0, marine = 0, regions = Map.empty, areas = Map.empty, zones = Map.empty\<rparr>"

definition populate_alert_properties :: "json \<Rightarrow> AlertProperties \<Rightarrow> AlertProperties" where
  "populate_alert_properties props p =
    (let p = p\<lparr>alert_id := get_string props ''id'', area_desc := get_string props ''areaDesc''\<rparr>;
         p = (case find_object props ''geocode'' of
                None \<Rightarrow> p
              | Some g \<Rightarrow> p\<lparr>geocode := (geocode p)\<lparr>ugc := get_string_array g ''UGC'',
                              same := get_string_array g ''SAME''\<rparr>\<rparr>)
     in p\<lparr>affected_zones := get_string_array props ''affectedZones'',
          sent := get_string props ''sent'', effective := get_string props ''effective'',
          onset := get_optional_string props ''onset'', expires := get_string props ''expires'',
          ends := get_optional_string props ''ends'',
          status := parse_alert_status (get_string props ''status''),
          message_type := parse_alert_message_type (get_string props ''messageType''),
          category := get_string props ''category'',
          severity := parse_alert_severity (get_string props ''severity''),
          certainty := parse_alert_certainty (get_string props ''certainty''),
          urgency := parse_alert_urgency (get_string props ''urgency''),
          event := get_string props ''event'', sender := get_string props ''sender'',
          sender_name := get_string props ''senderName'',
          headline := get_optional_string props ''headline'',
          description := get_string props ''description'',
          instruction := get_optional_string props ''instruction'',
          alert_response := get_string props ''response''\<rparr>)"

definition populate_alert_feature :: "json \<Rightarrow> AlertFeature \<Rightarrow> AlertFeature" where
  "populate_alert_feature = populate_feature populate_alert_properties"

fun add_count :: "string \<times> json \<Rightarrow> (string \<rightharpoonup> int) \<Rightarrow> (string \<rightharpoonup> int)" where
  "add_count (k, JNumber n) out =
     (if dle (dlit (- 2147483648)) n \<and> dle n (dlit 2147483647) then out(k \<mapsto> dtrunc n) else out)"
| "add_count _ out = out"

definition populate_string_int_map :: "json \<Rightarrow> string \<Rightarrow> (string \<rightharpoonup> int) \<Rightarrow> (string \<rightharpoonup> int)" where
  "populate_string_int_map parent key out =
    (case find_object parent key of
       Some (JObject ms) \<Rightarrow> fold add_count ms out
     | _ \<Rightarrow> out)"

definition deserialize_alert_feature ::
  "json_reader \<Rightarrow> string \<Rightarrow> AlertFeature \<Rightarrow> unit result \<times> AlertFeature" where
  "deserialize_alert_feature =
     read_into (\<lambda>tree. populate_alert_feature tree (default_GeoJsonFeature default_AlertProperties))"

definition deserialize_alert_collection ::
  "json_reader \<Rightarrow> string \<Rightarrow> AlertCollectionResponse \<Rightarrow> unit result \<times> AlertCollectionResponse" where
  "deserialize_alert_collection =
     read_into (populate_collection
       (\<lambda>feat. populate_alert_feature feat (default_GeoJsonFeature default_AlertProperties)))"

definition deserialize_alert_active_count ::
  "json_reader \<Rightarrow> string \<Rightarrow> AlertActiveCount \<Rightarrow> unit result \<times> AlertActiveCount" where
  "deserialize_alert_active_count =
     read_into (\<lambda>tree.
       let out = default_AlertActiveCount
       in out\<lparr>total := get_int tree ''total'' 0, land := get_int tree ''land'' 0,
              marine := get_int tree ''marine'' 0,
              regions := populate_string_int_map tree ''regions'' (regions out),
              areas := populate_string_int_map tree ''areas'' (areas out),
              zones := populate_string_int_map tree ''zones'' (zones out)\<rparr>)"

section \<open>Aviation\<close>

record SigmetProperties =
  sigmet_id :: string
  atsu :: string
  sequence :: string
  phenomenon :: string
  valid_time_from :: string
  valid_time_to :: string

type_synonym SigmetFeature = "SigmetProperties GeoJsonFeature"
type_synonym SigmetCollectionResponse = "SigmetProperties GeoJsonFeatureCollection"

definition default_SigmetProperties :: SigmetProperties where
  "default_SigmetProperties =
     \<lparr>sigmet_id = [], atsu = [], sequence = [], phenomenon = [], valid_time_from = [], valid_time_to = []\<rparr>"

definition populate_sigmet_properties :: "json \<Rightarrow> SigmetProperties \<Rightarrow> SigmetProperties" where
  "populate_sigmet_properties props p =
     p\<lparr>sigmet_id := get_string props ''id'', atsu := get_string props ''atsu'',
       sequence := get_string props ''sequence'', phenomenon := get_string props ''phenomenon'',
       valid_time_from := get_string props ''validTimeFrom'',
       valid_time_to := get_string props ''validTimeTo''\<rparr>"

definition populate_sigmet_feature :: "json \<Rightarrow> SigmetFeature \<Rightarrow> SigmetFeature" where
  "populate_sigmet_feature = populate_feature populate_sigmet_properties"

record CWAProperties =
  cwa_id :: string
  cwsu :: string
  sequence :: string
  advisory_text :: string
  valid_time_from :: string
  valid_time_to :: string

type_synonym CWAFeature = "CWAProperties GeoJsonFeature"
type_synonym CWACollectionResponse = "CWAProperties GeoJsonFeatureCollection"

definition default_CWAProperties :: CWAProperties where
  "default_CWAProperties =
     \<lparr>cwa_id = [], cwsu = [], sequence = [], advisory_text = [], valid_time_from = [], valid_time_to = []\<rparr>"

definition populate_cwa_properties :: "json \<Rightarrow> CWAProperties \<Rightarrow> CWAProperties" where
  "populate_cwa_properties props p =
     p\<lparr>cwa_id := get_string props ''id'', cwsu := get_string props ''cwsu'',
       sequence := get_string props ''sequence'', advisory_text := get_string props ''text'',
       valid_time_from := get_string props ''validTimeFrom'',
       valid_time_to := get_string props ''validTimeTo''\<rparr>"

definition populate_cwa_feature :: "json \<Rightarrow> CWAFeature \<Rightarrow> CWAFeature" where
  "populate_cwa_feature = populate_feature populate_cwa_properties"

definition deserialize_sigmet_feature ::
  "json_reader \<Rightarrow> string \<Rightarrow> SigmetFeature \<Rightarrow> unit result \<times> SigmetFeature" where
  "deserialize_sigmet_feature =
     read_into (\<lambda>tree. populate_sigmet_feature tree (default_GeoJsonFeature default_SigmetProperties))"

definition deserialize_sigmet_collection ::
  "json_reader \<Rightarrow> string \<Rightarrow> SigmetCollectionResponse \<Rightarrow> unit result \<times> SigmetCollectionResponse" where
  "deserialize_sigmet_collection =
     read_into (populate_collection
       (\<lambda>feat. populate_sigmet_feature feat (default_GeoJsonFeature default_SigmetProperties)))"

definition deserialize_cwa_feature ::
  "json_reader \<Rightarrow> string \<Rightarrow> CWAFeature \<Rightarrow> unit result \<times> CWAFeature" where
  "deserialize_cwa_feature =
     read_into (\<lambda>tree. populate_cwa_feature tree (default_GeoJsonFeature default_CWAProperties))"

definition deserialize_cwa_collection ::
  "json_reader \<Rightarrow> string \<Rightarrow> CWACollectionResponse \<Rightarrow> unit result \<times> CWACollectionResponse" where
  "deserialize_cwa_collection =
     read_into (populate_collection
       (\<lambda>feat. populate_cwa_feature feat (default_GeoJsonFeature default_CWAProperties)))"

section \<open>Lemmas\<close>

text \<open>The fold over the members keeps what was there and adds the numbers that fit.\<close>

definition fits_int32 :: "double \<Rightarrow> bool" where
  "fits_int32 n \<longleftrightarrow> dle (dlit (- 2147483648)) n \<and> dle n (dlit 2147483647)"

lemma fold_add_count:
  "distinct (map fst ms) \<Longrightarrow>
   fold add_count ms out k =
     (case map_of ms k of Some (JNumber n) \<Rightarrow> if fits_int32 n then Some (dtrunc n) else out k | _ \<Rightarrow> out k)"
proof (induction ms arbitrary: out)
  case (Cons m ms)
  obtain a j where m: "m = (a, j)" by (cases m)
  have a: "map_of ms a = None" using Cons.prems m by (simp add: map_of_eq_None_iff)
  show ?case
    using Cons a m by (cases j) (auto simp: fits_int32_def split: option.splits json.splits)
qed simp

section \<open>Properties\<close>

text \<open>
  Every deserializer of this group succeeds exactly on well-formed JSON, leaves the destination
  untouched when it fails (with a parse error), and leaves no trace of the destination's former
  content when it succeeds.
\<close>

theorem weather_deserializers_replace:
  "replaces_destination (deserialize_forecast_response to_chars) \<and>
   replaces_destination deserialize_observation_response \<and>
   replaces_destination deserialize_observation_collection \<and>
   replaces_destination deserialize_gridpoint_response \<and>
   replaces_destination deserialize_alert_feature \<and>
   replaces_destination deserialize_alert_collection \<and>
   replaces_destination deserialize_alert_active_count \<and>
   replaces_destination deserialize_sigmet_feature \<and>
   replaces_destination deserialize_sigmet_collection \<and>
   replaces_destination deserialize_cwa_feature \<and>
   replaces_destination deserialize_cwa_collection"
  unfolding deserialize_forecast_response_def deserialize_observation_response_def
    deserialize_observation_collection_def deserialize_gridpoint_response_def
    deserialize_alert_feature_def deserialize_alert_collection_def deserialize_alert_active_count_def
    deserialize_sigmet_feature_def deserialize_sigmet_collection_def deserialize_cwa_feature_def
    deserialize_cwa_collection_def
  by (intro conjI reader.contract)

text \<open>
  The names of severities, certainties and urgencies print and parse back, and only the known
  names parse to anything but \<open>Unknown\<close>: an alert of unknown severity is never taken for a known one.
\<close>

theorem alert_enum_roundtrip:
  "parse_alert_severity (to_string_AlertSeverity sev) = sev \<and>
   parse_alert_certainty (to_string_AlertCertainty cert) = cert \<and>
   parse_alert_urgency (to_string_AlertUrgency urg) = urg \<and>
   (parse_alert_severity s \<noteq> AlertSeverity.Unknown \<longrightarrow> to_string_AlertSeverity (parse_alert_severity s) = s) \<and>
   (parse_alert_certainty s \<noteq> AlertCertainty.Unknown \<longrightarrow> to_string_AlertCertainty (parse_alert_certainty s) = s) \<and>
   (parse_alert_urgency s \<noteq> AlertUrgency.Unknown \<longrightarrow> to_string_AlertUrgency (parse_alert_urgency s) = s)"
proof (intro conjI)
  show "parse_alert_severity (to_string_AlertSeverity sev) = sev"
    by (cases sev) (simp_all add: parse_alert_severity_def)
  show "parse_alert_certainty (to_string_AlertCertainty cert) = cert"
    by (cases cert) (simp_all add: parse_alert_certainty_def)
  show "parse_alert_urgency (to_string_AlertUrgency urg) = urg"
    by (cases urg) (simp_all add: parse_alert_urgency_def)
qed (simp_all add: parse_alert_severity_def parse_alert_certainty_def parse_alert_urgency_def)

theorem alert_enum_roundtrip_witness:
  "parse_alert_severity ''Severe'' \<noteq> AlertSeverity.Unknown \<and>
   to_string_AlertSeverity (parse_alert_severity ''Severe'') = ''Severe''"
  using alert_enum_roundtrip [of AlertSeverity.Severe AlertCertainty.Likely AlertUrgency.Past "''Severe''"]
  by (simp add: parse_alert_severity_def)

text \<open>
  The per-area alert counts hold exactly the numeric members that fit a 32-bit integer, truncated
  towards zero; every other member is skipped.
\<close>

theorem alert_counts:
  assumes "find_object tree key = Some (JObject ms)" and "distinct (map fst ms)"
  shows "populate_string_int_map tree key Map.empty k = Some i \<longleftrightarrow>
         (\<exists>n. map_of ms k = Some (JNumber n) \<and> fits_int32 n \<and> i = dtrunc n)"
  using fold_add_count [OF assms(2), of Map.empty k] assms(1)
  by (auto simp: populate_string_int_map_def split: option.splits json.splits if_splits)

theorem alert_counts_witness:
  "populate_string_int_map (JObject [(''areas'', JObject [(''OK'', JNumber (Fin False 3)), (''TX'', JNull)])])
     ''areas'' Map.empty ''OK'' = Some 3"
proof -
  have "fits_int32 (Fin False 3)" by (simp add: fits_int32_def int32_bounds)
  then show ?thesis
    using alert_counts [of "JObject [(''areas'', JObject [(''OK'', JNumber (Fin False 3)), (''TX'', JNull)])]"
        "''areas''" "[(''OK'', JNumber (Fin False 3)), (''TX'', JNull)]" "''OK''" 3]
    by (simp add: find_object_def json_simps)
qed

end
