(* ===== verification/Nws_Client.thy ===== *)
theory Nws_Client
  imports Retry Rate_Limit Lru_Cache Url_Encode Model_Location Model_Weather
begin

text \<open>
  The REST client (\<open>include/nws/api.hpp\<close>, \<open>src/api/client.cpp\<close>): the request pipeline (a token of the
  rate limiter, the HTTP transfer, retries), the translation of a response into a body or an error,
  the query builders and paths, every endpoint, and the point cache. The libraries and the machine
  the client runs on are one record of parameters.
\<close>

section \<open>State\<close>

text \<open>
  Everything outside the sources: clock and sleep, the jitter generator, libcurl, the JSON reader,
  \<open>std::to_chars\<close> and \<open>std::format\<close> of a double.
\<close>

record 'w platform =
  clock :: "'w env"
  jitter :: "'w draw"
  libcurl :: "'w curl"
  json_read :: json_reader
  to_chars :: double_printer
  format_double :: "double \<Rightarrow> string"

record NWSClientConfig =
  http :: ClientConfig
  rate_limit :: RateLimiterConfig
  retry :: RetryPolicy
  cache :: LruCacheConfig
  enable_cache :: bool

record NWSClient =
  http_client :: HttpClient
  rate_limiter :: RateLimiter
  retry_policy :: RetryPolicy
  points_cache :: "(CoordinateKey, PointResponse) LruCache option"

definition make_NWSClient :: "bool \<Rightarrow> bool \<Rightarrow> NWSClientConfig \<Rightarrow> nanoseconds \<Rightarrow> NWSClient" where
  "make_NWSClient global_ok init_ok config now =
     \<lparr>http_client = make_HttpClient global_ok init_ok (http config),
      rate_limiter = make_RateLimiter (rate_limit config) now,
      retry_policy = retry config,
      points_cache =
        (if enable_cache config
         then Some (make_LruCache \<lparr>max_entries = max_entries (cache config), ttl = ttl (cache config)\<rparr>)
         else None)\<rparr>"

section \<open>The request pipeline\<close>

text \<open>The retried lambda works on the limiter and the outside world.\<close>

definition lift_env :: "'w env \<Rightarrow> ('s \<times> 'w) env" where
  "lift_env env =
     \<lparr>steady_now = (\<lambda>(s, w). case steady_now env w of (now, w) \<Rightarrow> (now, s, w)),
      sleep_for = (\<lambda>d (s, w). (s, sleep_for env d w))\<rparr>"

definition lift_draw :: "'w draw \<Rightarrow> ('s \<times> 'w) draw" where
  "lift_draw draw = (\<lambda>lo hi (s, w). case draw lo hi w of (x, w) \<Rightarrow> (x, s, w))"

definition request_once ::
  "'w platform \<Rightarrow> HttpClient \<Rightarrow> string \<Rightarrow> RateLimiter \<times> 'w \<Rightarrow> (HttpResponse result \<times> RateLimiter \<times> 'w) option" where
  "request_once P hc path = (\<lambda>(rl, w).
     case acquire (clock P) rl w of
       None \<Rightarrow> None
     | Some (ok, rl, w) \<Rightarrow>
         if \<not> ok then Some (Inl (Error_rate_limited ''Timed out waiting for an NWS request token''), rl, w)
         else case HttpClient_get (libcurl P) hc path w of (r, w) \<Rightarrow> Some (r, rl, w))"

definition do_get ::
  "'w platform \<Rightarrow> string \<Rightarrow> NWSClient \<Rightarrow> 'w \<Rightarrow> (HttpResponse result \<times> NWSClient \<times> 'w) option" where
  "do_get P path c w =
    (case with_retry (lift_env (clock P)) (lift_draw (jitter P)) (request_once P (http_client c) path)
            (retry_policy c) (rate_limiter c, w) of
       None \<Rightarrow> None
     | Some (r, rl, w) \<Rightarrow> Some (r, c\<lparr>rate_limiter := rl\<rparr>, w))"

section \<open>Query strings\<close>

type_synonym query_state = "string \<times> bool"

definition append_param :: "string \<Rightarrow> string \<Rightarrow> query_state \<Rightarrow> query_state" where
  "append_param key v = (\<lambda>(query, has_params).
     (query @ (if has_params then ''&'' else ''?'') @ key @ ''='' @ encode_query_value v, True))"

fun append_values :: "bool \<Rightarrow> string list \<Rightarrow> string \<Rightarrow> string" where
  "append_values first [] query = query"
| "append_values first (v # vs) query =
     append_values False vs ((if \<not> first then query @ '','' else query) @ encode_query_value v)"

definition append_vector_param :: "string \<Rightarrow> string list \<Rightarrow> query_state \<Rightarrow> query_state" where
  "append_vector_param key vs = (\<lambda>(query, has_params).
     if vs = [] then (query, has_params)
     else (append_values True vs (query @ (if has_params then ''&'' else ''?'') @ key @ ''=''), True))"

text \<open>\<open>if (param) append(...)\<close>.\<close>

definition when_set :: "'a option \<Rightarrow> ('a \<Rightarrow> query_state \<Rightarrow> query_state) \<Rightarrow> query_state \<Rightarrow> query_state" where
  "when_set v f q = (case v of None \<Rightarrow> q | Some x \<Rightarrow> f x q)"

record GetAlertsParams =
  status :: "string list option"
  message_type :: "string option"
  event :: "string option"
  alert_code :: "string option"
  area :: "string list option"
  point :: "string option"
  region :: "string list option"
  zone :: "string list option"
  urgency :: "string option"
  severity :: "string option"
  certainty :: "string option"
  alert_limit :: "int option"
  alert_cursor :: "string option"

record GetObservationsParams =
  start :: "string option"
  finish :: "string option"
  obs_limit :: "int option"
  obs_cursor :: "string option"

definition build_observations_query :: "GetObservationsParams \<Rightarrow> string" where
  "build_observations_query p =
    (let q = ([], False);
         q = when_set (start p) (append_param ''start'') q;
         q = when_set (finish p) (append_param ''end'') q;
         q = when_set (obs_limit p) (\<lambda>n. append_param ''limit'' (int_to_string n)) q;
         q = when_set (obs_cursor p) (append_param ''cursor'') q
     in fst q)"

definition build_alerts_query :: "GetAlertsParams \<Rightarrow> string" where
  "build_alerts_query p =
    (let q = ([], False);
         q = when_set (status p) (append_vector_param ''status'') q;
         q = when_set (message_type p) (append_param ''message_type'') q;
         q = when_set (event p) (append_param ''event'') q;
         q = when_set (alert_code p) (append_param ''code'') q;
         q = when_set (area p) (append_vector_param ''area'') q;
         q = when_set (point p) (append_param ''point'') q;
         q = when_set (region p) (append_vector_param ''region'') q;
         q = when_set (zone p) (append_vector_param ''zone'') q;
         q = when_set (urgency p) (append_param ''urgency'') q;
         q = when_set (severity p) (append_param ''severity'') q;
         q = when_set (certainty p) (append_param ''certainty'') q;
         q = when_set (alert_limit p) (\<lambda>n. append_param ''limit'' (int_to_string n)) q;
         q = when_set (alert_cursor p) (append_param ''cursor'') q
     in fst q)"

section \<open>Responses\<close>

definition ascii_lower :: "char \<Rightarrow> char" where
  "ascii_lower c = (let n = (of_char c :: nat) in if 65 \<le> n \<and> n \<le> 90 then char_of (n + 32) else c)"

definition get_correlation_id :: "HttpResponse \<Rightarrow> string" where
  "get_correlation_id resp =
    (case List.find (\<lambda>(k, v). map ascii_lower k = ''x-correlation-id'') (headers resp) of
       Some (k, v) \<Rightarrow> v
     | None \<Rightarrow> [])"

definition body_or_error :: "json_reader \<Rightarrow> HttpResponse result \<Rightarrow> string result" where
  "body_or_error glz_read http_result =
    (case http_result of
       Inl e \<Rightarrow> Inl e
     | Inr resp \<Rightarrow>
         if status_code resp \<noteq> 200
         then Inl (from_response glz_read (status_code resp) (body resp) (get_correlation_id resp))
         else Inr (body resp))"

text \<open>
  The common body of the endpoints: fetch the path, extract the body or the error, deserialize into
  a fresh value.
\<close>

definition decode_with ::
  "(json_reader \<Rightarrow> string \<Rightarrow> 'a \<Rightarrow> unit result \<times> 'a) \<Rightarrow> 'a \<Rightarrow> json_reader \<Rightarrow> string \<Rightarrow> 'a result" where
  "decode_with deserialize fresh glz_read b =
     (case deserialize glz_read b fresh of (Inl e, _) \<Rightarrow> Inl e | (Inr _, v) \<Rightarrow> Inr v)"

definition endpoint ::
  "(json_reader \<Rightarrow> string \<Rightarrow> 'a result) \<Rightarrow> 'w platform \<Rightarrow> string \<Rightarrow> NWSClient \<Rightarrow> 'w \<Rightarrow>
    ('a result \<times> NWSClient \<times> 'w) option" where
  "endpoint decode P path c w =
    (case do_get P path c w of
       None \<Rightarrow> None
     | Some (r, c, w) \<Rightarrow>
         Some (bind_result (body_or_error (json_read P) r) (decode (json_read P)), c, w))"

section \<open>Paths\<close>

datatype UnitSystem = US | SI

definition units_query :: "UnitSystem option \<Rightarrow> string" where
  "units_query units =
     (case units of None \<Rightarrow> [] | Some u \<Rightarrow> if u = UnitSystem.SI then ''?units=si'' else ''?units=us'')"

definition gridpoint_path :: "string \<Rightarrow> int \<Rightarrow> int \<Rightarrow> string" where
  "gridpoint_path wfo x y =
     ''/gridpoints/'' @ encode_query_value wfo @ ''/'' @ int_to_string x @ '','' @ int_to_string y"

definition station_path :: "string \<Rightarrow> string" where
  "station_path station = ''/stations/'' @ encode_query_value station"

definition zone_path :: "string \<Rightarrow> string \<Rightarrow> string" where
  "zone_path type zid = ''/zones/'' @ encode_query_value type @ ''/'' @ encode_query_value zid"

definition latest_product_path :: "string \<Rightarrow> string \<Rightarrow> string" where
  "latest_product_path tid loc =
     ''/products/types/'' @ encode_query_value tid @ ''/locations/'' @ encode_query_value loc @ ''/latest''"

section \<open>Endpoints\<close>

text \<open>Fresh values, as the endpoints declare them before deserializing.\<close>

definition get_forecast ::
  "'w platform \<Rightarrow> string \<Rightarrow> int \<Rightarrow> int \<Rightarrow> UnitSystem option \<Rightarrow> NWSClient \<Rightarrow> 'w \<Rightarrow>
    (ForecastResponse result \<times> NWSClient \<times> 'w) option" where
  "get_forecast P wfo x y units =
     endpoint (decode_with (deserialize_forecast_response (to_chars P)) (default_GeoJsonFeature default_ForecastProperties))
       P (gridpoint_path wfo x y @ ''/forecast'' @ units_query units)"

definition get_forecast_hourly ::
  "'w platform \<Rightarrow> string \<Rightarrow> int \<Rightarrow> int \<Rightarrow> UnitSystem option \<Rightarrow> NWSClient \<Rightarrow> 'w \<Rightarrow>
    (ForecastResponse result \<times> NWSClient \<times> 'w) option" where
  "get_forecast_hourly P wfo x y units =
     endpoint (decode_with (deserialize_forecast_response (to_chars P)) (default_GeoJsonFeature default_ForecastProperties))
       P (gridpoint_path wfo x y @ ''/forecast/hourly'' @ units_query units)"

definition get_gridpoint_stations ::
  "'w platform \<Rightarrow> string \<Rightarrow> int \<Rightarrow> int \<Rightarrow> NWSClient \<Rightarrow> 'w \<Rightarrow> (StationCollectionResponse result \<times> NWSClient \<times> 'w) option" where
  "get_gridpoint_stations P wfo x y =
     endpoint (decode_with deserialize_station_collection default_GeoJsonFeatureCollection)
       P (gridpoint_path wfo x y @ ''/stations'')"

definition get_station ::
  "'w platform \<Rightarrow> string \<Rightarrow> NWSClient \<Rightarrow> 'w \<Rightarrow> (StationResponse result \<times> NWSClient \<times> 'w) option" where
  "get_station P station =
     endpoint (decode_with deserialize_station_response (default_GeoJsonFeature default_StationProperties))
       P (station_path station)"

definition get_observations ::
  "'w platform \<Rightarrow> string \<Rightarrow> GetObservationsParams \<Rightarrow> NWSClient \<Rightarrow> 'w \<Rightarrow>
    (ObservationCollectionResponse result \<times> NWSClient \<times> 'w) option" where
  "get_observations P station params =
     endpoint (decode_with deserialize_observation_collection default_GeoJsonFeatureCollection)
       P (station_path station @ ''/observations'' @ build_observations_query params)"

definition get_latest_observation ::
  "'w platform \<Rightarrow> string \<Rightarrow> NWSClient \<Rightarrow> 'w \<Rightarrow> (ObservationResponse result \<times> NWSClient \<times> 'w) option" where
  "get_latest_observation P station =
     endpoint (decode_with deserialize_observation_response (default_GeoJsonFeature default_ObservationProperties))
       P (station_path station @ ''/observations/latest'')"

definition get_alerts ::
  "'w platform \<Rightarrow> GetAlertsParams \<Rightarrow> NWSClient \<Rightarrow> 'w \<Rightarrow> (AlertCollectionResponse result \<times> NWSClient \<times> 'w) option" where
  "get_alerts P params =
     endpoint (decode_with deserialize_alert_collection default_GeoJsonFeatureCollection)
       P (''/alerts'' @ build_alerts_query params)"

definition get_active_alerts ::
  "'w platform \<Rightarrow> GetAlertsParams \<Rightarrow> NWSClient \<Rightarrow> 'w \<Rightarrow> (AlertCollectionResponse result \<times> NWSClient \<times> 'w) option" where
  "get_active_alerts P params =
     endpoint (decode_with deserialize_alert_collection default_GeoJsonFeatureCollection)
       P (''/alerts/active'' @ build_alerts_query params)"

definition get_active_alert_count ::
  "'w platform \<Rightarrow> NWSClient \<Rightarrow> 'w \<Rightarrow> (AlertActiveCount result \<times> NWSClient \<times> 'w) option" where
  "get_active_alert_count P =
     endpoint (decode_with deserialize_alert_active_count default_AlertActiveCount) P ''/alerts/active/count''"

definition get_active_alerts_by_area ::
  "'w platform \<Rightarrow> string \<Rightarrow> NWSClient \<Rightarrow> 'w \<Rightarrow> (AlertCollectionResponse result \<times> NWSClient \<times> 'w) option" where
  "get_active_alerts_by_area P area_code =
     endpoint (decode_with deserialize_alert_collection default_GeoJsonFeatureCollection)
       P (''/alerts/active/area/'' @ encode_query_value area_code)"

definition get_active_alerts_by_zone ::
  "'w platform \<Rightarrow> string \<Rightarrow> NWSClient \<Rightarrow> 'w \<Rightarrow> (AlertCollectionResponse result \<times> NWSClient \<times> 'w) option" where
  "get_active_alerts_by_zone P zid =
     endpoint (decode_with deserialize_alert_collection default_GeoJsonFeatureCollection)
       P (''/alerts/active/zone/'' @ encode_query_value zid)"

definition get_alert ::
  "'w platform \<Rightarrow> string \<Rightarrow> NWSClient \<Rightarrow> 'w \<Rightarrow> (AlertFeature result \<times> NWSClient \<times> 'w) option" where
  "get_alert P i =
     endpoint (decode_with deserialize_alert_feature (default_GeoJsonFeature default_AlertProperties))
       P (''/alerts/'' @ encode_query_value i)"

definition decode_alert_types :: "json_reader \<Rightarrow> string \<Rightarrow> string list result" where
  "decode_alert_types glz_read b =
    (case glz_read b of
       Inl msg \<Rightarrow> Inl (Error_parse msg)
     | Inr (JObject obj) \<Rightarrow>
         (case map_of obj ''eventTypes'' of Some (JArray arr) \<Rightarrow> Inr (strings_of arr) | _ \<Rightarrow> Inr [])
     | Inr _ \<Rightarrow> Inr [])"

definition get_alert_types ::
  "'w platform \<Rightarrow> NWSClient \<Rightarrow> 'w \<Rightarrow> (string list result \<times> NWSClient \<times> 'w) option" where
  "get_alert_types P = endpoint decode_alert_types P ''/alerts/types''"

definition get_gridpoint ::
  "'w platform \<Rightarrow> string \<Rightarrow> int \<Rightarrow> int \<Rightarrow> NWSClient \<Rightarrow> 'w \<Rightarrow> (GridpointResponse result \<times> NWSClient \<times> 'w) option" where
  "get_gridpoint P wfo x y =
     endpoint (decode_with deserialize_gridpoint_response (default_GeoJsonFeature default_GridpointProperties))
       P (gridpoint_path wfo x y)"

definition get_zone ::
  "'w platform \<Rightarrow> string \<Rightarrow> string \<Rightarrow> NWSClient \<Rightarrow> 'w \<Rightarrow> (ZoneFeature result \<times> NWSClient \<times> 'w) option" where
  "get_zone P type zid =
     endpoint (decode_with deserialize_zone_feature (default_GeoJsonFeature default_ZoneProperties))
       P (zone_path type zid)"

definition get_zone_forecast ::
  "'w platform \<Rightarrow> string \<Rightarrow> string \<Rightarrow> NWSClient \<Rightarrow> 'w \<Rightarrow> (ZoneForecastProperties result \<times> NWSClient \<times> 'w) option" where
  "get_zone_forecast P type zid =
     endpoint (decode_with deserialize_zone_forecast \<lparr>ZoneForecastProperties.zone = [], ZoneForecastProperties.periods = []\<rparr>)
       P (zone_path type zid @ ''/forecast'')"

definition get_glossary ::
  "'w platform \<Rightarrow> NWSClient \<Rightarrow> 'w \<Rightarrow> (GlossaryResponse result \<times> NWSClient \<times> 'w) option" where
  "get_glossary P = endpoint (decode_with deserialize_glossary_response \<lparr>glossary = []\<rparr>) P ''/glossary''"

definition default_ProductProperties :: ProductProperties where
  "default_ProductProperties =
     \<lparr>product_id = [], wmo_collective_id = [], issuing_office = [], ProductProperties.issuance_time = [],
      product_code = [], product_name = [], product_text = []\<rparr>"

definition get_latest_product ::
  "'w platform \<Rightarrow> string \<Rightarrow> string \<Rightarrow> NWSClient \<Rightarrow> 'w \<Rightarrow> (ProductProperties result \<times> NWSClient \<times> 'w) option" where
  "get_latest_product P tid loc =
     endpoint (decode_with deserialize_product_properties default_ProductProperties)
       P (latest_product_path tid loc)"

definition get_product ::
  "'w platform \<Rightarrow> string \<Rightarrow> NWSClient \<Rightarrow> 'w \<Rightarrow> (ProductProperties result \<times> NWSClient \<times> 'w) option" where
  "get_product P i =
     endpoint (decode_with deserialize_product_properties default_ProductProperties)
       P (''/products/'' @ encode_query_value i)"

section \<open>Points and the cache\<close>

text \<open>
  The clock is read once a key is found, and for an insertion unless the cache is switched off.
  Allocation in the cache is taken to succeed here.
\<close>

definition cache_lookup ::
  "'w platform \<Rightarrow> CoordinateKey \<Rightarrow> NWSClient \<Rightarrow> 'w \<Rightarrow> (PointResponse option \<times> NWSClient \<times> 'w) option" where
  "cache_lookup P key c w =
    (case points_cache c of
       None \<Rightarrow> Some (None, c, w)
     | Some lc \<Rightarrow>
         (case if key \<in> fst ` set (entries lc) then steady_now (clock P) w else (0, w) of (now, w) \<Rightarrow>
            map_option (\<lambda>(v, lc). (v, c\<lparr>points_cache := Some lc\<rparr>, w)) (LruCache_get now key lc)))"

definition cache_store ::
  "'w platform \<Rightarrow> CoordinateKey \<Rightarrow> PointResponse \<Rightarrow> NWSClient \<Rightarrow> 'w \<Rightarrow> (NWSClient \<times> 'w) option" where
  "cache_store P key v c w =
    (case points_cache c of
       None \<Rightarrow> Some (c, w)
     | Some lc \<Rightarrow>
         (case if max_entries (cache_config lc) = 0 \<or> ttl (cache_config lc) \<le> 0 then (0, w)
               else steady_now (clock P) w of (now, w) \<Rightarrow>
            map_option (\<lambda>(done, lc). (c\<lparr>points_cache := Some lc\<rparr>, w)) (LruCache_put True True now key v lc)))"

definition coordinates_invalid :: "double \<Rightarrow> double \<Rightarrow> bool" where
  "coordinates_invalid lat lon \<longleftrightarrow>
     \<not> isfinite lat \<or> \<not> isfinite lon \<or> dlt lat (dlit (- 90)) \<or> dlt (dlit 90) lat \<or>
     dlt lon (dlit (- 180)) \<or> dlt (dlit 180) lon"

definition point_key :: "double \<Rightarrow> double \<Rightarrow> CoordinateKey" where
  "point_key lat lon = canonical_key \<lparr>key_latitude = lat, key_longitude = lon\<rparr>"

definition get_point ::
  "'w platform \<Rightarrow> double \<Rightarrow> double \<Rightarrow> NWSClient \<Rightarrow> 'w \<Rightarrow> (PointResponse result \<times> NWSClient \<times> 'w) option" where
  "get_point P lat lon c w =
    (if coordinates_invalid lat lon
     then Some (Inl (Error_invalid_request ''Coordinates must be finite and within latitude/longitude bounds''), c, w)
     else
       case cache_lookup P (point_key lat lon) c w of
         None \<Rightarrow> None
       | Some (Some cached, c, w) \<Rightarrow> Some (Inr cached, c, w)
       | Some (None, c, w) \<Rightarrow>
           (case endpoint (decode_with deserialize_point_response (default_GeoJsonFeature default_PointProperties)) P
                   (''/points/'' @ format_double P lat @ '','' @ format_double P lon) c w of
              None \<Rightarrow> None
            | Some (Inl e, c, w) \<Rightarrow> Some (Inl e, c, w)
            | Some (Inr v, c, w) \<Rightarrow>
                map_option (\<lambda>(c, w). (Inr v, c, w)) (cache_store P (point_key lat lon) v c w)))"

section \<open>Convenience methods\<close>

definition get_forecast_for_location ::
  "'w platform \<Rightarrow> double \<Rightarrow> double \<Rightarrow> UnitSystem option \<Rightarrow> NWSClient \<Rightarrow> 'w \<Rightarrow>
    (ForecastResponse result \<times> NWSClient \<times> 'w) option" where
  "get_forecast_for_location P lat lon units c w =
    (case get_point P lat lon c w of
       None \<Rightarrow> None
     | Some (Inl e, c, w) \<Rightarrow> Some (Inl e, c, w)
     | Some (Inr pt, c, w) \<Rightarrow>
         get_forecast P (PointProperties.grid_id (properties pt)) (PointProperties.grid_x (properties pt))
           (PointProperties.grid_y (properties pt)) units c w)"

definition get_current_weather ::
  "'w platform \<Rightarrow> double \<Rightarrow> double \<Rightarrow> NWSClient \<Rightarrow> 'w \<Rightarrow> (ObservationResponse result \<times> NWSClient \<times> 'w) option" where
  "get_current_weather P lat lon c w =
    (case get_point P lat lon c w of
       None \<Rightarrow> None
     | Some (Inl e, c, w) \<Rightarrow> Some (Inl e, c, w)
     | Some (Inr pt, c, w) \<Rightarrow>
         (case get_gridpoint_stations P (PointProperties.grid_id (properties pt))
                 (PointProperties.grid_x (properties pt)) (PointProperties.grid_y (properties pt)) c w of
            None \<Rightarrow> None
          | Some (Inl e, c, w) \<Rightarrow> Some (Inl e, c, w)
          | Some (Inr stations, c, w) \<Rightarrow>
              (case features stations of
                 [] \<Rightarrow> Some (Inl (Error_not_found ''No observation stations found near location''), c, w)
               | nearest # rest \<Rightarrow>
                   get_latest_observation P (station_identifier (properties nearest)) c w)))"

section \<open>Requests against the outside world\<close>

text \<open>
  What is assumed of the platform: the steady clock, that no call turns time back, and a count of the
  HTTP transfers, which only \<open>curl_easy_perform\<close> increases, by one.
\<close>

definition platform_ok :: "'w platform \<Rightarrow> ('w \<Rightarrow> nanoseconds) \<Rightarrow> ('w \<Rightarrow> nat) \<Rightarrow> bool" where
  "platform_ok P tm transfers \<longleftrightarrow>
     steady_env (clock P) tm \<and>
     (\<forall>w. transfers (snd (steady_now (clock P) w)) = transfers w) \<and>
     (\<forall>d w. transfers (sleep_for (clock P) d w) = transfers w) \<and>
     (\<forall>lo hi w. tm w \<le> tm (snd (jitter P lo hi w)) \<and> transfers (snd (jitter P lo hi w)) = transfers w) \<and>
     (\<forall>s w. tm w \<le> tm (snd (slist_append (libcurl P) s w)) \<and> transfers (snd (slist_append (libcurl P) s w)) = transfers w) \<and>
     (\<forall>os w. tm w \<le> tm (snd (perform (libcurl P) os w)) \<and> transfers (snd (perform (libcurl P) os w)) = Suc (transfers w))"

lemma platform_okD:
  assumes "platform_ok P tm transfers"
  shows "steady_env (clock P) tm"
    and "transfers (snd (steady_now (clock P) w)) = transfers w"
    and "transfers (sleep_for (clock P) d w) = transfers w"
    and "tm w \<le> tm (snd (jitter P lo hi w))" "transfers (snd (jitter P lo hi w)) = transfers w"
    and "tm w \<le> tm (snd (slist_append (libcurl P) s w))" "transfers (snd (slist_append (libcurl P) s w)) = transfers w"
    and "tm w \<le> tm (snd (perform (libcurl P) os w))" "transfers (snd (perform (libcurl P) os w)) = Suc (transfers w)"
  using assms unfolding platform_ok_def by blast+

text \<open>A GET makes at most one transfer.\<close>

lemma HttpClient_get_world:
  "snd (HttpClient_get lib hc path w) = w \<or>
   (\<exists>s. snd (HttpClient_get lib hc path w) = snd (slist_append lib s w)) \<or>
   (\<exists>s os. snd (HttpClient_get lib hc path w) = snd (perform lib os (snd (slist_append lib s w))))"
  unfolding HttpClient_get_def Let_def
  by (auto split: option.splits prod.splits if_splits) (metis snd_conv)+

lemma HttpClient_get_sent:
  assumes "platform_ok P tm transfers"
  shows "tm w \<le> tm (snd (HttpClient_get (libcurl P) hc path w)) \<and>
         transfers (snd (HttpClient_get (libcurl P) hc path w)) \<le> Suc (transfers w)"
  using HttpClient_get_world [of "libcurl P" hc path w] platform_okD(6-9) [OF assms]
  by (elim disjE exE) (simp_all, metis order_trans)

text \<open>
  The invariant of the pipeline: the bucket invariant, and a budget: the credit of the bucket plus
  the price of the transfers made so far grows no faster than time.
\<close>

definition pipeline_ok ::
  "'w platform \<Rightarrow> ('w \<Rightarrow> nanoseconds) \<Rightarrow> ('w \<Rightarrow> nat) \<Rightarrow> RateLimiterConfig \<Rightarrow> int \<Rightarrow> RateLimiter \<times> 'w \<Rightarrow> bool" where
  "pipeline_ok P tm transfers cfg budget = (\<lambda>(rl, w).
     platform_ok P tm transfers \<and> refill_interval cfg < ns_to_ms int64_max \<and>
     limiter_config rl = cfg \<and> bucket_inv rl (tm w) \<and>
     credit rl (tm w) + int (transfers w) * ms_to_ns (refill_interval cfg) \<le> budget + tm w)"

lemma pipeline_ok_later:
  assumes "pipeline_ok P tm transfers cfg budget (rl, w)" and "tm w \<le> tm w'" and "transfers w' = transfers w"
  shows "pipeline_ok P tm transfers cfg budget (rl, w')"
  using assms bucket_inv_later [of rl "tm w" "tm w'"] credit_later [of rl "tm w'" "tm w"]
  by (auto simp: pipeline_ok_def)

lemma request_once_ok:
  assumes "pipeline_ok P tm transfers cfg budget s"
  shows "\<exists>r s'. request_once P hc path s = Some (r, s') \<and> pipeline_ok P tm transfers cfg budget s' \<and>
           transfers (snd s') \<le> Suc (transfers (snd s)) \<and> tm (snd s) \<le> tm (snd s')"
proof -
  obtain rl w where s: "s = (rl, w)" by (cases s)
  have ok: "platform_ok P tm transfers" and small: "refill_interval (limiter_config rl) < ns_to_ms int64_max"
    and cfg: "limiter_config rl = cfg" and inv: "bucket_inv rl (tm w)"
    and bud: "credit rl (tm w) + int (transfers w) * ms_to_ns (refill_interval cfg) \<le> budget + tm w"
    using assms by (auto simp: pipeline_ok_def s)
  obtain g rl' w1 where a: "acquire (clock P) rl w = Some (g, rl', w1)" "bucket_inv rl' (tm w1)"
      "limiter_config rl' = limiter_config rl"
    using acquire_returns [OF platform_okD(1) [OF ok] inv small] by blast
  have c: "credit rl' (tm w1) + of_bool g * interval_ns rl \<le> credit rl (tm w) + (tm w1 - tm w)"
      "transfers w1 = transfers w"
    using acquire_credit [where f = transfers, OF a(1) platform_okD(1) [OF ok] inv platform_okD(2) [OF ok]
        platform_okD(3) [OF ok]] by auto
  have later: "tm w \<le> tm w1" by (rule acquire_later [OF a(1) platform_okD(1) [OF ok]])
  show ?thesis
  proof (cases g)
    case False
    then have "pipeline_ok P tm transfers cfg budget (rl', w1)"
      using ok small cfg a c bud by (simp add: pipeline_ok_def)
    with False a c later show ?thesis by (simp add: request_once_def s)
  next
    case True
    obtain r w2 where h: "HttpClient_get (libcurl P) hc path w1 = (r, w2)"
      by (cases "HttpClient_get (libcurl P) hc path w1")
    have t: "tm w1 \<le> tm w2" "transfers w2 \<le> Suc (transfers w1)"
      using HttpClient_get_sent [OF ok, of w1 hc path] h by auto
    have I: "0 \<le> interval_ns rl" using interval_pos [OF inv] by simp
    have "int (transfers w2) * interval_ns rl \<le> int (Suc (transfers w1)) * interval_ns rl"
      using t(2) I by (intro mult_right_mono) auto
    then have "int (transfers w2) * interval_ns rl \<le> interval_ns rl + int (transfers w) * interval_ns rl"
      using c(2) by (simp add: distrib_right)
    then have "pipeline_ok P tm transfers cfg budget (rl', w2)"
      using ok small cfg a c True bud bucket_inv_later [OF a(2) t(1)] credit_later [of rl' "tm w2" "tm w1"]
      by (simp add: pipeline_ok_def)
    with True a h t c later show ?thesis by (simp add: request_once_def s)
  qed
qed

text \<open>The invariant of a retried request: that of the pipeline, and that its start is past.\<close>

interpretation request: retried_operation "lift_env (clock P)" "lift_draw (jitter P)" "request_once P hc path"
    "\<lambda>s. pipeline_ok P tm transfers cfg budget s \<and> since \<le> tm (snd s)" "\<lambda>s. transfers (snd s)"
  for P :: "'w platform" and hc path tm transfers cfg budget since
proof
  fix s :: "RateLimiter \<times> 'w"
  assume p: "pipeline_ok P tm transfers cfg budget s \<and> since \<le> tm (snd s)"
  obtain rl w where s: "s = (rl, w)" by (cases s)
  then have ok: "platform_ok P tm transfers" using p by (simp add: pipeline_ok_def)
  show "\<exists>r s'. request_once P hc path s = Some (r, s') \<and>
      (pipeline_ok P tm transfers cfg budget s' \<and> since \<le> tm (snd s')) \<and> transfers (snd s') \<le> Suc (transfers (snd s))"
    using p request_once_ok [of P tm transfers cfg budget s hc path] by fastforce
  fix d
  have "tm w \<le> tm (sleep_for (clock P) d w)"
    using steady_env_sleep [OF platform_okD(1) [OF ok], of w d] by linarith
  then show "(pipeline_ok P tm transfers cfg budget (sleep_for (lift_env (clock P)) d s) \<and>
      since \<le> tm (snd (sleep_for (lift_env (clock P)) d s))) \<and>
      transfers (snd (sleep_for (lift_env (clock P)) d s)) = transfers (snd s)"
    using p s platform_okD(3) [OF ok] by (auto simp: lift_env_def intro: pipeline_ok_later)
  fix lo hi
  show "(pipeline_ok P tm transfers cfg budget (snd (lift_draw (jitter P) lo hi s)) \<and>
      since \<le> tm (snd (snd (lift_draw (jitter P) lo hi s)))) \<and>
      transfers (snd (snd (lift_draw (jitter P) lo hi s))) = transfers (snd s)"
    using p s platform_okD(4) [OF ok, of w lo hi] platform_okD(5) [OF ok, of lo hi w]
    by (auto simp: lift_draw_def split: prod.splits intro: pipeline_ok_later)
qed

lemma do_get_ok:
  assumes "pipeline_ok P tm transfers cfg budget (rate_limiter c, w)"
  shows "\<exists>r c' w'. do_get P path c w = Some (r, c', w') \<and> c' = c\<lparr>rate_limiter := rate_limiter c'\<rparr> \<and>
           pipeline_ok P tm transfers cfg budget (rate_limiter c', w') \<and>
           transfers w' \<le> transfers w + unat (max_attempts (retry_policy c)) \<and> tm w \<le> tm w'"
  using request.with_retry_returns [of P tm transfers cfg budget "(rate_limiter c, w)" "tm w" "http_client c" path
      "retry_policy c"] assms
  by (auto simp: do_get_def)

text \<open>A client's life: any sequence of requests.\<close>

fun requests :: "'w platform \<Rightarrow> string list \<Rightarrow> NWSClient \<Rightarrow> 'w \<Rightarrow> (HttpResponse result list \<times> NWSClient \<times> 'w) option" where
  "requests P [] c w = Some ([], c, w)"
| "requests P (path # paths) c w =
     (case do_get P path c w of
        None \<Rightarrow> None
      | Some (r, c, w) \<Rightarrow> map_option (\<lambda>(rs, c, w). (r # rs, c, w)) (requests P paths c w))"

lemma requests_ok:
  "pipeline_ok P tm transfers cfg budget (rate_limiter c, w) \<Longrightarrow>
   \<exists>rs c' w'. requests P paths c w = Some (rs, c', w') \<and> length rs = length paths \<and>
     pipeline_ok P tm transfers cfg budget (rate_limiter c', w') \<and>
     transfers w' \<le> transfers w + length paths * unat (max_attempts (retry_policy c))"
proof (induction paths arbitrary: c w)
  case (Cons path paths)
  obtain r c1 w1 where d: "do_get P path c w = Some (r, c1, w1)" "c1 = c\<lparr>rate_limiter := rate_limiter c1\<rparr>"
      "pipeline_ok P tm transfers cfg budget (rate_limiter c1, w1)"
      "transfers w1 \<le> transfers w + unat (max_attempts (retry_policy c))"
    using do_get_ok [OF Cons.prems] by blast
  have rp: "retry_policy c1 = retry_policy c" using d(2) by (metis NWSClient.simps(3) NWSClient.surjective NWSClient.update_convs(2))
  from Cons.IH [OF d(3)] obtain rs c' w' where "requests P paths c1 w1 = Some (rs, c', w')"
      "length rs = length paths" "pipeline_ok P tm transfers cfg budget (rate_limiter c', w')"
      "transfers w' \<le> transfers w1 + length paths * unat (max_attempts (retry_policy c))"
    unfolding rp by blast
  with d(1,4) show ?case by simp
qed simp

text \<open>
  A new client starts with the initial tokens as its budget, and a budget bounds the transfers, as
  the credit of a bucket is never negative.
\<close>

definition start_budget :: "RateLimiterConfig \<Rightarrow> nanoseconds \<Rightarrow> nat \<Rightarrow> int" where
  "start_budget cfg now n =
     (uint (initial_tokens cfg) + int n) * ms_to_ns (refill_interval cfg) - now"

lemma make_pipeline_ok:
  assumes "platform_ok P tm transfers" and "now \<le> tm w"
    and "refill_interval (sanitized (rate_limit cfg)) < ns_to_ms int64_max"
  shows "pipeline_ok P tm transfers (sanitized (rate_limit cfg))
           (start_budget (sanitized (rate_limit cfg)) now (transfers w)) (rate_limiter (make_NWSClient g i cfg now), w)"
proof -
  have "bucket_inv (make_RateLimiter (rate_limit cfg) now) (tm w)"
    using make_RateLimiter_inv assms(2) by (rule bucket_inv_later)
  moreover have "rate_limiter (make_NWSClient g i cfg now) = make_RateLimiter (rate_limit cfg) now"
    by (simp add: make_NWSClient_def)
  ultimately show ?thesis
    using assms by (simp add: pipeline_ok_def start_budget_def credit_def distrib_right) (simp add: make_RateLimiter_def)
qed

lemma pipeline_rate:
  assumes "pipeline_ok P tm transfers cfg (start_budget cfg now n) (rl, w)"
  shows "(int (transfers w) - int n) * ms_to_ns (refill_interval cfg) \<le>
           uint (initial_tokens cfg) * ms_to_ns (refill_interval cfg) + (tm w - now)"
proof -
  have inv: "bucket_inv rl (tm w)" using assms by (simp add: pipeline_ok_def)
  then have "0 \<le> credit rl (tm w)" using interval_pos [OF inv] by (simp add: credit_def bucket_inv_def)
  then have "int (transfers w) * ms_to_ns (refill_interval cfg) \<le> start_budget cfg now n + tm w"
    using assms by (simp add: pipeline_ok_def)
  then show ?thesis by (simp add: start_budget_def left_diff_distrib distrib_right)
qed

section \<open>Queries and paths read back\<close>

text \<open>The state of the builder after the fields \<open>fs\<close>.\<close>

definition query_of :: "query_field list \<Rightarrow> query_state" where
  "query_of fs = (render_fields encode_query_value fs, fs \<noteq> [])"

lemma join_with_snoc: "join_with c (xs @ [y]) = (if xs = [] then y else join_with c xs @ c # y)"
  by (induction c xs rule: join_with.induct) auto

lemma render_fields_snoc:
  "render_fields enc (fs @ [f]) =
     render_fields enc fs @ (if fs \<noteq> [] then ''&'' else ''?'') @ render_field enc f"
  by (simp add: render_fields_def join_with_snoc)

lemma append_param_query [api_simps]: "append_param k v (query_of fs) = query_of (fs @ [(k, [v])])"
  by (simp add: append_param_def query_of_def render_fields_snoc render_field_def)

lemma append_values_False: "append_values False vs q = q @ concat (map (\<lambda>v. CHR '','' # encode_query_value v) vs)"
  by (induction vs arbitrary: q) simp_all

lemma join_with_Cons: "join_with c (x # xs) = x @ concat (map (\<lambda>y. c # y) xs)"
  by (induction c "x # xs" arbitrary: x xs rule: join_with.induct) auto

lemma append_values_True:
  "append_values True vs q = q @ join_with CHR '','' (map encode_query_value vs)"
  by (cases vs) (simp_all add: append_values_False join_with_Cons comp_def)

lemma append_vector_param_query [api_simps]:
  "append_vector_param k vs (query_of fs) = query_of (if vs = [] then fs else fs @ [(k, vs)])"
  by (simp add: append_vector_param_def query_of_def render_fields_snoc render_field_def append_values_True)

text \<open>The fields a parameter stands for: none when it is not set or an empty list.\<close>

definition one_field :: "string \<Rightarrow> string option \<Rightarrow> query_field list" where
  "one_field k v = (case v of None \<Rightarrow> [] | Some x \<Rightarrow> [(k, [x])])"

definition many_field :: "string \<Rightarrow> string list option \<Rightarrow> query_field list" where
  "many_field k v = (case v of None \<Rightarrow> [] | Some xs \<Rightarrow> if xs = [] then [] else [(k, xs)])"

lemma when_set_query [api_simps]:
  "when_set v (append_param k) (query_of fs) = query_of (fs @ one_field k v)"
  "when_set n (\<lambda>n. append_param k (int_to_string n)) (query_of fs) = query_of (fs @ one_field k (map_option int_to_string n))"
  "when_set vs (append_vector_param k) (query_of fs) = query_of (fs @ many_field k vs)"
  by (simp_all add: when_set_def one_field_def many_field_def api_simps split: option.splits)

definition alert_fields :: "GetAlertsParams \<Rightarrow> query_field list" where
  "alert_fields p =
     many_field ''status'' (status p) @ one_field ''message_type'' (message_type p) @
     one_field ''event'' (event p) @ one_field ''code'' (alert_code p) @ many_field ''area'' (area p) @
     one_field ''point'' (point p) @ many_field ''region'' (region p) @ many_field ''zone'' (zone p) @
     one_field ''urgency'' (urgency p) @ one_field ''severity'' (severity p) @
     one_field ''certainty'' (certainty p) @ one_field ''limit'' (map_option int_to_string (alert_limit p)) @
     one_field ''cursor'' (alert_cursor p)"

definition observation_fields :: "GetObservationsParams \<Rightarrow> query_field list" where
  "observation_fields p =
     one_field ''start'' (start p) @ one_field ''end'' (finish p) @
     one_field ''limit'' (map_option int_to_string (obs_limit p)) @ one_field ''cursor'' (obs_cursor p)"

lemma empty_query: "([], False) = query_of []"
  by (simp add: query_of_def render_fields_def)

lemma build_query_fields:
  "build_alerts_query p = render_fields encode_query_value (alert_fields p)"
  "build_observations_query o' = render_fields encode_query_value (observation_fields o')"
  unfolding build_alerts_query_def build_observations_query_def alert_fields_def observation_fields_def
    Let_def empty_query when_set_query append.assoc append_Nil
  by (simp_all add: query_of_def)

lemma plain_fields:
  "CHR ''='' \<notin> set k \<Longrightarrow> CHR ''&'' \<notin> set k \<Longrightarrow> list_all plain_field (one_field k v)"
  "CHR ''='' \<notin> set k \<Longrightarrow> CHR ''&'' \<notin> set k \<Longrightarrow> list_all plain_field (many_field k vs)"
  by (auto simp: one_field_def many_field_def plain_field_def split: option.splits)

lemma percent_decode_plain: "CHR ''%'' \<notin> set s \<Longrightarrow> percent_decode s = Some s"
  by (induction s) auto

lemma slash_unsafe:
  "CHR ''/'' \<notin> set (encode_query_value s)" "CHR ''?'' \<notin> set (encode_query_value s)" "CHR ''#'' \<notin> set (encode_query_value s)"
proof -
  have "\<not> url_safe CHR ''/''" "\<not> url_safe CHR ''?''" "\<not> url_safe CHR ''#''" by code_simp+
  then show "CHR ''/'' \<notin> set (encode_query_value s)" "CHR ''?'' \<notin> set (encode_query_value s)"
    "CHR ''#'' \<notin> set (encode_query_value s)"
    using encode_url_safe by blast+
qed

lemma int_to_string_safe: "c \<in> set (int_to_string i) \<Longrightarrow> c \<notin> {CHR ''/'', CHR ''?'', CHR ''%'', CHR ''#''}"
proof -
  assume c: "c \<in> set (int_to_string i)"
  then have "c \<in> set (encode_query_value (int_to_string i))" by (simp only: encode_int_to_string)
  with slash_unsafe have "c \<noteq> CHR ''/''" "c \<noteq> CHR ''?''" "c \<noteq> CHR ''#''" by blast+
  moreover have "c \<noteq> CHR ''%''" using int_to_string_unreserved [OF c] percent_not_unreserved by metis
  ultimately show ?thesis by simp
qed

text \<open>
  How a URL is read: RFC 3986 removes the segments \<open>.\<close> and, with the segment before it, \<open>..\<close>; libcurl
  does so before it sends a request.
\<close>

fun resolve_dots :: "string list \<Rightarrow> string list \<Rightarrow> string list" where
  "resolve_dots kept [] = rev kept"
| "resolve_dots kept (s # ss) =
    (if s = ''.'' then resolve_dots (if ss = [] then [] # kept else kept) ss
     else if s = ''..'' then resolve_dots (if ss = [] then [] # tl kept else tl kept) ss
     else resolve_dots (s # kept) ss)"

text \<open>\<open>asks P f segments\<close>: the method \<open>f\<close> asks for the path of these segments, with or without a query.\<close>

definition asks ::
  "'w platform \<Rightarrow> (NWSClient \<Rightarrow> 'w \<Rightarrow> ('a result \<times> NWSClient \<times> 'w) option) \<Rightarrow> string list \<Rightarrow> bool" where
  "asks P f segments \<longleftrightarrow>
     (\<exists>decode path query rest. f = endpoint decode P (path @ query) \<and> (query = [] \<or> hd query = CHR ''?'') \<and>
        CHR ''?'' \<notin> set path \<and> CHR ''#'' \<notin> set path \<and> split_on (CHR ''/'') path = [] # rest \<and>
        map percent_decode (resolve_dots [] rest) = map Some segments)"

definition plain_segment :: "string \<Rightarrow> bool" where
  "plain_segment s \<longleftrightarrow>
     CHR ''/'' \<notin> set s \<and> CHR ''?'' \<notin> set s \<and> CHR ''#'' \<notin> set s \<and> s \<noteq> ''.'' \<and> s \<noteq> ''..''"

lemma resolve_dots_plain: "list_all plain_segment ss \<Longrightarrow> resolve_dots kept ss = rev kept @ ss"
  by (induction ss arbitrary: kept) (simp_all add: plain_segment_def)

lemma split_segments:
  "ss \<noteq> [] \<Longrightarrow> list_all plain_segment ss \<Longrightarrow> split_on (CHR ''/'') (concat (map (Cons (CHR ''/'')) ss)) = [] # ss"
proof (induction ss rule: list_nonempty_induct)
  case (single s)
  then show ?case by (simp add: plain_segment_def split_on_none)
next
  case (cons s ss)
  then show ?case by (cases ss) (simp_all add: plain_segment_def split_on_append)
qed

lemma asks_endpoint:
  assumes "full = concat (map (Cons (CHR ''/'')) ss) @ query" and "ss \<noteq> []" and "list_all plain_segment ss"
    and "map percent_decode ss = map Some segments" and "query = [] \<or> hd query = CHR ''?''"
  shows "asks P (endpoint decode P full) segments"
  unfolding asks_def assms(1)
proof (intro exI conjI)
  show "endpoint decode P (concat (map (Cons (CHR ''/'')) ss) @ query) = endpoint decode P (concat (map (Cons (CHR ''/'')) ss) @ query)" ..
  show "CHR ''?'' \<notin> set (concat (map (Cons (CHR ''/'')) ss))" "CHR ''#'' \<notin> set (concat (map (Cons (CHR ''/'')) ss))"
    using assms(3) by (auto simp: list_all_iff plain_segment_def)
  show "map percent_decode (resolve_dots [] ss) = map Some segments" using assms(3,4) by (simp add: resolve_dots_plain)
qed (use assms in \<open>simp_all add: split_segments\<close>)

lemma plain_encoded:
  assumes "i \<noteq> ''.'' \<and> i \<noteq> ''..''"
  shows "plain_segment (encode_query_value i)"
proof -
  have "encode_query_value i \<noteq> s" if "CHR ''%'' \<notin> set s" "i \<noteq> s" for s
    using percent_decode_encode [of i] percent_decode_plain [OF that(1)] that(2) by auto
  then show ?thesis using assms slash_unsafe [of i] by (simp add: plain_segment_def)
qed

lemma grid_segment:
  fixes x y :: int
  defines "g \<equiv> int_to_string x @ '','' @ int_to_string y"
  shows "plain_segment g" and "percent_decode g = Some g"
proof -
  have c: "c \<notin> {CHR ''/'', CHR ''?'', CHR ''%'', CHR ''#''}" if "c \<in> set g" for c
    using that int_to_string_safe by (auto simp: g_def)
  have "CHR '','' \<in> set g" by (simp add: g_def)
  with c have "g \<noteq> ''.''" "g \<noteq> ''..''" "CHR ''%'' \<notin> set g" by auto
  with c show "plain_segment g" and "percent_decode g = Some g" by (auto simp: plain_segment_def percent_decode_plain)
qed

lemma query_starts:
  "units_query u = [] \<or> hd (units_query u) = CHR ''?''"
  "build_observations_query obs = [] \<or> hd (build_observations_query obs) = CHR ''?''"
  unfolding build_query_fields by (auto simp: units_query_def render_fields_def split: option.splits)

lemma segment_words:
  "plain_segment ''stations''" "plain_segment ''observations''" "plain_segment ''latest''" "plain_segment ''gridpoints''"
  "plain_segment ''forecast''" "plain_segment ''hourly''" "plain_segment ''zones''" "plain_segment ''alerts''"
  "plain_segment ''active''" "plain_segment ''area''" "plain_segment ''zone''" "plain_segment ''products''"
  "plain_segment ''types''" "plain_segment ''locations''"
  by (simp_all add: plain_segment_def)

lemmas path_defs = station_path_def zone_path_def latest_product_path_def gridpoint_path_def

lemma station_segments:
  assumes "station \<noteq> ''.'' \<and> station \<noteq> ''..''"
  shows "asks P (get_station P station) [''stations'', station]"
    and "asks P (get_observations P station obs) [''stations'', station, ''observations'']"
    and "asks P (get_latest_observation P station) [''stations'', station, ''observations'', ''latest'']"
proof -
  note shape = assms [THEN plain_encoded] segment_words percent_decode_encode path_defs query_starts
  show "asks P (get_station P station) [''stations'', station]"
    unfolding get_station_def by (rule asks_endpoint [where ss = "[''stations'', encode_query_value station]" and query = "[]"]) (simp_all add: shape)
  show "asks P (get_observations P station obs) [''stations'', station, ''observations'']"
    unfolding get_observations_def by (rule asks_endpoint [where ss = "[''stations'', encode_query_value station, ''observations'']"
          and query = "build_observations_query obs"]) (simp_all add: shape)
  show "asks P (get_latest_observation P station) [''stations'', station, ''observations'', ''latest'']"
    unfolding get_latest_observation_def by (rule asks_endpoint [where ss = "[''stations'', encode_query_value station, ''observations'', ''latest'']"
          and query = "[]"]) (simp_all add: shape)
qed

lemma gridpoint_segments:
  assumes "wfo \<noteq> ''.'' \<and> wfo \<noteq> ''..''"
  shows "asks P (get_gridpoint P wfo x y) [''gridpoints'', wfo, int_to_string x @ '','' @ int_to_string y]"
    and "asks P (get_forecast P wfo x y u) [''gridpoints'', wfo, int_to_string x @ '','' @ int_to_string y, ''forecast'']"
    and "asks P (get_forecast_hourly P wfo x y u) [''gridpoints'', wfo, int_to_string x @ '','' @ int_to_string y, ''forecast'', ''hourly'']"
    and "asks P (get_gridpoint_stations P wfo x y) [''gridpoints'', wfo, int_to_string x @ '','' @ int_to_string y, ''stations'']"
proof -
  note shape = assms [THEN plain_encoded] segment_words grid_segment [of x y, simplified] percent_decode_encode path_defs query_starts
  show "asks P (get_gridpoint P wfo x y) [''gridpoints'', wfo, int_to_string x @ '','' @ int_to_string y]"
    unfolding get_gridpoint_def by (rule asks_endpoint [where ss = "[''gridpoints'', encode_query_value wfo, int_to_string x @ '','' @ int_to_string y]"
          and query = "[]"]) (simp_all add: shape)
  show "asks P (get_forecast P wfo x y u) [''gridpoints'', wfo, int_to_string x @ '','' @ int_to_string y, ''forecast'']"
    unfolding get_forecast_def by (rule asks_endpoint [where ss = "[''gridpoints'', encode_query_value wfo, int_to_string x @ '','' @ int_to_string y, ''forecast'']"
          and query = "units_query u"]) (simp_all add: shape)
  show "asks P (get_forecast_hourly P wfo x y u) [''gridpoints'', wfo, int_to_string x @ '','' @ int_to_string y, ''forecast'', ''hourly'']"
    unfolding get_forecast_hourly_def by (rule asks_endpoint [where ss = "[''gridpoints'', encode_query_value wfo, int_to_string x @ '','' @ int_to_string y, ''forecast'', ''hourly'']"
          and query = "units_query u"]) (simp_all add: shape)
  show "asks P (get_gridpoint_stations P wfo x y) [''gridpoints'', wfo, int_to_string x @ '','' @ int_to_string y, ''stations'']"
    unfolding get_gridpoint_stations_def by (rule asks_endpoint [where ss = "[''gridpoints'', encode_query_value wfo, int_to_string x @ '','' @ int_to_string y, ''stations'']"
          and query = "[]"]) (simp_all add: shape)
qed

lemma zone_segments:
  assumes "type \<noteq> ''.'' \<and> type \<noteq> ''..''" "zid \<noteq> ''.'' \<and> zid \<noteq> ''..''"
  shows "asks P (get_zone P type zid) [''zones'', type, zid]"
    and "asks P (get_zone_forecast P type zid) [''zones'', type, zid, ''forecast'']"
proof -
  note shape = assms [THEN plain_encoded] segment_words percent_decode_encode path_defs query_starts
  show "asks P (get_zone P type zid) [''zones'', type, zid]"
    unfolding get_zone_def by (rule asks_endpoint [where ss = "[''zones'', encode_query_value type, encode_query_value zid]"
          and query = "[]"]) (simp_all add: shape)
  show "asks P (get_zone_forecast P type zid) [''zones'', type, zid, ''forecast'']"
    unfolding get_zone_forecast_def by (rule asks_endpoint [where ss = "[''zones'', encode_query_value type, encode_query_value zid, ''forecast'']"
          and query = "[]"]) (simp_all add: shape)
qed

lemma alert_segments:
  assumes "ident \<noteq> ''.'' \<and> ident \<noteq> ''..''"
  shows "asks P (get_active_alerts_by_area P ident) [''alerts'', ''active'', ''area'', ident]"
    and "asks P (get_active_alerts_by_zone P ident) [''alerts'', ''active'', ''zone'', ident]"
    and "asks P (get_alert P ident) [''alerts'', ident]"
proof -
  note shape = assms [THEN plain_encoded] segment_words percent_decode_encode path_defs query_starts
  show "asks P (get_active_alerts_by_area P ident) [''alerts'', ''active'', ''area'', ident]"
    unfolding get_active_alerts_by_area_def by (rule asks_endpoint [where ss = "[''alerts'', ''active'', ''area'', encode_query_value ident]"
          and query = "[]"]) (simp_all add: shape)
  show "asks P (get_active_alerts_by_zone P ident) [''alerts'', ''active'', ''zone'', ident]"
    unfolding get_active_alerts_by_zone_def by (rule asks_endpoint [where ss = "[''alerts'', ''active'', ''zone'', encode_query_value ident]"
          and query = "[]"]) (simp_all add: shape)
  show "asks P (get_alert P ident) [''alerts'', ident]"
    unfolding get_alert_def by (rule asks_endpoint [where ss = "[''alerts'', encode_query_value ident]" and query = "[]"]) (simp_all add: shape)
qed

lemma product_segments:
  assumes "tid \<noteq> ''.'' \<and> tid \<noteq> ''..''" "loc \<noteq> ''.'' \<and> loc \<noteq> ''..''" "ident \<noteq> ''.'' \<and> ident \<noteq> ''..''"
  shows "asks P (get_latest_product P tid loc) [''products'', ''types'', tid, ''locations'', loc, ''latest'']"
    and "asks P (get_product P ident) [''products'', ident]"
proof -
  note shape = assms [THEN plain_encoded] segment_words percent_decode_encode path_defs query_starts
  show "asks P (get_latest_product P tid loc) [''products'', ''types'', tid, ''locations'', loc, ''latest'']"
    unfolding get_latest_product_def by (rule asks_endpoint [where ss = "[''products'', ''types'', encode_query_value tid, ''locations'', encode_query_value loc, ''latest'']"
          and query = "[]"]) (simp_all add: shape)
  show "asks P (get_product P ident) [''products'', ident]"
    unfolding get_product_def by (rule asks_endpoint [where ss = "[''products'', encode_query_value ident]" and query = "[]"]) (simp_all add: shape)
qed

text \<open>The name of the header with the correlation id, each letter in either case.\<close>

definition correlation_name :: "string \<Rightarrow> bool" where
  "correlation_name k \<longleftrightarrow>
     list_all2 (\<lambda>c (l, u). c = l \<or> c = u) k (zip ''x-correlation-id'' ''X-CORRELATION-ID'')"

lemma ascii_lower_name: "map ascii_lower k = ''x-correlation-id'' \<longleftrightarrow> correlation_name k"
proof -
  let ?ps = "zip ''x-correlation-id'' ''X-CORRELATION-ID''"
  have letters: "\<forall>c. \<forall>p\<in>set ?ps. ascii_lower c = fst p \<longleftrightarrow> c = fst p \<or> c = snd p" by code_simp
  have "map ascii_lower k = map fst ?ps \<longleftrightarrow> list_all2 (\<lambda>c p. ascii_lower c = fst p) k ?ps"
    by (simp only: list.rel_eq [symmetric] list.rel_map)
  also have "\<dots> \<longleftrightarrow> list_all2 (\<lambda>c (l, u). c = l \<or> c = u) k ?ps"
    by (intro list.rel_cong refl) (simp only: case_prod_beta letters [THEN spec, THEN bspec])
  finally show ?thesis by (simp add: correlation_name_def)
qed

lemma correlation_id_found:
  assumes "headers resp = before @ (k, v) # after" and "correlation_name k" and "\<forall>x\<in>set before. \<not> correlation_name (fst x)"
  shows "get_correlation_id resp = v"
proof -
  have "List.find (\<lambda>(k, v). correlation_name k) (before @ (k, v) # after) = Some (k, v)"
    using assms(2,3) by (induction before) auto
  then show ?thesis by (simp add: get_correlation_id_def ascii_lower_name assms(1))
qed

lemma correlation_id_absent: "\<forall>x\<in>set (headers resp). \<not> correlation_name (fst x) \<Longrightarrow> get_correlation_id resp = []"
  by (auto simp: get_correlation_id_def ascii_lower_name find_None_iff split: option.splits dest!: find_Some_iff [THEN iffD1] nth_mem)

section \<open>The point cache\<close>

lemma do_get_keeps_cache: "do_get P path c w = Some (r, c', w') \<Longrightarrow> points_cache c' = points_cache c"
  by (auto simp: do_get_def split: option.splits)

lemma endpoint_keeps_cache: "endpoint decode P path c w = Some (r, c', w') \<Longrightarrow> points_cache c' = points_cache c"
  by (auto simp: endpoint_def dest: do_get_keeps_cache split: option.splits)

text \<open>A key that is not in the list misses without touching the cache.\<close>

lemma get_absent:
  assumes "lru_inv lc" and "map_of (contents lc) k = None"
  shows "LruCache_get now k lc = Some (None, lc)"
  using contents_lookup [OF assms(1), of k] assms(2) by (simp add: LruCache_get_def)

lemma lookup_absent:
  assumes "points_cache c = Some lc" and "lru_inv lc" and "map_of (contents lc) k = None"
  shows "cache_lookup P k c w = Some (None, c, w)"
proof -
  have "map_of (entries lc) k = None" using contents_lookup [OF assms(2), of k] assms(3) by simp
  then have "k \<notin> fst ` set (entries lc)" by (simp add: map_of_eq_None_iff)
  with get_absent [OF assms(2,3)] assms(1) show ?thesis by (simp add: cache_lookup_def)
qed

lemma put_then_get:
  assumes "lru_inv lc" and "\<not> disabled (cache_config lc)" and "LruCache_put True True t k v lc = Some (r, lc1)"
    and "now - t \<le> ttl (cache_config lc) * ns_per_s"
  shows "\<exists>lc2. LruCache_get now k lc1 = Some (Some v, lc2)"
proof -
  from put_simulates [OF assms(1), of True True t k v] assms(3)
  have lc1: "lru_inv lc1" "cache_config lc1 = cache_config lc"
    and put: "spec_put (cache_config lc) True t k v (contents lc) = (r, contents lc1)" by auto
  have "0 < unat (max_entries (cache_config lc))" using assms(2) by (simp add: disabled_def unat_gt_0)
  moreover have "contents lc1 = take (unat (max_entries (cache_config lc))) ((k, v, t) # drop_key k (contents lc))"
    using put assms(2) by (simp add: spec_put_def disabled_def)
  ultimately have "map_of (contents lc1) k = Some (v, t)" by (simp add: take_Cons')
  with get_simulates [OF lc1(1), of now k] lc1(2) assms(4) show ?thesis by (auto simp: spec_get_def)
qed

lemma cached_get_point:
  assumes "\<not> coordinates_invalid lat lon" and "points_cache c = Some lc"
    and "LruCache_get (fst (steady_now (clock P) w)) (point_key lat lon) lc = Some (Some v, lc2)"
  shows "get_point P lat lon c w =
           Some (Inr v, c\<lparr>points_cache := Some lc2\<rparr>, snd (steady_now (clock P) w))"
proof -
  obtain now w1 where "steady_now (clock P) w = (now, w1)" by (cases "steady_now (clock P) w")
  moreover have "point_key lat lon \<in> fst ` set (entries lc)"
    using assms(3) by (auto simp: LruCache_get_def dest: map_of_SomeD split: option.splits intro: rev_image_eqI)
  ultimately show ?thesis using assms by (simp add: get_point_def cache_lookup_def)
qed

section \<open>Properties\<close>

text \<open>
  The rate limit holds for the whole client: over any sequence of requests, with retries, errors
  and waiting, the number of HTTP transfers sent since the client was made is at most the initial
  tokens plus one per refill interval elapsed (both sides scaled by the interval in nanoseconds),
  and at most \<open>max_attempts\<close> per request; and every request returns, with a response or an error.
\<close>

theorem client_rate_bound:
  assumes "platform_ok P tm transfers" and "now \<le> tm w"
    and "refill_interval (sanitized (rate_limit cfg)) < ns_to_ms int64_max"
  shows "\<exists>rs c' w'. requests P paths (make_NWSClient g i cfg now) w = Some (rs, c', w') \<and>
           length rs = length paths \<and>
           transfers w' \<le> transfers w + length paths * unat (max_attempts (retry cfg)) \<and>
           (int (transfers w') - int (transfers w)) * ms_to_ns (refill_interval (sanitized (rate_limit cfg))) \<le>
             uint (initial_tokens (sanitized (rate_limit cfg))) * ms_to_ns (refill_interval (sanitized (rate_limit cfg))) +
             (tm w' - now)"
proof -
  from requests_ok [OF make_pipeline_ok [OF assms], where paths = paths and g1 = g and i1 = i] show ?thesis
    using pipeline_rate by (fastforce simp: make_NWSClient_def)
qed

text \<open>A world of a clock and a transfer counter, for the witnesses; every transfer answers with the document.\<close>

definition demo_platform :: "json \<Rightarrow> (int \<times> nat) platform" where
  "demo_platform doc =
     \<lparr>clock = \<lparr>steady_now = (\<lambda>(t, n). (t, t + 1, n)), sleep_for = (\<lambda>d (t, n). (t + max d 0, n))\<rparr>,
      jitter = low_draw,
      libcurl = \<lparr>slist_append = (\<lambda>_ w. (True, w)), setopt = (\<lambda>_. True),
        perform = (\<lambda>_ (t, n). (([Body_Chunk True ''{}'' 1 2], 0), (t + 1, Suc n))),
        strerror = (\<lambda>_. ''error''), response_code = (\<lambda>_. Some 200)\<rparr>,
      json_read = (\<lambda>b. if b = ''{}'' then Inr doc else Inl ''syntax error''),
      to_chars = (\<lambda>_. None), format_double = (\<lambda>_. ''0'')\<rparr>"

lemma demo_platform_ok: "platform_ok (demo_platform doc) fst snd"
  by (auto simp: platform_ok_def demo_platform_def steady_env_def low_draw_def)

definition demo_config :: NWSClientConfig where
  "demo_config = \<lparr>http = default_ClientConfig, rate_limit = default_RateLimiterConfig,
     retry = default_RetryPolicy, cache = default_LruCacheConfig, enable_cache = True\<rparr>"

theorem client_rate_bound_witness:
  "\<exists>rs c' t n. requests (demo_platform JNull) [''/glossary'', ''/alerts''] (make_NWSClient True True demo_config 0) (0, 0) =
      Some (rs, c', t, n) \<and> length rs = 2 \<and> n \<le> 6 \<and> int n * 1000000000 \<le> 5 * 1000000000 + t"
proof -
  have s: "refill_interval (sanitized (rate_limit demo_config)) = 1000"
    "uint (initial_tokens (sanitized (rate_limit demo_config))) = 5"
    "unat (max_attempts (retry demo_config)) = 3"
    by (simp_all add: demo_config_def sanitized_def default_RateLimiterConfig_def default_RetryPolicy_def)
  have b: "(1000::int) < ns_to_ms int64_max" by (simp add: ns_to_ms_def sdiv_nonneg)
  from client_rate_bound [where now = 0 and w = "(0, 0)" and cfg = demo_config and g = True and i = True
      and paths = "[''/glossary'', ''/alerts'']", OF demo_platform_ok [of JNull], unfolded s]
  show ?thesis using b by (auto simp: ms_to_ns_def)
qed

lemma coordinate_lits:
  "dlit (- 90) = Fin True 90" "dlit 90 = Fin False 90" "dlit (- 180) = Fin True 180" "dlit 180 = Fin False 180"
  using round64_int [of 90 True] round64_int [of 90 False] round64_int [of 180 True] round64_int [of 180 False]
  by (simp_all add: dlit_def)

lemma origin_valid: "\<not> coordinates_invalid (Fin True 0) (Fin False 0)" "\<not> coordinates_invalid (Fin False 0) (Fin False 0)"
  by (simp_all add: coordinates_invalid_def coordinate_lits)

text \<open>
  C23: after a point has been fetched and cached, asking for the same coordinates again (the two zeros
  count as one) within the time to live answers with the same response without a request: only the
  clock is read, and no token is taken.
\<close>

theorem get_point_cached:
  assumes "points_cache c = Some lc" and "lru_inv lc" and "\<not> disabled (cache_config lc)"
    and "map_of (contents lc) (point_key lat lon) = None"
    and "get_point P lat lon c w = Some (Inr v, c1, w1)"
    and "\<not> coordinates_invalid lat' lon'" and "point_key lat' lon' = point_key lat lon"
  shows "\<exists>w'. w1 = snd (steady_now (clock P) w') \<and>
           (\<forall>w2. fst (steady_now (clock P) w2) - fst (steady_now (clock P) w') \<le> ttl (cache_config lc) * ns_per_s \<longrightarrow>
              (\<exists>c2. get_point P lat' lon' c1 w2 = Some (Inr v, c2, snd (steady_now (clock P) w2)) \<and>
                    rate_limiter c2 = rate_limiter c1))"
proof -
  let ?k = "point_key lat lon"
  have ok: "\<not> coordinates_invalid lat lon" using assms(5) by (auto simp: get_point_def split: if_splits)
  have "cache_lookup P ?k c w = Some (None, c, w)"
    using lookup_absent [OF assms(1,2,4)] .
  then obtain c' w' where e: "endpoint (decode_with deserialize_point_response (default_GeoJsonFeature default_PointProperties))
        P (''/points/'' @ format_double P lat @ '','' @ format_double P lon) c w = Some (Inr v, c', w')"
      and st: "cache_store P ?k v c' w' = Some (c1, w1)"
    using assms(5) ok by (auto simp: get_point_def split: option.splits sum.splits)
  have lc: "points_cache c' = Some lc" using endpoint_keeps_cache [OF e] assms(1) by simp
  obtain t w3 where t: "steady_now (clock P) w' = (t, w3)" by (cases "steady_now (clock P) w'")
  from st lc t obtain r lc1 where put: "LruCache_put True True t ?k v lc = Some (r, lc1)"
      and c1: "c1 = c'\<lparr>points_cache := Some lc1\<rparr>" "w1 = w3"
    using assms(3) by (auto simp: cache_store_def disabled_def)
  have "\<exists>c2. get_point P lat' lon' c1 w2 = Some (Inr v, c2, snd (steady_now (clock P) w2)) \<and>
      rate_limiter c2 = rate_limiter c1"
    if near: "fst (steady_now (clock P) w2) - t \<le> ttl (cache_config lc) * ns_per_s" for w2
  proof -
    obtain lc2 where "LruCache_get (fst (steady_now (clock P) w2)) ?k lc1 = Some (Some v, lc2)"
      using put_then_get [OF assms(2,3) put near] by blast
    then have "get_point P lat' lon' c1 w2 =
        Some (Inr v, c1\<lparr>points_cache := Some lc2\<rparr>, snd (steady_now (clock P) w2))"
      using c1 assms(6,7) by (intro cached_get_point) simp_all
    then show ?thesis by simp
  qed
  then show ?thesis using t c1(2) by (intro exI [of _ w']) simp
qed

lemma demo_request:
  "request_once (demo_platform doc) (http_client (make_NWSClient True True demo_config 0)) ''/points/0,0''
     (make_RateLimiter default_RateLimiterConfig 0, 0, 0) =
   Some (Inr \<lparr>status_code = 200, body = ''{}'', headers = []\<rparr>,
     \<lparr>limiter_config = default_RateLimiterConfig, tokens = 4, last_refill = 0\<rparr>, 2, 1)"
proof -
  have a: "acquire (clock (demo_platform doc)) (make_RateLimiter default_RateLimiterConfig 0) (0, 0) =
      Some (True, \<lparr>limiter_config = default_RateLimiterConfig, tokens = 4, last_refill = 0\<rparr>, 1, 0)"
  proof -
    have "take_or_wait_time (clock (demo_platform doc)) (make_RateLimiter default_RateLimiterConfig 0) (0, 0) =
        (None, \<lparr>limiter_config = default_RateLimiterConfig, tokens = 4, last_refill = 0\<rparr>, 1, 0)"
      by code_simp
    moreover have "max_wait (limiter_config (make_RateLimiter default_RateLimiterConfig 0)) = None" by code_simp
    ultimately show ?thesis by (simp add: acquire_def acquire_until.simps)
  qed
  have h: "HttpClient_get (libcurl (demo_platform doc)) (make_HttpClient True True default_ClientConfig) ''/points/0,0'' (1, 0) =
      (Inr \<lparr>status_code = 200, body = ''{}'', headers = []\<rparr>, 2, 1)"
    by code_simp
  show ?thesis by (simp add: request_once_def a h make_NWSClient_def demo_config_def)
qed

lemma demo_get_point:
  "\<exists>v c1. get_point (demo_platform (JObject [])) (Fin False 0) (Fin False 0)
     (make_NWSClient True True demo_config 0) (0, 0) = Some (Inr v, c1, (3, 1))"
proof -
  let ?P = "demo_platform (JObject [])" and ?c = "make_NWSClient True True demo_config 0"
  let ?rl = "\<lparr>limiter_config = default_RateLimiterConfig, tokens = 4, last_refill = 0\<rparr>"
  let ?resp = "\<lparr>status_code = 200, body = ''{}'', headers = []\<rparr>"
  let ?lc = "make_LruCache \<lparr>max_entries = max_entries (cache demo_config), ttl = ttl (cache demo_config)\<rparr> ::
    (CoordinateKey, PointResponse) LruCache"
  have c: "rate_limiter ?c = make_RateLimiter default_RateLimiterConfig 0" "retry_policy ?c = default_RetryPolicy"
      "points_cache ?c = Some ?lc"
    by (simp_all add: make_NWSClient_def demo_config_def)
  have "1 \<le> max_attempts default_RetryPolicy" by (simp add: default_RetryPolicy_def)
  then have "do_get ?P ''/points/0,0'' ?c (0, 0) = Some (Inr ?resp, ?c\<lparr>rate_limiter := ?rl\<rparr>, 2, 1)"
    by (simp add: do_get_def with_retry_def c demo_request should_retry_def should_retry_response_def
        with_retry_loop.simps [of _ _ _ default_RetryPolicy 1])
  then have e: "endpoint (decode_with deserialize_point_response (default_GeoJsonFeature default_PointProperties)) ?P
      ''/points/0,0'' ?c (0, 0) =
      Some (Inr (populate_feature populate_point_properties (JObject []) (default_GeoJsonFeature default_PointProperties)),
        ?c\<lparr>rate_limiter := ?rl\<rparr>, 2, 1)" (is "_ = Some (Inr ?v, _)")
    by (simp add: endpoint_def body_or_error_def decode_with_def deserialize_point_response_def read_into_def
        parse_root_def demo_platform_def)
  have clk: "steady_now (clock ?P) (t, n) = (t, t + 1, n)" for t n by (simp add: demo_platform_def)
  have fmt: "format_double ?P x = ''0''" for x by (simp add: demo_platform_def)
  have "map_of (contents ?lc) k = None" for k by (simp add: contents_def view_def make_LruCache_def)
  then have look: "cache_lookup ?P k ?c (0, 0) = Some (None, ?c, 0, 0)" for k
    by (intro lookup_absent [OF c(3) make_LruCache_inv])
  obtain r lc' where put: "LruCache_put True True 2 k ?v ?lc = Some (r, lc')" if "k = point_key (Fin False 0) (Fin False 0)" for k
    using put_simulates [OF make_LruCache_inv, of True True 2 "point_key (Fin False 0) (Fin False 0)" ?v
        "\<lparr>max_entries = max_entries (cache demo_config), ttl = ttl (cache demo_config)\<rparr>"] by auto
  have on: "max_entries (cache_config ?lc) \<noteq> 0" "\<not> ttl (cache_config ?lc) \<le> 0"
    by (simp_all add: make_LruCache_def demo_config_def default_LruCacheConfig_def)
  show ?thesis
    using origin_valid(2) e put
    by (simp add: get_point_def fmt look cache_store_def c clk on)
qed

theorem get_point_cached_witness:
  "\<exists>v c1 c2. get_point (demo_platform (JObject [])) (Fin False 0) (Fin False 0)
       (make_NWSClient True True demo_config 0) (0, 0) = Some (Inr v, c1, (3, 1)) \<and>
     get_point (demo_platform (JObject [])) (Fin True 0) (Fin False 0) c1 (3, 1) = Some (Inr v, c2, (4, 1))"
proof -
  let ?P = "demo_platform (JObject [])" and ?c = "make_NWSClient True True demo_config 0"
  let ?lc = "make_LruCache \<lparr>max_entries = max_entries (cache demo_config), ttl = ttl (cache demo_config)\<rparr> ::
    (CoordinateKey, PointResponse) LruCache"
  have lc: "points_cache ?c = Some ?lc" by (simp add: make_NWSClient_def demo_config_def)
  have cfg: "\<not> disabled (cache_config ?lc)" "ttl (cache_config ?lc) = 3600"
    by (simp_all add: disabled_def make_LruCache_def demo_config_def default_LruCacheConfig_def)
  have absent: "map_of (contents ?lc) (point_key (Fin False 0) (Fin False 0)) = None"
    by (simp add: contents_def view_def make_LruCache_def)
  have key: "point_key (Fin True 0) (Fin False 0) = point_key (Fin False 0) (Fin False 0)"
    by (simp add: point_key_def canonical_key_def)
  obtain v c1 where first: "get_point ?P (Fin False 0) (Fin False 0) ?c (0, 0) = Some (Inr v, c1, (3, 1))"
    using demo_get_point by blast
  from get_point_cached [OF lc make_LruCache_inv cfg(1) absent first origin_valid(1) key] obtain w' where
    w': "(3, 1) = snd (steady_now (clock ?P) w')"
      "\<forall>w2. fst (steady_now (clock ?P) w2) - fst (steady_now (clock ?P) w') \<le> ttl (cache_config ?lc) * ns_per_s \<longrightarrow>
        (\<exists>c2. get_point ?P (Fin True 0) (Fin False 0) c1 w2 = Some (Inr v, c2, snd (steady_now (clock ?P) w2)) \<and>
              rate_limiter c2 = rate_limiter c1)"
    by blast
  have clk: "steady_now (clock ?P) (t, n) = (t, t + 1, n)" for t n by (simp add: demo_platform_def)
  from w'(1) have "w' = (2, 1)" by (cases w') (simp add: clk)
  with w'(2) [THEN spec, of "(3, 1)"] have "\<exists>c2. get_point ?P (Fin True 0) (Fin False 0) c1 (3, 1) = Some (Inr v, c2, (4, 1))"
    by (auto simp: clk cfg(2))
  with first show ?thesis by blast
qed

text \<open>
  Coordinates are validated before anything else: unless both are finite, the latitude within 90
  and the longitude within 180 degrees, the call fails with an invalid request and neither the
  client nor the world changes.
\<close>

theorem get_point_validates:
  "(\<exists>s m t n. lat = Fin s m \<and> lon = Fin t n \<and> \<bar>dval lat\<bar> \<le> 90 \<and> \<bar>dval lon\<bar> \<le> 180) \<or>
   (\<exists>e. get_point P lat lon c w = Some (Inl e, c, w) \<and> code e = ErrorCode.InvalidRequest)"
proof (cases "coordinates_invalid lat lon")
  case True
  then show ?thesis by (simp add: get_point_def error_constructors)
next
  case False
  from False show ?thesis
    by (cases lat; cases lon) (auto simp: coordinates_invalid_def coordinate_lits abs_le_iff split: if_splits)
qed

text \<open>
  C25: the query strings of the alert and observation endpoints read back, in a server that splits at
  the separators and undoes the percent encoding, as exactly the parameters that were set, in
  order, whatever bytes they hold.
\<close>

theorem query_roundtrip:
  "parse_fields percent_decode (build_alerts_query a) = Some (alert_fields a) \<and>
   parse_fields percent_decode (build_observations_query obs) = Some (observation_fields obs)"
  unfolding build_query_fields
  by (intro conjI url_codec.parse_render_fields)
    (simp_all add: alert_fields_def observation_fields_def plain_fields)

text \<open>
  C26: an identifier cannot change the shape of a request, unless it is \<open>.\<close> or \<open>..\<close>: for every method that
  puts identifiers into its path, the path holds no query or fragment, and cut at the slashes, with
  dot segments removed as libcurl does and percent-decoded, it gives back exactly the fixed segments
  and the identifiers, whatever bytes they hold.
\<close>

theorem path_segments:
  assumes "\<forall>i\<in>{station, type, zid, tid, loc, wfo, ident}. i \<noteq> ''.'' \<and> i \<noteq> ''..''"
  shows "asks P (get_station P station) [''stations'', station] \<and>
    asks P (get_observations P station obs) [''stations'', station, ''observations''] \<and>
    asks P (get_latest_observation P station) [''stations'', station, ''observations'', ''latest''] \<and>
    asks P (get_gridpoint P wfo x y) [''gridpoints'', wfo, int_to_string x @ '','' @ int_to_string y] \<and>
    asks P (get_forecast P wfo x y u) [''gridpoints'', wfo, int_to_string x @ '','' @ int_to_string y, ''forecast''] \<and>
    asks P (get_forecast_hourly P wfo x y u)
      [''gridpoints'', wfo, int_to_string x @ '','' @ int_to_string y, ''forecast'', ''hourly''] \<and>
    asks P (get_gridpoint_stations P wfo x y)
      [''gridpoints'', wfo, int_to_string x @ '','' @ int_to_string y, ''stations''] \<and>
    asks P (get_zone P type zid) [''zones'', type, zid] \<and>
    asks P (get_zone_forecast P type zid) [''zones'', type, zid, ''forecast''] \<and>
    asks P (get_active_alerts_by_area P ident) [''alerts'', ''active'', ''area'', ident] \<and>
    asks P (get_active_alerts_by_zone P ident) [''alerts'', ''active'', ''zone'', ident] \<and>
    asks P (get_alert P ident) [''alerts'', ident] \<and>
    asks P (get_latest_product P tid loc) [''products'', ''types'', tid, ''locations'', loc, ''latest''] \<and>
    asks P (get_product P ident) [''products'', ident]"
  using assms by (intro conjI station_segments gridpoint_segments zone_segments alert_segments product_segments) blast+

theorem path_segments_witness:
  "asks (demo_platform JNull) (get_station (demo_platform JNull) ''K/../A?x=1#'') [''stations'', ''K/../A?x=1#''] \<and>
   asks (demo_platform JNull) (get_product (demo_platform JNull) ''...'') [''products'', ''...'']"
  using path_segments [of "''K/../A?x=1#''" "[]" "[]" "[]" "[]" "[]" "''...''" "demo_platform JNull"] by simp

text \<open>What an error owes to the response it was made from.\<close>

definition describes :: "json_reader \<Rightarrow> HttpResponse \<Rightarrow> Error \<Rightarrow> bool" where
  "describes r resp e \<longleftrightarrow>
     http_status e = status_code resp \<and>
     (code e = ErrorCode.NotFound \<longleftrightarrow> status_code resp = 404) \<and>
     (code e = ErrorCode.InvalidRequest \<longleftrightarrow> status_code resp = 400) \<and>
     (code e = ErrorCode.RateLimited \<longleftrightarrow> status_code resp = 429 \<or> status_code resp = 503) \<and>
     (code e = ErrorCode.ServerError \<longleftrightarrow> 500 \<le> status_code resp \<and> status_code resp \<le> 599 \<and> status_code resp \<noteq> 503) \<and>
     code e \<in> {ErrorCode.NotFound, ErrorCode.InvalidRequest, ErrorCode.RateLimited, ErrorCode.ServerError, ErrorCode.Unknown} \<and>
     message e \<noteq> [] \<and>
     (\<forall>obj. r (body resp) = Inr (JObject obj) \<longrightarrow>
        (\<forall>t. map_of obj ''title'' = Some (JString t) \<and> t \<noteq> [] \<longrightarrow> message e = t) \<and>
        (\<forall>d. map_of obj ''detail'' = Some (JString d) \<longrightarrow> detail e = d) \<and>
        (\<forall>i. (\<forall>x\<in>set (headers resp). \<not> correlation_name (fst x)) \<and> map_of obj ''correlationId'' = Some (JString i) \<longrightarrow>
           correlation_id e = i)) \<and>
     ((\<forall>obj. r (body resp) \<noteq> Inr (JObject obj)) \<longrightarrow>
        message e = (if body resp = [] then ''HTTP '' @ int_to_string (status_code resp) else take 256 (body resp))) \<and>
     (\<forall>before k v after. headers resp = before @ (k, v) # after \<and> correlation_name k \<and> v \<noteq> [] \<and>
        (\<forall>x\<in>set before. \<not> correlation_name (fst x)) \<longrightarrow> correlation_id e = v)"

lemma from_response_describes:
  "describes r resp (from_response r (status_code resp) (body resp) (get_correlation_id resp))"
proof -
  define e where "e = from_response r (status_code resp) (body resp) (get_correlation_id resp)"
  have status: "http_status e = status_code resp" "code e = status_code_class (status_code resp)" "message e \<noteq> []"
    "get_correlation_id resp \<noteq> [] \<Longrightarrow> correlation_id e = get_correlation_id resp"
    by (auto simp: e_def from_response_def Let_def default_Error_def string_member_def split: sum.splits json.splits option.splits)
  have problem: "map_of obj ''title'' = Some (JString t) \<Longrightarrow> t \<noteq> [] \<Longrightarrow> message e = t"
    "map_of obj ''detail'' = Some (JString t) \<Longrightarrow> detail e = t"
    "get_correlation_id resp = [] \<Longrightarrow> map_of obj ''correlationId'' = Some (JString t) \<Longrightarrow> correlation_id e = t"
    if "r (body resp) = Inr (JObject obj)" for obj t
    using that by (auto simp: e_def from_response_def Let_def default_Error_def string_member_def)
  have raw: "message e = (if body resp = [] then ''HTTP '' @ int_to_string (status_code resp) else take 256 (body resp))"
    if "\<forall>obj. r (body resp) \<noteq> Inr (JObject obj)"
    using that by (auto simp: e_def from_response_def Let_def default_Error_def split: sum.splits json.splits)
  show ?thesis
    unfolding describes_def e_def [symmetric]
  proof (intro conjI status(1,3) allI impI raw)
    show "code e \<in> {ErrorCode.NotFound, ErrorCode.InvalidRequest, ErrorCode.RateLimited, ErrorCode.ServerError, ErrorCode.Unknown}"
      by (simp add: status(2) status_code_class_def)
    show "correlation_id e = v"
      if "headers resp = before @ (k, v) # after \<and> correlation_name k \<and> v \<noteq> [] \<and> (\<forall>x\<in>set before. \<not> correlation_name (fst x))"
      for before k v after
      using correlation_id_found [of resp before k v after] status(4) that by simp
  qed (use problem correlation_id_absent in \<open>auto simp: status(2) status_code_class_def\<close>)
qed

text \<open>
  C34: what a response becomes. A transport error passes through and a 200 gives the body. Any other
  response becomes an error with its status, classified as not found (404), invalid (400), rate
  limited (429, 503), server error (the other 5xx) or unknown; with the title and detail of a problem
  document, or else the first 256 bytes of the body, or else the status as its message, which is never
  empty; and with the correlation id of the first header of that name, in any capitalisation, or
  without one that of the problem document.
\<close>

theorem response_classified:
  "body_or_error r (Inl e) = Inl e \<and>
   (status_code resp = 200 \<longrightarrow> body_or_error r (Inr resp) = Inr (body resp)) \<and>
   (status_code resp \<noteq> 200 \<longrightarrow> (\<exists>err. body_or_error r (Inr resp) = Inl err \<and> describes r resp err))"
  using from_response_describes by (simp add: body_or_error_def)

theorem response_classified_witness:
  "\<exists>err. body_or_error (\<lambda>_. Inl ''bad'')
       (Inr \<lparr>status_code = 503, body = [], headers = [(''Server'', ''s''), (''X-Correlation-ID'', ''abc'')]\<rparr>) = Inl err \<and>
     code err = ErrorCode.RateLimited \<and> message err = ''HTTP 503'' \<and> correlation_id err = ''abc''"
proof -
  let ?h = "[(''Server'', ''s'')]"
  let ?r = "\<lparr>status_code = 503, body = [], headers = ?h @ (''X-Correlation-ID'', ''abc'') # []\<rparr>"
  have n: "correlation_name ''X-Correlation-ID''" "\<forall>x\<in>set ?h. \<not> correlation_name (fst x)" "int_to_string 503 = ''503''" by code_simp+
  from response_classified [of "\<lambda>_. Inl ''bad''" default_Error ?r, unfolded describes_def] obtain err where
    "body_or_error (\<lambda>_. Inl ''bad'') (Inr ?r) = Inl err" "code err = ErrorCode.RateLimited" "message err = ''HTTP 503''"
    "\<forall>before k v after. headers ?r = before @ (k, v) # after \<and> correlation_name k \<and> v \<noteq> [] \<and>
       (\<forall>x\<in>set before. \<not> correlation_name (fst x)) \<longrightarrow> correlation_id err = v"
    by (auto simp: n(3))
  moreover from this(4) n(1,2) have "correlation_id err = ''abc''" by (metis HttpResponse.select_convs(3) list.distinct(1))
  ultimately show ?thesis by auto
qed

text \<open>
  With every retry switch of the policy on, exactly the responses classified as rate limited or
  server errors are retried; no other response, and of the transport outcomes only network errors.
\<close>

theorem retry_matches_classes:
  assumes "retry_on_rate_limit p" and "retry_on_server_error p" and "retry_on_network_error p"
  shows "should_retry r p \<longleftrightarrow>
    (case r of
       Inr resp \<Rightarrow> status_code_class (status_code resp) \<in> {ErrorCode.RateLimited, ErrorCode.ServerError}
     | Inl e \<Rightarrow> code e = ErrorCode.NetworkError)"
  using assms
  by (auto simp: should_retry_def should_retry_response_def should_retry_error_def status_code_class_def
      split: sum.splits)

theorem retry_matches_classes_witness:
  "should_retry (Inr \<lparr>status_code = 502, body = [], headers = []\<rparr>) default_RetryPolicy \<longleftrightarrow>
   status_code_class 502 \<in> {ErrorCode.RateLimited, ErrorCode.ServerError}"
  using retry_matches_classes [of default_RetryPolicy "Inr \<lparr>status_code = 502, body = [], headers = []\<rparr>"]
  by (simp add: default_RetryPolicy_def)

end
