(* ===== verification/Api_Session.thy ===== *)
theory Api_Session
  imports Nws_Client
begin

text \<open>
  A client's life: any sequence of calls of the methods of \<open>NWSClient\<close> (\<open>src/api/client.cpp\<close>). Every
  method is shown to meet one contract: called on a sound client it returns, not before it was
  called, leaves the client sound and sends a bounded number of requests. Soundness joins the invariants of the components a method
  goes through: the token bucket with its budget, the retry policy, the point cache.
\<close>

section \<open>The contract of a method\<close>

definition client_ok ::
  "'w platform \<Rightarrow> ('w \<Rightarrow> nanoseconds) \<Rightarrow> ('w \<Rightarrow> nat) \<Rightarrow> NWSClientConfig \<Rightarrow> int \<Rightarrow> NWSClient \<Rightarrow> 'w \<Rightarrow> bool" where
  "client_ok P tm transfers cfg budget c w \<longleftrightarrow>
     pipeline_ok P tm transfers (sanitized (rate_limit cfg)) budget (rate_limiter c, w) \<and>
     retry_policy c = retry cfg \<and>
     (case points_cache c of
        None \<Rightarrow> \<not> enable_cache cfg
      | Some lc \<Rightarrow> enable_cache cfg \<and> lru_inv lc \<and> max_entries (cache_config lc) = max_entries (cache cfg))"

text \<open>\<open>served ... n f\<close>: the method \<open>f\<close> returns, keeps the client sound, makes at most \<open>n\<close> requests and never turns time back.\<close>

definition served ::
  "'w platform \<Rightarrow> ('w \<Rightarrow> nanoseconds) \<Rightarrow> ('w \<Rightarrow> nat) \<Rightarrow> NWSClientConfig \<Rightarrow> int \<Rightarrow> nat \<Rightarrow>
    (NWSClient \<Rightarrow> 'w \<Rightarrow> ('r \<times> NWSClient \<times> 'w) option) \<Rightarrow> bool" where
  "served P tm transfers cfg budget n f \<longleftrightarrow>
     (\<forall>c w. client_ok P tm transfers cfg budget c w \<longrightarrow>
        (\<exists>r c' w'. f c w = Some (r, c', w') \<and> client_ok P tm transfers cfg budget c' w' \<and>
           transfers w' \<le> transfers w + n * unat (max_attempts (retry cfg)) \<and> tm w \<le> tm w'))"

lemma servedE:
  assumes "served P tm transfers cfg budget n f" and "client_ok P tm transfers cfg budget c w"
  obtains r c' w' where "f c w = Some (r, c', w')" "client_ok P tm transfers cfg budget c' w'"
    "transfers w' \<le> transfers w + n * unat (max_attempts (retry cfg))" "tm w \<le> tm w'"
  using assms unfolding served_def by blast

lemma served_more: "served P tm transfers cfg budget m f \<Longrightarrow> m \<le> n \<Longrightarrow> served P tm transfers cfg budget n f"
  unfolding served_def by (meson add_left_mono mult_le_mono1 order_trans)

text \<open>Sequencing, with an early return for an error.\<close>

lemma served_then:
  assumes "served P tm transfers cfg budget m f" and "\<And>v. served P tm transfers cfg budget n (g v)"
    and "\<And>c w. h c w = (case f c w of
            None \<Rightarrow> None | Some (Inl e, c, w) \<Rightarrow> Some (Inl e, c, w) | Some (Inr v, c, w) \<Rightarrow> g v c w)"
  shows "served P tm transfers cfg budget (m + n) h"
  unfolding served_def
proof (intro allI impI)
  fix c w
  assume "client_ok P tm transfers cfg budget c w"
  with assms(1) obtain r c1 w1 where f: "f c w = Some (r, c1, w1)" "client_ok P tm transfers cfg budget c1 w1"
      "transfers w1 \<le> transfers w + m * unat (max_attempts (retry cfg))" "tm w \<le> tm w1" by (rule servedE)
  show "\<exists>r c' w'. h c w = Some (r, c', w') \<and> client_ok P tm transfers cfg budget c' w' \<and>
      transfers w' \<le> transfers w + (m + n) * unat (max_attempts (retry cfg)) \<and> tm w \<le> tm w'"
  proof (cases r)
    case (Inl e)
    with f assms(3) show ?thesis by (simp add: add_mult_distrib)
  next
    case (Inr v)
    from assms(2) f(2) obtain r' c2 w2 where "g v c1 w1 = Some (r', c2, w2)"
        "client_ok P tm transfers cfg budget c2 w2"
        "transfers w2 \<le> transfers w1 + n * unat (max_attempts (retry cfg))" "tm w1 \<le> tm w2" by (rule servedE)
    with f Inr assms(3) show ?thesis by (simp add: add_mult_distrib)
  qed
qed

lemma client_ok_pipeline:
  assumes "client_ok P tm transfers cfg budget c w"
    and "pipeline_ok P tm transfers (sanitized (rate_limit cfg)) budget (rate_limiter c', w')"
    and "c' = c\<lparr>rate_limiter := rate_limiter c'\<rparr>"
  shows "client_ok P tm transfers cfg budget c' w'"
  using assms(1,2) by (subst assms(3), subst (asm) assms(3)) (simp add: client_ok_def)

lemma client_ok_cache:
  assumes "client_ok P tm transfers cfg budget c w" and "points_cache c = Some lc"
    and "lru_inv lc'" "cache_config lc' = cache_config lc" and "tm w \<le> tm w'" "transfers w' = transfers w"
  shows "client_ok P tm transfers cfg budget (c\<lparr>points_cache := Some lc'\<rparr>) w'"
  using assms by (auto simp: client_ok_def intro: pipeline_ok_later)

lemma client_ok_clock:
  assumes "client_ok P tm transfers cfg budget c w" and "steady_now (clock P) w = (now, w')"
  shows "tm w \<le> tm w'" "transfers w' = transfers w"
proof -
  have ok: "platform_ok P tm transfers" using assms(1) by (simp add: client_ok_def pipeline_ok_def)
  show "tm w \<le> tm w'" using steady_env_now [OF platform_okD(1) [OF ok] assms(2)] by simp
  show "transfers w' = transfers w" using platform_okD(2) [OF ok, of w] assms(2) by simp
qed

lemma served_endpoint: "served P tm transfers cfg budget 1 (endpoint decode P path)"
  unfolding served_def
proof (intro allI impI)
  fix c w
  assume ok: "client_ok P tm transfers cfg budget c w"
  then have p: "pipeline_ok P tm transfers (sanitized (rate_limit cfg)) budget (rate_limiter c, w)"
    and r: "retry_policy c = retry cfg" by (simp_all add: client_ok_def)
  from do_get_ok [OF p, of path] r client_ok_pipeline [OF ok]
  show "\<exists>r c' w'. endpoint decode P path c w = Some (r, c', w') \<and> client_ok P tm transfers cfg budget c' w' \<and>
      transfers w' \<le> transfers w + 1 * unat (max_attempts (retry cfg)) \<and> tm w \<le> tm w'"
    by (fastforce simp: endpoint_def)
qed

lemma cache_lookup_ok:
  assumes ok: "client_ok P tm transfers cfg budget c w"
  shows "\<exists>r c' w'. cache_lookup P k c w = Some (r, c', w') \<and> client_ok P tm transfers cfg budget c' w' \<and>
           transfers w' = transfers w \<and> tm w \<le> tm w'"
proof (cases "points_cache c")
  case None
  with ok show ?thesis by (simp add: cache_lookup_def)
next
  case (Some lc)
  define s where "s = (if k \<in> fst ` set (entries lc) then steady_now (clock P) w else (0, w))"
  obtain now w1 where s1: "s = (now, w1)" by (cases s)
  have t: "tm w \<le> tm w1" "transfers w1 = transfers w"
    using client_ok_clock [OF ok] s1 unfolding s_def by (auto split: if_splits)
  have "lru_inv lc" using ok Some by (simp add: client_ok_def)
  from get_simulates [OF this, of now k] obtain r lc' where
    "LruCache_get now k lc = Some (r, lc')" "lru_inv lc'" "cache_config lc' = cache_config lc" by blast
  with client_ok_cache [OF ok Some _ _ t] t Some s1 show ?thesis by (simp add: cache_lookup_def flip: s_def)
qed

lemma cache_store_ok:
  assumes ok: "client_ok P tm transfers cfg budget c w"
  shows "\<exists>c' w'. cache_store P k v c w = Some (c', w') \<and> client_ok P tm transfers cfg budget c' w' \<and>
           transfers w' = transfers w \<and> tm w \<le> tm w'"
proof (cases "points_cache c")
  case None
  with ok show ?thesis by (simp add: cache_store_def)
next
  case (Some lc)
  define s where "s = (if max_entries (cache_config lc) = 0 \<or> ttl (cache_config lc) \<le> 0 then (0, w)
               else steady_now (clock P) w)"
  obtain now w1 where s1: "s = (now, w1)" by (cases s)
  have t: "tm w \<le> tm w1" "transfers w1 = transfers w"
    using client_ok_clock [OF ok] s1 unfolding s_def by (auto split: if_splits)
  have "lru_inv lc" using ok Some by (simp add: client_ok_def)
  from put_simulates [OF this, of True True now k v] obtain r lc' where
    "LruCache_put True True now k v lc = Some (r, lc')" "lru_inv lc'" "cache_config lc' = cache_config lc" by blast
  with client_ok_cache [OF ok Some _ _ t] t Some s1 show ?thesis by (simp add: cache_store_def flip: s_def)
qed

lemma served_point: "served P tm transfers cfg budget 1 (get_point P lat lon)"
  unfolding served_def
proof (intro allI impI)
  fix c w
  let ?goal = "\<exists>r c' w'. get_point P lat lon c w = Some (r, c', w') \<and> client_ok P tm transfers cfg budget c' w' \<and>
      transfers w' \<le> transfers w + 1 * unat (max_attempts (retry cfg)) \<and> tm w \<le> tm w'"
  let ?fetch = "endpoint (decode_with deserialize_point_response (default_GeoJsonFeature default_PointProperties)) P
      (''/points/'' @ format_double P lat @ '','' @ format_double P lon)"
  assume ok: "client_ok P tm transfers cfg budget c w"
  obtain hit c1 w1 where l: "cache_lookup P (point_key lat lon) c w = Some (hit, c1, w1)"
      "client_ok P tm transfers cfg budget c1 w1" "transfers w1 = transfers w" "tm w \<le> tm w1"
    using cache_lookup_ok [OF ok] by blast
  obtain r c2 w2 where e: "?fetch c1 w1 = Some (r, c2, w2)" "client_ok P tm transfers cfg budget c2 w2"
      "transfers w2 \<le> transfers w1 + 1 * unat (max_attempts (retry cfg))" "tm w1 \<le> tm w2"
    using served_endpoint l(2) by (rule servedE)
  consider "coordinates_invalid lat lon" | v where "hit = Some v" | err where "hit = None" "r = Inl err"
    | v where "hit = None" "r = Inr v" by (cases hit; cases r) auto
  then show ?goal
  proof cases
    case 4
    obtain c3 w3 where "cache_store P (point_key lat lon) v c2 w2 = Some (c3, w3)"
        "client_ok P tm transfers cfg budget c3 w3" "transfers w3 = transfers w2" "tm w2 \<le> tm w3"
      using cache_store_ok [OF e(2)] by blast
    with 4 ok l e show ?thesis by (simp add: get_point_def)
  qed (use ok l e in \<open>simp_all add: get_point_def\<close>)
qed

lemma served_forecast_for_location: "served P tm transfers cfg budget 2 (get_forecast_for_location P lat lon units)"
proof -
  have "served P tm transfers cfg budget (1 + 1) (get_forecast_for_location P lat lon units)"
    by (rule served_then [OF served_point served_endpoint])
      (rule get_forecast_for_location_def [unfolded get_forecast_def])
  then show ?thesis by (simp only: one_add_one)
qed

lemma served_return: "served P tm transfers cfg budget n (\<lambda>c w. Some (r, c, w))"
  by (simp add: served_def)

lemma served_current_weather: "served P tm transfers cfg budget 3 (get_current_weather P lat lon)"
proof -
  define last where "last stations = (case features stations of
      [] \<Rightarrow> (\<lambda>c w. Some (Inl (Error_not_found ''No observation stations found near location''), c, w))
    | nearest # rest \<Rightarrow> get_latest_observation P (station_identifier (properties nearest)))"
    for stations :: StationCollectionResponse
  define rest where "rest pt c w =
      (case get_gridpoint_stations P (PointProperties.grid_id (properties pt))
              (PointProperties.grid_x (properties pt)) (PointProperties.grid_y (properties pt)) c w of
         None \<Rightarrow> None | Some (Inl e, c, w) \<Rightarrow> Some (Inl e, c, w) | Some (Inr stations, c, w) \<Rightarrow> last stations c w)"
    for pt :: PointResponse and c w
  have last: "served P tm transfers cfg budget 1 (last stations)" for stations
    by (cases "features stations")
      (simp_all add: last_def get_latest_observation_def served_endpoint served_return del: One_nat_def)
  have rest: "served P tm transfers cfg budget (1 + 1) (rest pt)" for pt
    by (rule served_then [OF served_endpoint last]) (simp add: rest_def get_gridpoint_stations_def)
  have "served P tm transfers cfg budget (1 + (1 + 1)) (get_current_weather P lat lon)"
    by (rule served_then [where f = "get_point P lat lon" and g = rest, OF served_point rest])
      (simp add: rest_def last_def get_current_weather_def split: option.splits prod.splits sum.splits list.splits)
  then show ?thesis by (simp add: numeral_3_eq_3)
qed

section \<open>Sessions\<close>

datatype api_call =
    Get_point double double
  | Get_forecast string int int "UnitSystem option"
  | Get_forecast_hourly string int int "UnitSystem option"
  | Get_gridpoint string int int
  | Get_gridpoint_stations string int int
  | Get_station string
  | Get_observations string GetObservationsParams
  | Get_latest_observation string
  | Get_alerts GetAlertsParams
  | Get_active_alerts GetAlertsParams
  | Get_active_alert_count
  | Get_active_alerts_by_area string
  | Get_active_alerts_by_zone string
  | Get_alert string
  | Get_alert_types
  | Get_zone string string
  | Get_zone_forecast string string
  | Get_glossary
  | Get_latest_product string string
  | Get_product string
  | Get_forecast_for_location double double "UnitSystem option"
  | Get_current_weather double double

text \<open>What a session keeps of a reply: whether it is an error, and which.\<close>

definition outcome ::
  "(NWSClient \<Rightarrow> 'w \<Rightarrow> ('a result \<times> NWSClient \<times> 'w) option) \<Rightarrow>
    NWSClient \<Rightarrow> 'w \<Rightarrow> (unit result \<times> NWSClient \<times> 'w) option" where
  "outcome f c w = map_option (\<lambda>(r, s). (map_sum id (\<lambda>_. ()) r, s)) (f c w)"

fun run_call :: "'w platform \<Rightarrow> api_call \<Rightarrow> NWSClient \<Rightarrow> 'w \<Rightarrow> (unit result \<times> NWSClient \<times> 'w) option" where
  "run_call P (Get_point lat lon) = outcome (get_point P lat lon)"
| "run_call P (Get_forecast wfo x y u) = outcome (get_forecast P wfo x y u)"
| "run_call P (Get_forecast_hourly wfo x y u) = outcome (get_forecast_hourly P wfo x y u)"
| "run_call P (Get_gridpoint wfo x y) = outcome (get_gridpoint P wfo x y)"
| "run_call P (Get_gridpoint_stations wfo x y) = outcome (get_gridpoint_stations P wfo x y)"
| "run_call P (Get_station s) = outcome (get_station P s)"
| "run_call P (Get_observations s ps) = outcome (get_observations P s ps)"
| "run_call P (Get_latest_observation s) = outcome (get_latest_observation P s)"
| "run_call P (Get_alerts ps) = outcome (get_alerts P ps)"
| "run_call P (Get_active_alerts ps) = outcome (get_active_alerts P ps)"
| "run_call P Get_active_alert_count = outcome (get_active_alert_count P)"
| "run_call P (Get_active_alerts_by_area a) = outcome (get_active_alerts_by_area P a)"
| "run_call P (Get_active_alerts_by_zone z) = outcome (get_active_alerts_by_zone P z)"
| "run_call P (Get_alert i) = outcome (get_alert P i)"
| "run_call P Get_alert_types = outcome (get_alert_types P)"
| "run_call P (Get_zone t z) = outcome (get_zone P t z)"
| "run_call P (Get_zone_forecast t z) = outcome (get_zone_forecast P t z)"
| "run_call P Get_glossary = outcome (get_glossary P)"
| "run_call P (Get_latest_product t l) = outcome (get_latest_product P t l)"
| "run_call P (Get_product i) = outcome (get_product P i)"
| "run_call P (Get_forecast_for_location lat lon u) = outcome (get_forecast_for_location P lat lon u)"
| "run_call P (Get_current_weather lat lon) = outcome (get_current_weather P lat lon)"

fun session :: "'w platform \<Rightarrow> api_call list \<Rightarrow> NWSClient \<Rightarrow> 'w \<Rightarrow> (unit result list \<times> NWSClient \<times> 'w) option" where
  "session P [] c w = Some ([], c, w)"
| "session P (x # xs) c w =
     (case run_call P x c w of
        None \<Rightarrow> None
      | Some (r, c, w) \<Rightarrow> map_option (\<lambda>(rs, s). (r # rs, s)) (session P xs c w))"

text \<open>The requests a method makes at most: the convenience methods resolve the point first.\<close>

fun request_count :: "api_call \<Rightarrow> nat" where
  "request_count (Get_forecast_for_location _ _ _) = 2"
| "request_count (Get_current_weather _ _) = 3"
| "request_count _ = 1"

lemma served_outcome: "served P tm transfers cfg budget n f \<Longrightarrow> served P tm transfers cfg budget n (outcome f)"
  unfolding served_def outcome_def by fastforce

lemmas endpoint_defs = get_forecast_def get_forecast_hourly_def get_gridpoint_def get_gridpoint_stations_def
  get_station_def get_observations_def get_latest_observation_def get_alerts_def get_active_alerts_def
  get_active_alert_count_def get_active_alerts_by_area_def get_active_alerts_by_zone_def get_alert_def
  get_alert_types_def get_zone_def get_zone_forecast_def get_glossary_def get_latest_product_def get_product_def

lemma served_call: "served P tm transfers cfg budget (request_count x) (run_call P x)"
  by (cases x) (simp_all add: endpoint_defs served_outcome served_endpoint served_point
      served_forecast_for_location served_current_weather del: One_nat_def)

lemma session_ok:
  "client_ok P tm transfers cfg budget c w \<Longrightarrow>
   \<exists>rs c' w'. session P xs c w = Some (rs, c', w') \<and> length rs = length xs \<and>
     client_ok P tm transfers cfg budget c' w' \<and>
     transfers w' \<le> transfers w + sum_list (map request_count xs) * unat (max_attempts (retry cfg))"
proof (induction xs arbitrary: c w)
  case (Cons x xs)
  from served_call Cons.prems obtain r c1 w1 where x: "run_call P x c w = Some (r, c1, w1)"
      "client_ok P tm transfers cfg budget c1 w1"
      "transfers w1 \<le> transfers w + request_count x * unat (max_attempts (retry cfg))" by (rule servedE)
  from Cons.IH [OF x(2)] obtain rs c' w' where "session P xs c1 w1 = Some (rs, c', w')"
      "length rs = length xs" "client_ok P tm transfers cfg budget c' w'"
      "transfers w' \<le> transfers w1 + sum_list (map request_count xs) * unat (max_attempts (retry cfg))" by blast
  with x show ?case by (simp add: add_mult_distrib)
qed simp

lemma make_LruCache_config: "cache_config (make_LruCache c) = c"
  by (simp add: make_LruCache_def)

lemma make_client_ok:
  assumes "platform_ok P tm transfers" and "now \<le> tm w"
    and "refill_interval (sanitized (rate_limit cfg)) < ns_to_ms int64_max"
  shows "client_ok P tm transfers cfg (start_budget (sanitized (rate_limit cfg)) now (transfers w))
           (make_NWSClient g i cfg now) w"
  using make_pipeline_ok [OF assms, of g i]
  by (simp add: client_ok_def make_NWSClient_def make_LruCache_inv make_LruCache_config)

end
