(* ===== verification/Steady_Service.thy ===== *)
theory Steady_Service
  imports Api_Session
begin

text \<open>
  The client against a service that reacts to a request always in the same way: whether it answers,
  refuses or cannot be reached, the retry loop makes as many attempts as the policy allows for that
  reaction, exactly, and then returns it. From this the methods of the client on a failing service:
  every one of them ends with the error of the failure, after one request, retried or not.
\<close>

section \<open>Operations with one result\<close>

locale steady_operation = retried_operation env draw operation inv actions
  for env :: "'w env" and draw :: "'w draw" and operation :: "'w \<Rightarrow> (HttpResponse result \<times> 'w) option"
    and inv :: "'w \<Rightarrow> bool" and actions :: "'w \<Rightarrow> nat" +
  fixes r :: "HttpResponse result" and cost :: nat
  assumes operation_steady: "inv w \<Longrightarrow> \<exists>w'. operation w = Some (r, w') \<and> inv w' \<and> actions w' = actions w + cost"
begin

lemma with_retry_loop_steady:
  "inv w \<Longrightarrow> attempt \<le> max_attempts p \<Longrightarrow>
   \<exists>w'. with_retry_loop env draw operation p attempt w = Some (r, w') \<and> inv w' \<and>
     actions w' = actions w + cost * (if should_retry r p then Suc (unat (max_attempts p)) - unat attempt else 1)"
proof (induction "unat (max_attempts p) - unat attempt" arbitrary: attempt w rule: less_induct)
  case less
  obtain w1 where o: "operation w = Some (r, w1)" "inv w1" "actions w1 = actions w + cost"
    using operation_steady [OF less.prems(1)] by blast
  note step = with_retry_loop.simps [of env draw operation p attempt w]
  show ?case
  proof (cases "should_retry r p \<and> attempt < max_attempts p")
    case True
    then have nxt: "unat (attempt + 1) = Suc (unat attempt)" using unat_Suc_8 by blast
    obtain d w2 where d: "calculate_retry_delay draw attempt p w1 = (d, w2)"
      by (cases "calculate_retry_delay draw attempt p w1")
    have k: "inv (sleep_for env (ms_to_ns d) w2)" "actions (sleep_for env (ms_to_ns d) w2) = actions w1"
      using delay_keeps [OF o(2) d] sleep_keeps by auto
    have lt: "unat attempt < unat (max_attempts p)" using True by (simp add: word_less_nat_alt)
    then have "unat (max_attempts p) - unat (attempt + 1) < unat (max_attempts p) - unat attempt"
      "attempt + 1 \<le> max_attempts p"
      using nxt by (simp_all add: word_le_nat_alt)
    from less.hyps [OF this(1) k(1) this(2)] True o d less.prems lt nxt k(2) show ?thesis
      by (auto simp: step Suc_diff_le)
  next
    case False
    with less.prems o have "unat (max_attempts p) = unat attempt" if "should_retry r p" using that by simp
    with False o less.prems show ?thesis by (auto simp: step)
  qed
qed

lemma with_retry_steady:
  assumes "inv w" and "1 \<le> max_attempts p"
  shows "\<exists>w'. with_retry env draw operation p w = Some (r, w') \<and> inv w' \<and>
           actions w' = actions w + cost * (if should_retry r p then unat (max_attempts p) else 1)"
  using with_retry_loop_steady [OF assms] by (auto simp: with_retry_def)

end

section \<open>Requests with one result\<close>

text \<open>Every request ends with the result \<open>r\<close>, after \<open>n\<close> transfers: one, or none if it is refused before.\<close>

definition gets_always ::
  "'w platform \<Rightarrow> ('w \<Rightarrow> nat) \<Rightarrow> nat \<Rightarrow> HttpClient \<Rightarrow> string \<Rightarrow> HttpResponse result \<Rightarrow> bool" where
  "gets_always P transfers n hc path r \<longleftrightarrow>
     n \<le> 1 \<and> (\<forall>w. \<exists>w'. HttpClient_get (libcurl P) hc path w = (r, w') \<and> transfers w' = transfers w + n)"

text \<open>Without a limit on the wait, a request is always sent.\<close>

lemma request_once_steady:
  assumes "pipeline_ok P tm transfers cfg budget s" and "max_wait cfg = None" and "gets_always P transfers n hc path r"
  shows "\<exists>s'. request_once P hc path s = Some (r, s') \<and> transfers (snd s') = transfers (snd s) + n"
proof -
  obtain rl w where s: "s = (rl, w)" by (cases s)
  have ok: "platform_ok P tm transfers" and inv: "bucket_inv rl (tm w)"
    and small: "refill_interval (limiter_config rl) < ns_to_ms int64_max" and none: "max_wait (limiter_config rl) = None"
    using assms by (auto simp: pipeline_ok_def s)
  obtain rl1 w1 where a: "acquire (clock P) rl w = Some (True, rl1, w1)"
    using acquire_returns [OF platform_okD(1) [OF ok] inv small] none by auto
  have t: "transfers w1 = transfers w"
    using acquire_credit [where f = transfers, OF a platform_okD(1) [OF ok] inv platform_okD(2) [OF ok]
        platform_okD(3) [OF ok]] by simp
  obtain w2 where "HttpClient_get (libcurl P) hc path w1 = (r, w2)" "transfers w2 = transfers w1 + n"
    using assms(3) unfolding gets_always_def by blast
  with a t show ?thesis by (simp add: request_once_def s)
qed

interpretation steady_request: steady_operation "lift_env (clock P)" "lift_draw (jitter P)" "request_once P hc path"
    "\<lambda>s. (pipeline_ok P tm transfers cfg budget s \<and> since \<le> tm (snd s)) \<and> max_wait cfg = None \<and>
       gets_always P transfers n hc path r" "\<lambda>s. transfers (snd s)" r n
  for P :: "'w platform" and hc path tm transfers cfg budget since r n
proof
  fix s :: "RateLimiter \<times> 'w"
  assume p: "(pipeline_ok P tm transfers cfg budget s \<and> since \<le> tm (snd s)) \<and> max_wait cfg = None \<and>
      gets_always P transfers n hc path r"
  obtain s' where s': "request_once P hc path s = Some (r, s')" "transfers (snd s') = transfers (snd s) + n"
    using request_once_steady p by blast
  with request.operation_returns [of P tm transfers cfg budget s since hc path] p
  show st: "\<exists>s'. request_once P hc path s = Some (r, s') \<and>
      ((pipeline_ok P tm transfers cfg budget s' \<and> since \<le> tm (snd s')) \<and> max_wait cfg = None \<and>
        gets_always P transfers n hc path r) \<and> transfers (snd s') = transfers (snd s) + n"
    by auto
  then show "\<exists>r' s'. request_once P hc path s = Some (r', s') \<and>
      ((pipeline_ok P tm transfers cfg budget s' \<and> since \<le> tm (snd s')) \<and> max_wait cfg = None \<and>
        gets_always P transfers n hc path r) \<and> transfers (snd s') \<le> Suc (transfers (snd s))"
    using p by (fastforce simp: gets_always_def)
  fix d
  show "((pipeline_ok P tm transfers cfg budget (sleep_for (lift_env (clock P)) d s) \<and>
      since \<le> tm (snd (sleep_for (lift_env (clock P)) d s))) \<and> max_wait cfg = None \<and> gets_always P transfers n hc path r) \<and>
      transfers (snd (sleep_for (lift_env (clock P)) d s)) = transfers (snd s)"
    using request.sleep_keeps p by blast
  fix lo hi
  show "((pipeline_ok P tm transfers cfg budget (snd (lift_draw (jitter P) lo hi s)) \<and>
      since \<le> tm (snd (snd (lift_draw (jitter P) lo hi s)))) \<and> max_wait cfg = None \<and> gets_always P transfers n hc path r) \<and>
      transfers (snd (snd (lift_draw (jitter P) lo hi s))) = transfers (snd s)"
    using request.draw_keeps p by blast
qed

text \<open>
  A configuration that waits for tokens and tries at least once; and one the client can work with, whose
  requests are not refused.
\<close>

definition patient :: "NWSClientConfig \<Rightarrow> bool" where
  "patient cfg \<longleftrightarrow> max_wait (rate_limit cfg) = None \<and> 1 \<le> max_attempts (retry cfg)"

definition usable :: "NWSClientConfig \<Rightarrow> bool" where
  "usable cfg \<longleftrightarrow>
     CHR 0x00 \<notin> set (base_url (http cfg)) \<and> \<not> invalid_header (user_agent (http cfg)) \<and>
     \<not> invalid_header (accept (http cfg)) \<and> 0 \<le> timeout (http cfg) \<and> patient cfg"

definition online ::
  "'w platform \<Rightarrow> ('w \<Rightarrow> nanoseconds) \<Rightarrow> ('w \<Rightarrow> nat) \<Rightarrow> NWSClientConfig \<Rightarrow> int \<Rightarrow> NWSClient \<Rightarrow> 'w \<Rightarrow> bool" where
  "online P tm transfers cfg budget c w \<longleftrightarrow>
     client_ok P tm transfers cfg budget c w \<and> http_client c = make_HttpClient True True (http cfg)"

text \<open>The attempts a result costs.\<close>

definition attempts :: "HttpResponse result \<Rightarrow> RetryPolicy \<Rightarrow> nat" where
  "attempts r p = (if should_retry r p then unat (max_attempts p) else 1)"

lemma do_get_steady:
  assumes ok: "online P tm transfers cfg budget c w" and use: "patient cfg"
    and r: "gets_always P transfers n (make_HttpClient True True (http cfg)) path r"
  shows "\<exists>c' w'. do_get P path c w = Some (r, c', w') \<and> online P tm transfers cfg budget c' w' \<and>
           points_cache c' = points_cache c \<and> transfers w' = transfers w + n * attempts r (retry cfg)"
proof -
  have c: "client_ok P tm transfers cfg budget c w" "http_client c = make_HttpClient True True (http cfg)"
    using ok by (simp_all add: online_def)
  then have p: "pipeline_ok P tm transfers (sanitized (rate_limit cfg)) budget (rate_limiter c, w)"
    and pol: "retry_policy c = retry cfg" by (simp_all add: client_ok_def)
  have "max_wait (sanitized (rate_limit cfg)) = None" "1 \<le> max_attempts (retry cfg)"
    using use by (simp_all add: sanitized_def patient_def Let_def)
  with steady_request.with_retry_steady [of P tm transfers "sanitized (rate_limit cfg)" budget "(rate_limiter c, w)" "tm w"
      n "make_HttpClient True True (http cfg)" path r "retry cfg"] p r
  obtain rl w' where "with_retry (lift_env (clock P)) (lift_draw (jitter P)) (request_once P (http_client c) path)
      (retry cfg) (rate_limiter c, w) = Some (r, rl, w')"
      "pipeline_ok P tm transfers (sanitized (rate_limit cfg)) budget (rl, w')"
      "transfers w' = transfers w + n * attempts r (retry cfg)"
    by (auto simp: c(2) attempts_def)
  with c client_ok_pipeline [OF c(1), of "c\<lparr>rate_limiter := rl\<rparr>" w'] pol show ?thesis
    by (simp add: do_get_def online_def)
qed

lemma online_client: "online P tm transfers cfg budget c w \<Longrightarrow> client_ok P tm transfers cfg budget c w"
  by (simp add: online_def)

lemma fresh_online:
  assumes "platform_ok P tm transfers" and "now \<le> tm w"
    and "refill_interval (sanitized (rate_limit cfg)) < ns_to_ms int64_max"
  shows "online P tm transfers cfg (start_budget (sanitized (rate_limit cfg)) now (transfers w))
           (make_NWSClient True True cfg now) w"
  using make_client_ok [OF assms] by (simp add: online_def make_NWSClient_def)

text \<open>
  \<open>transfer_ends P c url rc received st_code\<close>: whenever the URL is transferred, libcurl accepts the header list and
  the options, delivers events that fill the sink as given, and ends with the code and status given.
\<close>

definition transfer_ends :: "'w platform \<Rightarrow> ClientConfig \<Rightarrow> string \<Rightarrow> nat \<Rightarrow> HttpResponse \<Rightarrow> int \<Rightarrow> bool" where
  "transfer_ends P c url rc received st_code \<longleftrightarrow>
     (\<forall>s w. fst (slist_append (libcurl P) s w)) \<and> (\<forall>opt. setopt (libcurl P) opt) \<and>
     (\<forall>w. \<exists>events sink w'. perform (libcurl P) (request_options c url) w = ((events, rc), w') \<and>
        deliver events (empty_sink (max_response_bytes c)) = (True, sink) \<and> \<not> overflowed sink \<and>
        response sink = received \<and> response_code (libcurl P) w' = Some st_code)"

lemma gets_transfer:
  assumes "transfer_ends P (http cfg) (base_url (http cfg) @ path) rc received st_code"
    and "usable cfg" "CHR 0x00 \<notin> set path" and "platform_ok P tm transfers"
  shows "gets_always P transfers 1 (make_HttpClient True True (http cfg)) path
           (if rc \<noteq> CURLE_OK then Inl (Error_network (strerror (libcurl P) rc))
            else Inr (received\<lparr>status_code := to_int16 st_code\<rparr>))"
  unfolding gets_always_def
proof (intro conjI allI order_refl)
  fix w
  let ?c = "http cfg" and ?url = "base_url (http cfg) @ path"
  obtain w1 where s: "slist_append (libcurl P) (''Accept: '' @ accept ?c) w = (True, w1)"
    using assms(1) unfolding transfer_ends_def by (metis (full_types) prod.collapse)
  obtain events sink w2 where p: "perform (libcurl P) (request_options ?c ?url) w1 = ((events, rc), w2)"
      "deliver events (empty_sink (max_response_bytes ?c)) = (True, sink)" "\<not> overflowed sink"
      "response sink = received" "response_code (libcurl P) w2 = Some st_code"
    using assms(1) unfolding transfer_ends_def by blast
  have n: "transfers w2 = Suc (transfers w)"
    using platform_okD(7) [OF assms(4), of "''Accept: '' @ accept ?c" w]
      platform_okD(9) [OF assms(4), of "request_options ?c ?url" w1] unfolding s p(1) by simp
  have "list_all (setopt (libcurl P)) (request_options ?c ?url)"
    using assms(1) by (simp add: transfer_ends_def list_all_iff)
  with assms(2,3) s p n show "\<exists>w'. HttpClient_get (libcurl P) (make_HttpClient True True (http cfg)) path w =
      (if rc \<noteq> CURLE_OK then Inl (Error_network (strerror (libcurl P) rc))
       else Inr (received\<lparr>status_code := to_int16 st_code\<rparr>), w') \<and> transfers w' = transfers w + 1"
    by (simp add: HttpClient_get_def make_HttpClient_def usable_def del: append_Cons append_Nil)
qed

section \<open>Paths hold no NUL\<close>

lemma nul_free [simp]:
  "CHR 0x00 \<notin> set (encode_query_value s)" "CHR 0x00 \<notin> set (int_to_string i)"
proof -
  have "\<not> url_safe CHR 0x00" by code_simp
  then show "CHR 0x00 \<notin> set (encode_query_value s)" using encode_url_safe by blast
  then have "CHR 0x00 \<notin> set (encode_query_value s)" for s using encode_url_safe \<open>\<not> url_safe CHR 0x00\<close> by blast
  from this [of "int_to_string i"] show "CHR 0x00 \<notin> set (int_to_string i)" by (simp only: encode_int_to_string) simp
qed

lemma join_with_chars: "c \<in> set (join_with d xs) \<Longrightarrow> c = d \<or> (\<exists>x\<in>set xs. c \<in> set x)"
  by (induction d xs rule: join_with.induct) auto

lemma nul_free_fields:
  assumes "\<And>k vs. (k, vs) \<in> set fs \<Longrightarrow> CHR 0x00 \<notin> set k"
  shows "CHR 0x00 \<notin> set (render_fields encode_query_value fs)"
proof
  assume "CHR 0x00 \<in> set (render_fields encode_query_value fs)"
  then obtain f where "f \<in> set fs" "CHR 0x00 \<in> set (render_field encode_query_value f)"
    by (auto simp: render_fields_def split: if_splits dest!: join_with_chars)
  with assms show False
    by (cases f) (auto simp: render_field_def dest!: join_with_chars)
qed

lemma nul_free_paths [simp]:
  "CHR 0x00 \<notin> set (gridpoint_path wfo x y)" "CHR 0x00 \<notin> set (station_path st)" "CHR 0x00 \<notin> set (zone_path t z)"
  "CHR 0x00 \<notin> set (latest_product_path t l)" "CHR 0x00 \<notin> set (units_query u)"
  by (auto simp: gridpoint_path_def station_path_def zone_path_def latest_product_path_def units_query_def
      split: option.splits)

lemma nul_free_queries [simp]:
  "CHR 0x00 \<notin> set (build_alerts_query p)" "CHR 0x00 \<notin> set (build_observations_query q)"
  unfolding build_query_fields
  by (rule nul_free_fields; auto simp: alert_fields_def observation_fields_def one_field_def many_field_def
      split: option.splits if_splits)+

section \<open>Calls that fail\<close>

definition point_path :: "'w platform \<Rightarrow> double \<Rightarrow> double \<Rightarrow> string" where
  "point_path P lat lon = ''/points/'' @ format_double P lat @ '','' @ format_double P lon"

definition uncached :: "double \<Rightarrow> double \<Rightarrow> NWSClient \<Rightarrow> bool" where
  "uncached lat lon c \<longleftrightarrow>
     (case points_cache c of None \<Rightarrow> True | Some lc \<Rightarrow> map_of (contents lc) (point_key lat lon) = None)"

lemma uncached_lookup:
  assumes "client_ok P tm transfers cfg budget c w" "uncached lat lon c"
  shows "cache_lookup P (point_key lat lon) c w = Some (None, c, w)"
proof (cases "points_cache c")
  case None
  then show ?thesis by (simp add: cache_lookup_def)
next
  case (Some lc)
  with assms show ?thesis by (auto simp: uncached_def client_ok_def intro: lookup_absent)
qed

lemma fresh_uncached: "uncached lat lon (make_NWSClient g i cfg now)"
  by (simp add: uncached_def make_NWSClient_def contents_def view_def make_LruCache_def)

text \<open>The reply of a failing service, and the error it becomes.\<close>

definition reply_of :: "'w platform \<Rightarrow> nat \<Rightarrow> HttpResponse \<Rightarrow> int \<Rightarrow> HttpResponse result" where
  "reply_of P rc received st_code =
     (if rc \<noteq> CURLE_OK then Inl (Error_network (strerror (libcurl P) rc))
      else Inr (received\<lparr>status_code := to_int16 st_code\<rparr>))"

definition failure_of :: "'w platform \<Rightarrow> nat \<Rightarrow> HttpResponse \<Rightarrow> int \<Rightarrow> Error" where
  "failure_of P rc received st_code =
     (if rc \<noteq> CURLE_OK then Error_network (strerror (libcurl P) rc)
      else from_response (json_read P) (to_int16 st_code) (body received) (get_correlation_id received))"

text \<open>
  A client that every request leaves with the error \<open>e\<close> and \<open>n\<close> transfers more: the methods that send a
  request end with it at once.
\<close>

definition stuck_with :: "'w platform \<Rightarrow> ('w \<Rightarrow> nat) \<Rightarrow> Error \<Rightarrow> nat \<Rightarrow> NWSClient \<Rightarrow> 'w \<Rightarrow> bool" where
  "stuck_with P transfers e n c w \<longleftrightarrow>
     (\<forall>path. CHR 0x00 \<notin> set path \<longrightarrow>
        (\<exists>r c' w'. do_get P path c w = Some (r, c', w') \<and> transfers w' = transfers w + n \<and>
           body_or_error (json_read P) r = Inl e))"

definition stops_with :: "('w \<Rightarrow> nat) \<Rightarrow> Error \<Rightarrow> nat \<Rightarrow> (NWSClient \<Rightarrow> 'w \<Rightarrow> ('a result \<times> NWSClient \<times> 'w) option) \<Rightarrow>
    NWSClient \<Rightarrow> 'w \<Rightarrow> bool" where
  "stops_with transfers e n f c w \<longleftrightarrow> (\<exists>c' w'. f c w = Some (Inl e, c', w') \<and> transfers w' = transfers w + n)"

lemma endpoint_stops:
  assumes "stuck_with P transfers e n c w" and "CHR 0x00 \<notin> set path"
  shows "stops_with transfers e n (endpoint decode P path) c w"
proof -
  obtain r c' w' where "do_get P path c w = Some (r, c', w')" "transfers w' = transfers w + n"
      "body_or_error (json_read P) r = Inl e"
    using assms unfolding stuck_with_def by blast
  then show ?thesis by (simp add: stops_with_def endpoint_def)
qed

text \<open>The calls that send a request: the others fail on their coordinates.\<close>

fun sends_request :: "'w platform \<Rightarrow> api_call \<Rightarrow> bool" where
  "sends_request P (Get_point lat lon) \<longleftrightarrow> \<not> coordinates_invalid lat lon \<and> CHR 0x00 \<notin> set (point_path P lat lon)"
| "sends_request P (Get_forecast_for_location lat lon u) \<longleftrightarrow>
     \<not> coordinates_invalid lat lon \<and> CHR 0x00 \<notin> set (point_path P lat lon)"
| "sends_request P (Get_current_weather lat lon) \<longleftrightarrow>
     \<not> coordinates_invalid lat lon \<and> CHR 0x00 \<notin> set (point_path P lat lon)"
| "sends_request P _ \<longleftrightarrow> True"

lemma point_stops:
  assumes ok: "client_ok P tm transfers cfg budget c w" "uncached lat lon c" and stuck: "stuck_with P transfers e n c w"
    and call: "\<not> coordinates_invalid lat lon" "CHR 0x00 \<notin> set (point_path P lat lon)"
  shows "stops_with transfers e n (get_point P lat lon) c w"
  using uncached_lookup [OF ok] endpoint_stops [OF stuck call(2),
      of "decode_with deserialize_point_response (default_GeoJsonFeature default_PointProperties)"] call(1)
  by (auto simp: stops_with_def get_point_def point_path_def)

lemma outcome_stops: "stops_with transfers e n f c w \<Longrightarrow> stops_with transfers e n (outcome f) c w"
  by (auto simp: stops_with_def outcome_def)

lemma call_stops:
  assumes ok: "client_ok P tm transfers cfg budget c w" "\<And>lat lon. uncached lat lon c"
    and stuck: "stuck_with P transfers e n c w" and call: "sends_request P x"
  shows "stops_with transfers e n (run_call P x) c w"
proof -
  note ep = outcome_stops [OF endpoint_stops [OF stuck], unfolded stops_with_def] and p = point_stops [OF ok stuck]
  show ?thesis
  proof (cases x)
    case (Get_point lat lon)
    with outcome_stops [OF p [of lat lon]] call show ?thesis by (simp add: stops_with_def)
  next
    case (Get_forecast_for_location lat lon u)
    with p [of lat lon] call show ?thesis by (auto simp: stops_with_def outcome_def get_forecast_for_location_def)
  next
    case (Get_current_weather lat lon)
    with p [of lat lon] call show ?thesis by (auto simp: stops_with_def outcome_def get_current_weather_def)
  qed (simp_all add: endpoint_defs ep stops_with_def)
qed

lemma failing_stuck:
  assumes ok: "online P tm transfers cfg budget c w" and use: "usable cfg"
    and site: "\<And>url. transfer_ends P (http cfg) url rc received st_code"
    and bad: "rc \<noteq> CURLE_OK \<or> to_int16 st_code \<noteq> 200"
  shows "stuck_with P transfers (failure_of P rc received st_code) (attempts (reply_of P rc received st_code) (retry cfg)) c w"
  unfolding stuck_with_def
proof (intro allI impI)
  fix path :: string
  assume nul: "CHR 0x00 \<notin> set path"
  have plat: "platform_ok P tm transfers" using ok by (simp add: online_def client_ok_def pipeline_ok_def)
  have corr: "get_correlation_id (received\<lparr>status_code := x\<rparr>) = get_correlation_id received" for x
    by (simp add: get_correlation_id_def)
  have "patient cfg" using use by (simp add: usable_def)
  from do_get_steady [OF ok this gets_transfer [OF site use nul plat], folded reply_of_def] bad
  show "\<exists>r c' w'. do_get P path c w = Some (r, c', w') \<and>
      transfers w' = transfers w + attempts (reply_of P rc received st_code) (retry cfg) \<and>
      body_or_error (json_read P) r = Inl (failure_of P rc received st_code)"
    by (auto simp: body_or_error_def reply_of_def failure_of_def corr)
qed

lemma refused_stuck:
  assumes ok: "online P tm transfers cfg budget c w" and use: "patient cfg" and bad: "\<And>path. smuggles (http cfg) path"
  shows "stuck_with P transfers (Error_invalid_request ''Invalid URL, header, or timeout'') 0 c w"
  unfolding stuck_with_def
proof (intro allI impI)
  fix path :: string
  let ?e = "Inl (Error_invalid_request ''Invalid URL, header, or timeout'')"
  have "gets_always P transfers 0 (make_HttpClient True True (http cfg)) path ?e"
    using http_rejects_injection(1) [of "\<lparr>http_config = http cfg, has_handle = True\<rparr>" path "libcurl P"] bad
    by (simp add: gets_always_def make_HttpClient_def)
  from do_get_steady [OF ok use this]
  show "\<exists>r c' w'. do_get P path c w = Some (r, c', w') \<and> transfers w' = transfers w + 0 \<and>
      body_or_error (json_read P) r = Inl (Error_invalid_request ''Invalid URL, header, or timeout'')"
    by (auto simp: body_or_error_def)
qed

section \<open>Properties\<close>

text \<open>
  C5: the client on a service that always fails in the same way, whether the transfer itself fails or
  every response has a status other than 200. Every method that sends a request returns the error of
  that failure (a network error with libcurl's text, or the classified response with its
  correlation id); and the service sees exactly \<open>max_attempts\<close> requests if the failure is one the policy
  retries, and exactly one if it is not. The methods that combine requests stop at the first failure.
\<close>

theorem failing_service:
  assumes "platform_ok P tm transfers" "now \<le> tm w" "refill_interval (sanitized (rate_limit cfg)) < ns_to_ms int64_max"
    and "usable cfg" and "\<And>url. transfer_ends P (http cfg) url rc received st_code"
    and "rc \<noteq> CURLE_OK \<or> to_int16 st_code \<noteq> 200" and "sends_request P x"
  shows "\<exists>c' w'. run_call P x (make_NWSClient True True cfg now) w = Some (Inl (failure_of P rc received st_code), c', w') \<and>
           transfers w' = transfers w +
             (if should_retry (reply_of P rc received st_code) (retry cfg) then unat (max_attempts (retry cfg)) else 1)"
  using call_stops [OF online_client [OF fresh_online [OF assms(1-3)]] fresh_uncached
      failing_stuck [OF fresh_online [OF assms(1-3)] assms(4-6)] assms(7)]
  by (simp add: stops_with_def attempts_def)

text \<open>A service that is down for maintenance.\<close>

definition demo_outage :: "(int \<times> nat) platform" where
  "demo_outage = (demo_platform JNull)\<lparr>libcurl := (libcurl (demo_platform JNull))\<lparr>response_code := (\<lambda>_. Some 503)\<rparr>\<rparr>"

definition outage_reply :: HttpResponse where
  "outage_reply = \<lparr>status_code = 0, body = ''{}'', headers = []\<rparr>"

lemma outage_ends: "transfer_ends demo_outage (http demo_config) url CURLE_OK outage_reply 503"
proof -
  have "deliver [Body_Chunk True ''{}'' 1 2] (empty_sink (max_response_bytes (http demo_config))) =
      (True, \<lparr>response = outage_reply, limit = max_response_bytes (http demo_config), overflowed = False\<rparr>)"
    by (simp add: write_callback_def empty_sink_def outage_reply_def size_of_def demo_config_def default_ClientConfig_def)
  then show ?thesis by (simp add: transfer_ends_def demo_outage_def demo_platform_def del: deliver.simps)
qed

lemma outage_error:
  "should_retry (reply_of demo_outage CURLE_OK outage_reply 503) (retry demo_config)"
  "code (failure_of demo_outage CURLE_OK outage_reply 503) = ErrorCode.RateLimited"
  by (simp_all add: reply_of_def failure_of_def to_int16_def should_retry_def should_retry_response_def demo_config_def
      default_RetryPolicy_def from_response_def demo_outage_def demo_platform_def outage_reply_def status_code_class_def Let_def)

theorem failing_service_witness:
  "\<exists>e c' w'. run_call demo_outage (Get_current_weather (Fin False 0) (Fin False 0)) (make_NWSClient True True demo_config 0) (0, 0) =
     Some (Inl e, c', w') \<and> code e = ErrorCode.RateLimited \<and> snd w' = 3"
proof -
  have ok: "platform_ok demo_outage fst snd"
    by (auto simp: platform_ok_def demo_outage_def demo_platform_def steady_env_def low_draw_def)
  have use: "usable demo_config" "refill_interval (sanitized (rate_limit demo_config)) < ns_to_ms int64_max"
      "unat (max_attempts (retry demo_config)) = 3"
    by (simp_all add: usable_def patient_def demo_config_def default_ClientConfig_def default_RateLimiterConfig_def
        default_RetryPolicy_def sanitized_def invalid_header_def ns_to_ms_def sdiv_nonneg)
  have send: "sends_request demo_outage (Get_current_weather (Fin False 0) (Fin False 0))"
    by (simp add: origin_valid point_path_def) (simp add: demo_outage_def demo_platform_def)
  have "(0::int) \<le> fst (0, 0 :: nat)" "CURLE_OK \<noteq> CURLE_OK \<or> to_int16 503 \<noteq> 200" by (simp_all add: to_int16_def)
  from failing_service [OF ok this(1) use(2,1) outage_ends this(2) send] outage_error use(3) show ?thesis by auto
qed

text \<open>
  C33: a client cannot be made to smuggle data into its requests. With a carriage return, a line feed or
  a NUL in the user agent or the accept header, a NUL in the base URL, or a negative timeout, every
  method that would send a request returns an invalid-request error and nothing is transferred: not
  once, and not by a retry.
\<close>

theorem injection_never_sent:
  assumes "platform_ok P tm transfers" "now \<le> tm w" "refill_interval (sanitized (rate_limit cfg)) < ns_to_ms int64_max"
    and "max_wait (rate_limit cfg) = None" "1 \<le> max_attempts (retry cfg)"
    and "(\<exists>h\<in>{user_agent (http cfg), accept (http cfg)}. CHR 0x0D \<in> set h \<or> CHR 0x0A \<in> set h \<or> CHR 0x00 \<in> set h) \<or>
      CHR 0x00 \<in> set (base_url (http cfg)) \<or> timeout (http cfg) < 0"
    and "sends_request P x"
  shows "\<exists>e c' w'. run_call P x (make_NWSClient True True cfg now) w = Some (Inl e, c', w') \<and>
           code e = ErrorCode.InvalidRequest \<and> transfers w' = transfers w"
proof -
  note on = fresh_online [OF assms(1-3)]
  have "patient cfg" "\<And>path. smuggles (http cfg) path" using assms(4-6) by (auto simp: patient_def smuggles_def)
  from call_stops [OF online_client [OF on] fresh_uncached refused_stuck [OF on this] assms(7)]
  show ?thesis by (auto simp: stops_with_def error_constructors)
qed

theorem injection_never_sent_witness:
  "\<exists>e c' w'. run_call (demo_platform JNull) Get_glossary
      (make_NWSClient True True (demo_config\<lparr>http := default_ClientConfig\<lparr>accept := ''a'' @ [CHR 0x0D, CHR 0x0A] @ ''X: y''\<rparr>\<rparr>) 0) (0, 0) =
      Some (Inl e, c', w') \<and> code e = ErrorCode.InvalidRequest \<and> snd w' = 0"
proof -
  let ?cfg = "demo_config\<lparr>http := default_ClientConfig\<lparr>accept := ''a'' @ [CHR 0x0D, CHR 0x0A] @ ''X: y''\<rparr>\<rparr>"
  have "refill_interval (sanitized (rate_limit ?cfg)) < ns_to_ms int64_max" "max_wait (rate_limit ?cfg) = None"
    "1 \<le> max_attempts (retry ?cfg)"
    by (simp_all add: demo_config_def sanitized_def default_RateLimiterConfig_def default_RetryPolicy_def ns_to_ms_def sdiv_nonneg)
  with injection_never_sent [OF demo_platform_ok [of JNull], where now = 0 and w = "(0, 0)" and cfg = ?cfg and x = Get_glossary]
  show ?thesis by simp
qed

end
