(* ===== verification/Wire_Format.thy ===== *)
theory Wire_Format
  imports Json_Walk
begin

text \<open>
  The wire format the deserializers read, written from the other side: printers of values as JSON
  documents, and what it means that a deserializer reads back what a printer wrote. The contract of
  one model is the locale \<open>wire_format\<close>; a model of GeoJSON properties gives it for its features and
  feature collections too (\<open>properties_format\<close>). The model theories supply the printers.
\<close>

named_theorems wire_simps \<open>accessors on printed members\<close>

section \<open>Printers\<close>

definition optional :: "('a \<Rightarrow> json) \<Rightarrow> 'a option \<Rightarrow> json" where
  "optional f v = (case v of Some x \<Rightarrow> f x | None \<Rightarrow> JNull)"

definition int_json :: "int \<Rightarrow> json" where
  "int_json i = JNumber (double_of_int i)"

definition strings_json :: "string list \<Rightarrow> json" where
  "strings_json ss = JArray (map JString ss)"

definition qv_json :: "QuantitativeValue \<Rightarrow> json" where
  "qv_json q = JObject [(''unitCode'', JString (unit_code q)), (''value'', optional JNumber (quantity_value q)),
     (''maxValue'', optional JNumber (max_value q)), (''minValue'', optional JNumber (min_value q)),
     (''qualityControl'', optional JString (quality_control q))]"

text \<open>A quantity carries the unit of its code.\<close>

definition qv_ok :: "QuantitativeValue \<Rightarrow> bool" where
  "qv_ok q \<longleftrightarrow> unit q = parse_unit_code (unit_code q)"

definition geopoint_json :: "GeoPoint \<Rightarrow> json" where
  "geopoint_json p = JArray [JNumber (longitude p), JNumber (latitude p)]"

fun geometry_json :: "Geometry \<Rightarrow> json" where
  "geometry_json (PointGeometry p) = JObject [(''type'', JString ''Point''), (''coordinates'', geopoint_json p)]"
| "geometry_json (PolygonGeometry g) =
     JObject [(''type'', JString ''Polygon''),
       (''coordinates'', JArray (map (\<lambda>ring. JArray (map geopoint_json ring)) (coordinates g)))]"
| "geometry_json NullGeometry = JNull"

definition feature_json :: "('p \<Rightarrow> json) \<Rightarrow> 'p GeoJsonFeature \<Rightarrow> json" where
  "feature_json encode f =
     JObject [(''id'', JString (feature_id f)), (''type'', JString (feature_type f)),
       (''geometry'', geometry_json (geometry f)), (''properties'', encode (properties f))]"

definition collection_json :: "('p \<Rightarrow> json) \<Rightarrow> 'p GeoJsonFeatureCollection \<Rightarrow> json" where
  "collection_json encode c =
     JObject [(''type'', JString (collection_type c)), (''features'', JArray (map (feature_json encode) (features c)))]"

text \<open>An empty type would be read as the default one.\<close>

definition feature_ok :: "('p \<Rightarrow> bool) \<Rightarrow> 'p GeoJsonFeature \<Rightarrow> bool" where
  "feature_ok ok f \<longleftrightarrow> feature_type f \<noteq> [] \<and> ok (properties f)"

definition collection_ok :: "('p \<Rightarrow> bool) \<Rightarrow> 'p GeoJsonFeatureCollection \<Rightarrow> bool" where
  "collection_ok ok c \<longleftrightarrow> collection_type c \<noteq> [] \<and> list_all (feature_ok ok) (features c)"

section \<open>Accessors on printed members\<close>

lemma double_of_int_small:
  assumes "int32_range i"
  shows "double_of_int i = Fin (i < 0) (of_int \<bar>i\<bar>)"
proof -
  have "\<bar>i\<bar> \<le> 2 ^ 53" using assms by (auto simp: abs_le_iff)
  then show ?thesis using round64_int [of "\<bar>i\<bar>" "i < 0"] by (simp add: double_of_int_def)
qed

lemma get_string_member [wire_simps]: "lookup obj k = Some (JString s) \<Longrightarrow> get_string obj k = s"
  by (simp add: get_string_def)

lemma get_int_member [wire_simps]:
  assumes "lookup obj k = Some (int_json i)" and "int32_range i"
  shows "get_int obj k d = i"
proof -
  have b: "(of_int (- 2147483648) :: rat) \<le> of_int i" "(of_int i :: rat) \<le> of_int 2147483647"
    using assms(2) by (simp_all only: of_int_le_iff)
  show ?thesis
  proof (cases "i < 0")
    case True
    then show ?thesis using assms b(1) by (simp add: get_int_def int_json_def double_of_int_small int32_bounds dle_iff)
  next
    case False
    then show ?thesis using assms b(2) by (simp add: get_int_def int_json_def double_of_int_small int32_bounds dle_iff)
  qed
qed

lemma get_bool_member [wire_simps]: "lookup obj k = Some (JBool b) \<Longrightarrow> get_bool obj k d = b"
  by (simp add: get_bool_def)

lemma get_optional_string_member [wire_simps]:
  "lookup obj k = Some (optional JString v) \<Longrightarrow> get_optional_string obj k = v"
  by (simp add: get_optional_string_def optional_def split: option.splits)

lemma get_optional_double_member [wire_simps]:
  "lookup obj k = Some (optional JNumber v) \<Longrightarrow> get_optional_double obj k = v"
  "lookup obj k = Some (JNumber x) \<Longrightarrow> get_optional_double obj k = Some x"
  by (simp_all add: get_optional_double_def optional_def split: option.splits)

lemma strings_of_map: "strings_of (map JString ss) = ss"
  by (induction ss) simp_all

lemma get_string_array_member [wire_simps]: "lookup obj k = Some (strings_json ss) \<Longrightarrow> get_string_array obj k = ss"
  by (simp add: get_string_array_def strings_json_def strings_of_map)

lemma find_array_member [wire_simps]: "lookup obj k = Some (JArray xs) \<Longrightarrow> find_array obj k = Some xs"
  by (simp add: find_array_def)

lemma find_object_member [wire_simps]: "lookup obj k = Some j \<Longrightarrow> is_object j \<Longrightarrow> find_object obj k = Some j"
  by (cases j) (simp_all add: find_object_def)

lemma find_object_null [wire_simps]: "lookup obj k = Some JNull \<Longrightarrow> find_object obj k = None"
  by (simp add: find_object_def)

lemma member_simps [wire_simps]:
  "lookup (JObject ((k, v) # ms)) key = (if key = k then Some v else lookup (JObject ms) key)"
  "lookup (JObject []) key = None"
  by (simp_all add: json_simps)

section \<open>The contract\<close>

text \<open>A deserializer reads back what was printed, into any destination.\<close>

definition reads_back ::
  "(json_reader \<Rightarrow> string \<Rightarrow> 'a \<Rightarrow> unit result \<times> 'a) \<Rightarrow> ('a \<Rightarrow> json) \<Rightarrow> ('a \<Rightarrow> bool) \<Rightarrow> bool" where
  "reads_back d encode ok \<longleftrightarrow>
     (\<forall>glz_read body out x. ok x \<longrightarrow> glz_read body = Inr (encode x) \<longrightarrow> d glz_read body out = (Inr (), x))"

lemma reads_backI: "(\<And>x. ok x \<Longrightarrow> fill (encode x) = x) \<Longrightarrow> reads_back (read_into fill) encode ok"
  by (simp add: reads_back_def reader.accepts)

locale wire_format =
  fixes encode :: "'a \<Rightarrow> json" and decode :: "json \<Rightarrow> 'a" and ok :: "'a \<Rightarrow> bool"
  assumes decode_encode: "ok x \<Longrightarrow> decode (encode x) = x"
begin

lemma decode_all: "list_all ok xs \<Longrightarrow> map (\<lambda>x. decode (encode x)) xs = xs"
  by (induction xs) (simp_all add: decode_encode)

lemma deserializes: "reads_back (read_into decode) encode ok"
  by (rule reads_backI) (rule decode_encode)

end

interpretation quantity: wire_format qv_json "\<lambda>j. parse_quantitative_value j default_QuantitativeValue" qv_ok
  by unfold_locales
    (simp add: parse_quantitative_value_def qv_json_def qv_ok_def default_QuantitativeValue_def wire_simps Let_def)

lemma qv_json_object [wire_simps]: "is_object (qv_json q)"
  by (simp add: qv_json_def)

lemma parse_qv_field_member [wire_simps]:
  "lookup obj k = Some (qv_json q) \<Longrightarrow> qv_ok q \<Longrightarrow> parse_qv_field obj k default_QuantitativeValue = q"
  by (simp add: parse_qv_field_def wire_simps quantity.decode_encode)

section \<open>Geometry\<close>

lemma ring_points_printed: "ring_points (map geopoint_json ring) = ring"
  by (induction ring) (simp_all add: geopoint_json_def)

lemma polygon_rings_printed: "polygon_rings (map (\<lambda>ring. JArray (map geopoint_json ring)) rings) = rings"
  by (induction rings) (simp_all add: ring_points_printed)

interpretation geometry: wire_format geometry_json parse_geometry "\<lambda>_. True"
proof
  show "parse_geometry (geometry_json g) = g" for g
    by (cases g) (simp_all add: parse_geometry_def parse_geopoint_def wire_simps geopoint_json_def polygon_rings_printed)
qed

lemma geometry_member:
  "lookup obj k = Some (geometry_json g) \<Longrightarrow>
   (case find_object obj k of None \<Rightarrow> r | Some j \<Rightarrow> f j) = (if g = NullGeometry then r else f (geometry_json g))"
  by (cases g) (simp_all add: wire_simps)

section \<open>Features\<close>

text \<open>A format of features extends to collections of them.\<close>

locale feature_format = wire_format "feature_json encode" feature "feature_ok ok"
  for encode :: "'p \<Rightarrow> json" and feature :: "json \<Rightarrow> 'p GeoJsonFeature" and ok :: "'p \<Rightarrow> bool"
begin

sublocale collection: wire_format "collection_json encode" "populate_collection feature" "collection_ok ok"
proof
  show "populate_collection feature (collection_json encode c) = c" if "collection_ok ok c" for c
    using that decode_all [of "features c"]
    by (simp add: populate_collection_def collection_json_def collection_ok_def default_GeoJsonFeatureCollection_def
        wire_simps comp_def)
qed

end

text \<open>A format of properties extends to features.\<close>

locale properties_format =
  fixes encode :: "'p \<Rightarrow> json" and populate :: "json \<Rightarrow> 'p \<Rightarrow> 'p" and fresh :: 'p and ok :: "'p \<Rightarrow> bool"
  assumes encode_object: "is_object (encode p)"
    and populate_encode: "ok p \<Longrightarrow> populate (encode p) fresh = p"
begin

sublocale feature: feature_format encode "\<lambda>j. populate_feature populate j (default_GeoJsonFeature fresh)" ok
proof
  show "populate_feature populate (feature_json encode f) (default_GeoJsonFeature fresh) = f" if "feature_ok ok f" for f
    using that
    by (cases "geometry f = NullGeometry")
      (simp_all add: populate_feature_def feature_json_def feature_ok_def default_GeoJsonFeature_def wire_simps
        geometry_member geometry.decode_encode encode_object populate_encode)
qed

end

end
