(* ===== verification/Location_Wire.thy ===== *)
theory Location_Wire
  imports Wire_Format Model_Location
begin

text \<open>
  Printers for the models of places and reference data, and the proof that the deserializers of
  \<open>src/models\<close> read back what they print: no field is lost, read from another field's member or
  overwritten by a later one.
\<close>

section \<open>Points\<close>

definition relative_location_json :: "RelativeLocation \<Rightarrow> json" where
  "relative_location_json l =
    (let q = relative_properties l
     in JObject [(''geometry'', geometry_json (relative_geometry l)),
          (''properties'', JObject
             [(''city'', JString (city q)), (''state'', JString (RelativeLocationProperties.state q)),
              (''distance'', qv_json (distance q)), (''bearing'', qv_json (bearing q))])])"

definition relative_location_ok :: "RelativeLocation \<Rightarrow> bool" where
  "relative_location_ok l \<longleftrightarrow> qv_ok (distance (relative_properties l)) \<and> qv_ok (bearing (relative_properties l))"

definition point_json :: "PointProperties \<Rightarrow> json" where
  "point_json p = JObject
    [(''@id'', JString (point_id p)), (''gridId'', JString (grid_id p)), (''gridX'', int_json (grid_x p)),
     (''gridY'', int_json (grid_y p)), (''forecast'', JString (PointProperties.forecast_url p)),
     (''forecastHourly'', JString (forecast_hourly_url p)),
     (''forecastGridData'', JString (forecast_grid_data_url p)),
     (''observationStations'', JString (observation_stations_url p)),
     (''forecastZone'', JString (forecast_zone_url p)), (''county'', JString (PointProperties.county_url p)),
     (''fireWeatherZone'', JString (PointProperties.fire_weather_zone_url p)),
     (''timeZone'', JString (PointProperties.time_zone p)), (''radarStation'', JString (radar_station p)),
     (''relativeLocation'', relative_location_json (relative_location p))]"

definition point_ok :: "PointProperties \<Rightarrow> bool" where
  "point_ok p \<longleftrightarrow> int32_range (grid_x p) \<and> int32_range (grid_y p) \<and> relative_location_ok (relative_location p)"

lemma relative_location_printed:
  "relative_location_ok l \<Longrightarrow>
   populate_relative_location (relative_location_json l) (relative_location default_PointProperties) = l"
  by (cases "relative_geometry l = NullGeometry")
    (simp_all add: populate_relative_location_def relative_location_json_def relative_location_ok_def
      default_PointProperties_def wire_simps geometry_member geometry.decode_encode Let_def)

interpretation point: properties_format point_json populate_point_properties default_PointProperties point_ok
proof
  show "is_object (point_json p)" for p by (simp add: point_json_def)
  have obj: "is_object (relative_location_json l)" for l by (simp add: relative_location_json_def Let_def)
  show "populate_point_properties (point_json p) default_PointProperties = p" if "point_ok p" for p
    using that relative_location_printed [of "relative_location p"]
    by (simp add: populate_point_properties_def point_json_def point_ok_def wire_simps obj)
qed

section \<open>Stations and zones\<close>

definition station_json :: "StationProperties \<Rightarrow> json" where
  "station_json p = JObject
    [(''@id'', JString (station_prop_id p)), (''stationIdentifier'', JString (station_identifier p)),
     (''name'', JString (StationProperties.name p)), (''timeZone'', JString (StationProperties.time_zone p)),
     (''forecast'', JString (StationProperties.forecast_url p)),
     (''county'', JString (StationProperties.county_url p)),
     (''fireWeatherZone'', JString (StationProperties.fire_weather_zone_url p)),
     (''elevation'', qv_json (StationProperties.elevation p))]"

interpretation station: properties_format station_json populate_station_properties default_StationProperties
    "\<lambda>p. qv_ok (StationProperties.elevation p)"
  by unfold_locales
    (simp_all add: station_json_def populate_station_properties_def default_StationProperties_def wire_simps)

definition zone_json :: "ZoneProperties \<Rightarrow> json" where
  "zone_json p = JObject
    [(''@id'', JString (zone_id p)), (''@type'', JString (zone_type p)), (''name'', JString (ZoneProperties.name p)),
     (''state'', JString (ZoneProperties.state p)), (''forecastOffices'', strings_json (forecast_offices p)),
     (''observationStations'', strings_json (observation_stations p))]"

interpretation zone: properties_format zone_json populate_zone_properties default_ZoneProperties "\<lambda>_. True"
  by unfold_locales
    (simp_all add: zone_json_def populate_zone_properties_def default_ZoneProperties_def wire_simps)

definition zone_period_json :: "ZoneForecastPeriod \<Rightarrow> json" where
  "zone_period_json p = JObject
    [(''number'', int_json (number p)), (''name'', JString (ZoneForecastPeriod.name p)),
     (''detailedForecast'', JString (detailed_forecast p))]"

interpretation zone_period: wire_format zone_period_json
    "\<lambda>j. populate_zone_forecast_period j \<lparr>number = 0, name = [], detailed_forecast = []\<rparr>"
    "\<lambda>p. int32_range (number p)"
  by unfold_locales (simp add: zone_period_json_def populate_zone_forecast_period_def wire_simps)

text \<open>A zone forecast stands below \<open>properties\<close>, or bare.\<close>

definition zone_forecast_json :: "bool \<Rightarrow> ZoneForecastProperties \<Rightarrow> json" where
  "zone_forecast_json nested z =
    (let j = JObject [(''zone'', strings_json (zone z)), (''periods'', JArray (map zone_period_json (periods z)))]
     in if nested then JObject [(''properties'', j)] else j)"

definition zone_forecast_ok :: "ZoneForecastProperties \<Rightarrow> bool" where
  "zone_forecast_ok z \<longleftrightarrow> list_all (\<lambda>p. int32_range (number p)) (periods z)"

lemma zone_forecast_reads_back: "reads_back deserialize_zone_forecast (zone_forecast_json nested) zone_forecast_ok"
  unfolding deserialize_zone_forecast_def
proof (rule reads_backI)
  fix z
  assume "zone_forecast_ok z"
  then have "map (\<lambda>p. populate_zone_forecast_period (zone_period_json p) \<lparr>number = 0, name = [], detailed_forecast = []\<rparr>)
      (periods z) = periods z"
    using zone_period.decode_all by (simp add: zone_forecast_ok_def)
  moreover have "find_object (JObject [(''zone'', strings_json (zone z)), (''periods'', JArray ps)]) ''properties'' = None" for ps
    by (simp add: find_object_def wire_simps)
  ultimately show "(let out = \<lparr>zone = [], periods = []\<rparr>;
       target = (case find_object (zone_forecast_json nested z) ''properties'' of
         Some props \<Rightarrow> props | None \<Rightarrow> zone_forecast_json nested z);
       out = out\<lparr>zone := get_string_array target ''zone''\<rparr>
     in case find_array target ''periods'' of
          None \<Rightarrow> out
        | Some arr \<Rightarrow> out\<lparr>periods := map (\<lambda>period_json. populate_zone_forecast_period period_json
                     \<lparr>number = 0, name = [], detailed_forecast = []\<rparr>) arr\<rparr>) = z"
    by (cases nested) (simp_all add: zone_forecast_json_def wire_simps Let_def comp_def)
qed

section \<open>Radar\<close>

definition radar_json :: "RadarStationProperties \<Rightarrow> json" where
  "radar_json p = JObject
    [(''id'', JString (radar_id p)), (''name'', JString (RadarStationProperties.name p)),
     (''stationType'', JString (station_type p)), (''latitude'', JNumber (radar_latitude p)),
     (''longitude'', JNumber (radar_longitude p)), (''elevation'', qv_json (RadarStationProperties.elevation p))]"

interpretation radar: properties_format radar_json populate_radar_station_properties default_RadarStationProperties
    "\<lambda>p. qv_ok (RadarStationProperties.elevation p)"
  by unfold_locales
    (simp_all add: radar_json_def populate_radar_station_properties_def default_RadarStationProperties_def wire_simps)

text \<open>With both coordinates in the properties the geometry does not matter.\<close>

interpretation radar_station: feature_format radar_json
    "\<lambda>j. populate_radar_station_feature j (default_GeoJsonFeature default_RadarStationProperties)"
    "\<lambda>p. qv_ok (RadarStationProperties.elevation p)"
proof
  fix f :: RadarStationFeature
  assume ok: "feature_ok (\<lambda>p. qv_ok (RadarStationProperties.elevation p)) f"
  have "find_object (feature_json radar_json f) ''properties'' = Some (radar_json (properties f))"
    by (simp add: feature_json_def wire_simps radar.encode_object)
  moreover have "get_optional_double (radar_json p) ''latitude'' = Some (radar_latitude p)" for p
    by (simp add: radar_json_def wire_simps)
  ultimately show "populate_radar_station_feature (feature_json radar_json f) (default_GeoJsonFeature default_RadarStationProperties) = f"
    by (simp add: populate_radar_station_feature_def radar.feature.decode_encode [OF ok] Let_def split: Geometry.splits)
qed

definition radar_server_json :: "RadarServerProperties \<Rightarrow> json" where
  "radar_server_json s = JObject [(''id'', JString (server_id s)), (''host'', JString (host s))]"

section \<open>Offices, products, glossary\<close>

definition office_json :: "OfficeProperties \<Rightarrow> json" where
  "office_json p = JObject
    [(''id'', JString (office_prop_id p)), (''name'', JString (OfficeProperties.name p)), (''address'', JString (address p)),
     (''telephone'', JString (telephone p)), (''faxNumber'', JString (fax_number p)), (''email'', JString (email p)),
     (''nwsRegion'', JString (nws_region p)), (''parentOrganization'', JString (parent_org p)),
     (''responsibleCounties'', strings_json (responsible_counties p))]"

definition headline_json :: "HeadlineProperties \<Rightarrow> json" where
  "headline_json p = JObject
    [(''id'', JString (headline_id p)), (''office'', JString (office_id p)), (''title'', JString (title p)),
     (''summary'', JString (summary p)), (''content'', JString (content p)), (''link'', JString (link p)),
     (''issuanceTime'', JString (HeadlineProperties.issuance_time p))]"

definition product_json :: "ProductProperties \<Rightarrow> json" where
  "product_json p = JObject
    [(''id'', JString (product_id p)), (''wmoCollectiveId'', JString (wmo_collective_id p)),
     (''issuingOffice'', JString (issuing_office p)), (''issuanceTime'', JString (ProductProperties.issuance_time p)),
     (''productCode'', JString (product_code p)), (''productName'', JString (product_name p)),
     (''productText'', JString (product_text p))]"

definition product_type_json :: "ProductTypeProperties \<Rightarrow> json" where
  "product_type_json p = JObject [(''productCode'', JString (type_id p)), (''productName'', JString (type_name p))]"

definition term_json :: "GlossaryTerm \<Rightarrow> json" where
  "term_json t = JObject [(''term'', JString (glossary_term t)), (''definition'', JString (glossary_definition t))]"

interpretation glossary_entry: wire_format term_json
    "\<lambda>j. \<lparr>glossary_term = get_string j ''term'', glossary_definition = get_string j ''definition''\<rparr>" "\<lambda>_. True"
  by unfold_locales (simp add: term_json_def wire_simps)

definition glossary_json :: "GlossaryResponse \<Rightarrow> json" where
  "glossary_json g = JObject [(''glossary'', JArray (map term_json (glossary g)))]"

lemma reference_data_reads_back:
  "reads_back deserialize_radar_server_properties radar_server_json (\<lambda>_. True)"
  "reads_back deserialize_office_properties office_json (\<lambda>_. True)"
  "reads_back deserialize_headline_properties headline_json (\<lambda>_. True)"
  "reads_back deserialize_product_properties product_json (\<lambda>_. True)"
  "reads_back deserialize_product_type_properties product_type_json (\<lambda>_. True)"
  "reads_back deserialize_glossary_response glossary_json (\<lambda>_. True)"
  unfolding deserialize_radar_server_properties_def deserialize_office_properties_def
    deserialize_headline_properties_def deserialize_product_properties_def
    deserialize_product_type_properties_def deserialize_glossary_response_def
  by (rule reads_backI; simp add: wire_simps radar_server_json_def office_json_def headline_json_def product_json_def
      product_type_json_def glossary_json_def comp_def glossary_entry.decode_all list_all_iff)+

section \<open>Properties\<close>

lemma fresh_models_printable:
  "feature_ok point_ok (default_GeoJsonFeature default_PointProperties)"
  "feature_ok (\<lambda>p. qv_ok (StationProperties.elevation p)) (default_GeoJsonFeature default_StationProperties)"
  "feature_ok (\<lambda>p. qv_ok (RadarStationProperties.elevation p)) (default_GeoJsonFeature default_RadarStationProperties)"
  by (simp_all add: feature_ok_def default_GeoJsonFeature_def point_ok_def relative_location_ok_def qv_ok_def
      default_PointProperties_def default_StationProperties_def default_RadarStationProperties_def
      default_QuantitativeValue_def parse_unit_code_def unit_map_def)

lemma location_reads_back:
  "reads_back deserialize_quantitative_value qv_json qv_ok"
  "reads_back deserialize_point_response (feature_json point_json) (feature_ok point_ok)"
  "reads_back deserialize_station_response (feature_json station_json)
     (feature_ok (\<lambda>p. qv_ok (StationProperties.elevation p)))"
  "reads_back deserialize_station_collection (collection_json station_json)
     (collection_ok (\<lambda>p. qv_ok (StationProperties.elevation p)))"
  "reads_back deserialize_zone_feature (feature_json zone_json) (feature_ok (\<lambda>_. True))"
  "reads_back deserialize_zone_collection (collection_json zone_json) (collection_ok (\<lambda>_. True))"
  "reads_back deserialize_zone_forecast (zone_forecast_json nested) zone_forecast_ok"
  "reads_back deserialize_radar_station_feature (feature_json radar_json)
     (feature_ok (\<lambda>p. qv_ok (RadarStationProperties.elevation p)))"
  "reads_back deserialize_radar_station_collection (collection_json radar_json)
     (collection_ok (\<lambda>p. qv_ok (RadarStationProperties.elevation p)))"
  "reads_back deserialize_radar_server_properties radar_server_json (\<lambda>_. True)"
  "reads_back deserialize_office_properties office_json (\<lambda>_. True)"
  "reads_back deserialize_headline_properties headline_json (\<lambda>_. True)"
  "reads_back deserialize_product_properties product_json (\<lambda>_. True)"
  "reads_back deserialize_product_type_properties product_type_json (\<lambda>_. True)"
  "reads_back deserialize_glossary_response glossary_json (\<lambda>_. True)"
  unfolding deserialize_quantitative_value_def deserialize_point_response_def
    deserialize_station_response_def deserialize_station_collection_def populate_station_response_def
    deserialize_zone_feature_def deserialize_zone_collection_def populate_zone_feature_def
    deserialize_radar_station_feature_def deserialize_radar_station_collection_def
  by (rule quantity.deserializes point.feature.deserializes station.feature.deserializes
      station.feature.collection.deserializes zone.feature.deserializes zone.feature.collection.deserializes
      zone_forecast_reads_back radar_station.deserializes radar_station.collection.deserializes
      reference_data_reads_back)+

text \<open>
  C17: every deserializer of this group reads back what its printer wrote, into any destination: a
  point, station, zone or radar station, alone or in a collection, with any geometry, a zone
  forecast below \<open>properties\<close> or bare, an office, a headline, a product, the glossary. So no field is
  lost, confused with another or overwritten. A quantity must carry the unit of its code, an
  integer fit 32 bits, and the GeoJSON type be nonempty.
\<close>

theorem location_models_roundtrip:
  "reads_back deserialize_quantitative_value qv_json qv_ok \<and>
   reads_back deserialize_point_response (feature_json point_json) (feature_ok point_ok) \<and>
   reads_back deserialize_station_response (feature_json station_json)
     (feature_ok (\<lambda>p. qv_ok (StationProperties.elevation p))) \<and>
   reads_back deserialize_station_collection (collection_json station_json)
     (collection_ok (\<lambda>p. qv_ok (StationProperties.elevation p))) \<and>
   reads_back deserialize_zone_feature (feature_json zone_json) (feature_ok (\<lambda>_. True)) \<and>
   reads_back deserialize_zone_collection (collection_json zone_json) (collection_ok (\<lambda>_. True)) \<and>
   (\<forall>nested. reads_back deserialize_zone_forecast (zone_forecast_json nested) zone_forecast_ok) \<and>
   reads_back deserialize_radar_station_feature (feature_json radar_json)
     (feature_ok (\<lambda>p. qv_ok (RadarStationProperties.elevation p))) \<and>
   reads_back deserialize_radar_station_collection (collection_json radar_json)
     (collection_ok (\<lambda>p. qv_ok (RadarStationProperties.elevation p))) \<and>
   reads_back deserialize_radar_server_properties radar_server_json (\<lambda>_. True) \<and>
   reads_back deserialize_office_properties office_json (\<lambda>_. True) \<and>
   reads_back deserialize_headline_properties headline_json (\<lambda>_. True) \<and>
   reads_back deserialize_product_properties product_json (\<lambda>_. True) \<and>
   reads_back deserialize_product_type_properties product_type_json (\<lambda>_. True) \<and>
   reads_back deserialize_glossary_response glossary_json (\<lambda>_. True)"
  by (intro conjI allI location_reads_back)

end
