(* ===== verification/Weather_Wire.thy ===== *)
theory Weather_Wire
  imports Wire_Format Model_Weather "HOL-Library.List_Lexorder" "HOL-Library.Char_ord"
begin

text \<open>
  Printers for the models of weather data, and the proof that the deserializers of \<open>src/models\<close> read
  back what they print.
\<close>

section \<open>Forecasts\<close>

definition period_json :: "ForecastPeriod \<Rightarrow> json" where
  "period_json p = JObject
    [(''number'', int_json (ForecastPeriod.number p)), (''name'', JString (ForecastPeriod.name p)),
     (''startTime'', JString (start_time p)), (''endTime'', JString (end_time p)), (''isDaytime'', JBool (is_daytime p)),
     (''temperature'', int_json (ForecastPeriod.temperature p)),
     (''temperatureUnit'', JString (temperature_unit p)),
     (''temperatureTrend'', optional JString (temperature_trend p)),
     (''probabilityOfPrecipitation'', qv_json (ForecastPeriod.probability_of_precipitation p)),
     (''windSpeed'', JString (ForecastPeriod.wind_speed p)),
     (''windDirection'', JString (ForecastPeriod.wind_direction p)), (''icon'', JString (ForecastPeriod.icon p)),
     (''shortForecast'', JString (short_forecast p)), (''detailedForecast'', JString (ForecastPeriod.detailed_forecast p))]"

definition period_ok :: "ForecastPeriod \<Rightarrow> bool" where
  "period_ok p \<longleftrightarrow> int32_range (ForecastPeriod.number p) \<and> int32_range (ForecastPeriod.temperature p) \<and>
     qv_ok (ForecastPeriod.probability_of_precipitation p)"

interpretation period: wire_format period_json "\<lambda>j. populate_forecast_period to_chars j default_ForecastPeriod" period_ok
  for to_chars
  by unfold_locales
    (simp add: period_json_def period_ok_def populate_forecast_period_def default_ForecastPeriod_def wind_speed_text_def
      wire_simps)

definition forecast_json :: "ForecastProperties \<Rightarrow> json" where
  "forecast_json p = JObject
    [(''updateTime'', JString (ForecastProperties.update_time p)), (''generatedAt'', JString (generated_at p)),
     (''elevation'', qv_json (ForecastProperties.elevation p)),
     (''periods'', JArray (map period_json (ForecastProperties.periods p)))]"

definition forecast_ok :: "ForecastProperties \<Rightarrow> bool" where
  "forecast_ok p \<longleftrightarrow> qv_ok (ForecastProperties.elevation p) \<and> list_all period_ok (ForecastProperties.periods p)"

interpretation forecast: properties_format forecast_json "populate_forecast_properties to_chars" default_ForecastProperties
    forecast_ok for to_chars
  by unfold_locales
    (simp_all add: forecast_json_def forecast_ok_def populate_forecast_properties_def default_ForecastProperties_def
      wire_simps comp_def period.decode_all)

section \<open>Observations\<close>

definition cloud_layer_json :: "CloudLayer \<Rightarrow> json" where
  "cloud_layer_json l = JObject [(''base'', qv_json (cloud_base l)), (''amount'', JString (amount l))]"

interpretation cloud_layer: wire_format cloud_layer_json populate_cloud_layer "\<lambda>l. qv_ok (cloud_base l)"
  by unfold_locales (simp add: cloud_layer_json_def populate_cloud_layer_def wire_simps)

text \<open>The quantities of an observation, with the members that hold them.\<close>

definition observed :: "(string \<times> (ObservationProperties \<Rightarrow> QuantitativeValue)) list" where
  "observed =
    [(''elevation'', ObservationProperties.elevation), (''temperature'', ObservationProperties.temperature),
     (''dewpoint'', ObservationProperties.dewpoint), (''windDirection'', ObservationProperties.wind_direction),
     (''windSpeed'', ObservationProperties.wind_speed), (''windGust'', ObservationProperties.wind_gust),
     (''barometricPressure'', barometric_pressure), (''seaLevelPressure'', sea_level_pressure),
     (''visibility'', ObservationProperties.visibility), (''relativeHumidity'', ObservationProperties.relative_humidity),
     (''windChill'', ObservationProperties.wind_chill), (''heatIndex'', ObservationProperties.heat_index),
     (''precipitationLastHour'', precipitation_last_hour), (''precipitationLast3Hours'', precipitation_last_3_hours),
     (''precipitationLast6Hours'', precipitation_last_6_hours),
     (''maxTemperatureLast24Hours'', max_temperature_last_24_hours),
     (''minTemperatureLast24Hours'', min_temperature_last_24_hours)]"

definition observation_json :: "ObservationProperties \<Rightarrow> json" where
  "observation_json p = JObject
    ([(''@id'', JString (observation_id p)), (''station'', JString (station_url p)), (''stationId'', JString (station_id p)),
      (''stationName'', JString (station_name p)), (''timestamp'', JString (timestamp p)),
      (''rawMessage'', JString (raw_message p)), (''textDescription'', JString (text_description p)),
      (''icon'', JString (ObservationProperties.icon p)),
      (''cloudLayers'', JArray (map cloud_layer_json (cloud_layers p)))] @
     map (\<lambda>(key, q). (key, qv_json (q p))) observed)"

definition observation_ok :: "ObservationProperties \<Rightarrow> bool" where
  "observation_ok p \<longleftrightarrow> list_all (\<lambda>(key, q). qv_ok (q p)) observed \<and> list_all (\<lambda>l. qv_ok (cloud_base l)) (cloud_layers p)"

interpretation observation: properties_format observation_json populate_observation_properties
    default_ObservationProperties observation_ok
  by unfold_locales
    (simp_all add: observation_json_def observation_ok_def observed_def populate_observation_properties_def
      default_ObservationProperties_def wire_simps comp_def cloud_layer.decode_all Let_def)

section \<open>Gridpoints\<close>

definition time_value_json :: "GridpointTimeValue \<Rightarrow> json" where
  "time_value_json v = JObject [(''validTime'', JString (valid_time v)), (''value'', optional JNumber (time_value v))]"

interpretation time_value: wire_format time_value_json
    "\<lambda>v. \<lparr>valid_time = get_string v ''validTime'', time_value = get_optional_double v ''value''\<rparr>" "\<lambda>_. True"
  by unfold_locales (simp add: time_value_json_def wire_simps)

definition layer_json :: "GridpointLayer \<Rightarrow> json" where
  "layer_json l = JObject [(''uom'', JString (uom l)), (''values'', JArray (map time_value_json (layer_values l)))]"

definition layer_ok :: "GridpointLayer \<Rightarrow> bool" where
  "layer_ok l \<longleftrightarrow> layer_unit l = parse_unit_code (uom l)"

interpretation layer: wire_format layer_json
    "\<lambda>j. populate_layer j \<lparr>uom = [], layer_unit = Unit.Unknown, layer_values = []\<rparr>" layer_ok
  by unfold_locales
    (simp add: layer_json_def layer_ok_def populate_layer_def wire_simps comp_def time_value.decode_all list_all_iff Let_def)

lemma maybe_layer_member [wire_simps]:
  assumes "lookup obj k = Some (optional layer_json l)" and "pred_option layer_ok l"
  shows "maybe_layer obj k None = l"
proof -
  have "is_object (layer_json x)" for x by (simp add: layer_json_def)
  with assms show ?thesis
    by (cases l) (simp_all add: maybe_layer_def optional_def wire_simps layer.decode_encode)
qed

definition layers :: "(string \<times> (GridpointProperties \<Rightarrow> GridpointLayer option)) list" where
  "layers =
    [(''temperature'', GridpointProperties.temperature), (''dewpoint'', GridpointProperties.dewpoint),
     (''maxTemperature'', max_temperature), (''minTemperature'', min_temperature),
     (''relativeHumidity'', GridpointProperties.relative_humidity), (''apparentTemperature'', apparent_temperature),
     (''heatIndex'', GridpointProperties.heat_index), (''windChill'', GridpointProperties.wind_chill),
     (''skyCover'', sky_cover), (''windDirection'', GridpointProperties.wind_direction),
     (''windSpeed'', GridpointProperties.wind_speed), (''windGust'', GridpointProperties.wind_gust),
     (''probabilityOfPrecipitation'', GridpointProperties.probability_of_precipitation),
     (''quantitativePrecipitation'', quantitative_precipitation), (''iceAccumulation'', ice_accumulation),
     (''snowfallAmount'', snowfall_amount), (''ceilingHeight'', ceiling_height),
     (''visibility'', GridpointProperties.visibility), (''pressure'', pressure)]"

definition gridpoint_json :: "GridpointProperties \<Rightarrow> json" where
  "gridpoint_json p = JObject
    ([(''updateTime'', JString (GridpointProperties.update_time p)), (''validTimes'', JString (valid_times p)),
      (''elevation'', qv_json (GridpointProperties.elevation p)), (''gridId'', JString (GridpointProperties.grid_id p)),
      (''gridX'', int_json (GridpointProperties.grid_x p)), (''gridY'', int_json (GridpointProperties.grid_y p))] @
     map (\<lambda>(key, l). (key, optional layer_json (l p))) layers)"

definition gridpoint_ok :: "GridpointProperties \<Rightarrow> bool" where
  "gridpoint_ok p \<longleftrightarrow> int32_range (GridpointProperties.grid_x p) \<and> int32_range (GridpointProperties.grid_y p) \<and>
     qv_ok (GridpointProperties.elevation p) \<and> list_all (\<lambda>(key, l). pred_option layer_ok (l p)) layers"

interpretation gridpoint: properties_format gridpoint_json populate_gridpoint_properties default_GridpointProperties
    gridpoint_ok
  by unfold_locales
    (simp_all add: gridpoint_json_def gridpoint_ok_def layers_def populate_gridpoint_properties_def
      default_GridpointProperties_def wire_simps Let_def)

section \<open>Alerts\<close>

fun status_text :: "AlertStatus \<Rightarrow> string" where
  "status_text AlertStatus.Actual = ''Actual''"
| "status_text AlertStatus.Exercise = ''Exercise''"
| "status_text AlertStatus.System = ''System''"
| "status_text AlertStatus.Test = ''Test''"
| "status_text AlertStatus.Draft = ''Draft''"

fun message_type_text :: "AlertMessageType \<Rightarrow> string" where
  "message_type_text AlertMessageType.Alert = ''Alert''"
| "message_type_text AlertMessageType.Update = ''Update''"
| "message_type_text AlertMessageType.Cancel = ''Cancel''"
| "message_type_text AlertMessageType.Ack = ''Ack''"
| "message_type_text AlertMessageType.Error = ''Error''"

lemma alert_codes_printed [wire_simps]:
  "parse_alert_status (status_text st) = st" "parse_alert_message_type (message_type_text mt) = mt"
  "parse_alert_severity (to_string_AlertSeverity sv) = sv" "parse_alert_certainty (to_string_AlertCertainty ct) = ct"
  "parse_alert_urgency (to_string_AlertUrgency ur) = ur"
proof -
  show "parse_alert_status (status_text st) = st" by (cases st) (simp_all add: parse_alert_status_def)
  show "parse_alert_message_type (message_type_text mt) = mt" by (cases mt) (simp_all add: parse_alert_message_type_def)
  show "parse_alert_severity (to_string_AlertSeverity sv) = sv" by (cases sv) (simp_all add: parse_alert_severity_def)
  show "parse_alert_certainty (to_string_AlertCertainty ct) = ct" by (cases ct) (simp_all add: parse_alert_certainty_def)
  show "parse_alert_urgency (to_string_AlertUrgency ur) = ur" by (cases ur) (simp_all add: parse_alert_urgency_def)
qed

definition alert_json :: "AlertProperties \<Rightarrow> json" where
  "alert_json p = JObject
    [(''id'', JString (alert_id p)), (''areaDesc'', JString (area_desc p)),
     (''geocode'', JObject [(''UGC'', strings_json (ugc (geocode p))), (''SAME'', strings_json (same (geocode p)))]),
     (''affectedZones'', strings_json (affected_zones p)), (''sent'', JString (sent p)),
     (''effective'', JString (effective p)), (''onset'', optional JString (onset p)), (''expires'', JString (expires p)),
     (''ends'', optional JString (ends p)), (''status'', JString (status_text (status p))),
     (''messageType'', JString (message_type_text (message_type p))), (''category'', JString (category p)),
     (''severity'', JString (to_string_AlertSeverity (severity p))),
     (''certainty'', JString (to_string_AlertCertainty (certainty p))),
     (''urgency'', JString (to_string_AlertUrgency (urgency p))), (''event'', JString (event p)),
     (''sender'', JString (sender p)), (''senderName'', JString (sender_name p)),
     (''headline'', optional JString (headline p)), (''description'', JString (description p)),
     (''instruction'', optional JString (instruction p)), (''response'', JString (alert_response p))]"

interpretation alert: properties_format alert_json populate_alert_properties default_AlertProperties "\<lambda>_. True"
  by unfold_locales
    (simp_all add: alert_json_def populate_alert_properties_def default_AlertProperties_def wire_simps Let_def)

text \<open>The counts of active alerts, printed in the order of their keys.\<close>

definition counts_json :: "(string \<rightharpoonup> int) \<Rightarrow> json" where
  "counts_json m = JObject (map (\<lambda>k. (k, int_json (the (m k)))) (sorted_list_of_set (dom m)))"

definition counts_ok :: "(string \<rightharpoonup> int) \<Rightarrow> bool" where
  "counts_ok m \<longleftrightarrow> finite (dom m) \<and> (\<forall>i\<in>ran m. int32_range i)"

definition active_count_json :: "AlertActiveCount \<Rightarrow> json" where
  "active_count_json c = JObject
    [(''total'', int_json (total c)), (''land'', int_json (land c)), (''marine'', int_json (marine c)),
     (''regions'', counts_json (regions c)), (''areas'', counts_json (areas c)), (''zones'', counts_json (zones c))]"

definition active_count_ok :: "AlertActiveCount \<Rightarrow> bool" where
  "active_count_ok c \<longleftrightarrow> int32_range (total c) \<and> int32_range (land c) \<and> int32_range (marine c) \<and>
     counts_ok (regions c) \<and> counts_ok (areas c) \<and> counts_ok (zones c)"

lemma fits_int32_int:
  assumes "int32_range i"
  shows "fits_int32 (double_of_int i)" "dtrunc (double_of_int i) = i"
proof -
  have b: "(of_int (- 2147483648) :: rat) \<le> of_int i" "(of_int i :: rat) \<le> of_int 2147483647"
    using assms by (simp_all only: of_int_le_iff)
  then show "fits_int32 (double_of_int i)" "dtrunc (double_of_int i) = i"
    using assms by (auto simp: fits_int32_def double_of_int_small int32_bounds dle_iff)
qed

lemma counts_printed [wire_simps]:
  assumes "lookup obj k = Some (counts_json m)" and "counts_ok m"
  shows "populate_string_int_map obj k Map.empty = m"
proof -
  let ?ms = "map (\<lambda>k. (k, int_json (the (m k)))) (sorted_list_of_set (dom m))"
  have fin: "finite (dom m)" using assms(2) by (simp add: counts_ok_def)
  have mem: "map_of ?ms x = (if x \<in> dom m then Some (int_json (the (m x))) else None)" for x
    using fin by (simp add: map_of_map_restrict)
  have dist: "distinct (map fst ?ms)" using fin by (simp add: comp_def)
  have small: "int32_range i" if "m x = Some i" for x i using assms(2) that by (auto simp: counts_ok_def ran_def)
  have "fold add_count ?ms Map.empty x = m x" for x
    unfolding fold_add_count [OF dist] mem
    by (cases "m x") (use small in \<open>auto simp: int_json_def fits_int32_int\<close>)
  moreover have "find_object obj k = Some (JObject ?ms)" using assms(1) by (simp add: find_object_def counts_json_def)
  ultimately show ?thesis by (auto simp: populate_string_int_map_def)
qed

lemma active_count_reads_back: "reads_back deserialize_alert_active_count active_count_json active_count_ok"
  unfolding deserialize_alert_active_count_def
  by (rule reads_backI)
    (simp add: active_count_json_def active_count_ok_def default_AlertActiveCount_def wire_simps Let_def)

section \<open>Aviation\<close>

definition sigmet_json :: "SigmetProperties \<Rightarrow> json" where
  "sigmet_json p = JObject
    [(''id'', JString (sigmet_id p)), (''atsu'', JString (atsu p)), (''sequence'', JString (SigmetProperties.sequence p)),
     (''phenomenon'', JString (phenomenon p)), (''validTimeFrom'', JString (SigmetProperties.valid_time_from p)),
     (''validTimeTo'', JString (SigmetProperties.valid_time_to p))]"

interpretation sigmet: properties_format sigmet_json populate_sigmet_properties default_SigmetProperties "\<lambda>_. True"
  by unfold_locales
    (simp_all add: sigmet_json_def populate_sigmet_properties_def default_SigmetProperties_def wire_simps)

definition cwa_json :: "CWAProperties \<Rightarrow> json" where
  "cwa_json p = JObject
    [(''id'', JString (cwa_id p)), (''cwsu'', JString (cwsu p)), (''sequence'', JString (CWAProperties.sequence p)),
     (''text'', JString (advisory_text p)), (''validTimeFrom'', JString (CWAProperties.valid_time_from p)),
     (''validTimeTo'', JString (CWAProperties.valid_time_to p))]"

interpretation cwa: properties_format cwa_json populate_cwa_properties default_CWAProperties "\<lambda>_. True"
  by unfold_locales
    (simp_all add: cwa_json_def populate_cwa_properties_def default_CWAProperties_def wire_simps)

section \<open>Properties\<close>

lemma fresh_weather_printable:
  "feature_ok forecast_ok (default_GeoJsonFeature default_ForecastProperties)"
  "feature_ok observation_ok (default_GeoJsonFeature default_ObservationProperties)"
  "feature_ok gridpoint_ok (default_GeoJsonFeature default_GridpointProperties)"
  "active_count_ok default_AlertActiveCount"
  by (simp_all add: feature_ok_def default_GeoJsonFeature_def forecast_ok_def observation_ok_def observed_def
      gridpoint_ok_def layers_def qv_ok_def active_count_ok_def counts_ok_def default_ForecastProperties_def
      default_ObservationProperties_def default_GridpointProperties_def default_AlertActiveCount_def
      default_QuantitativeValue_def parse_unit_code_def unit_map_def Let_def)

lemma weather_reads_back:
  "reads_back (deserialize_forecast_response to_chars) (feature_json forecast_json) (feature_ok forecast_ok)"
  "reads_back deserialize_observation_response (feature_json observation_json) (feature_ok observation_ok)"
  "reads_back deserialize_observation_collection (collection_json observation_json) (collection_ok observation_ok)"
  "reads_back deserialize_gridpoint_response (feature_json gridpoint_json) (feature_ok gridpoint_ok)"
  "reads_back deserialize_alert_feature (feature_json alert_json) (feature_ok (\<lambda>_. True))"
  "reads_back deserialize_alert_collection (collection_json alert_json) (collection_ok (\<lambda>_. True))"
  "reads_back deserialize_alert_active_count active_count_json active_count_ok"
  "reads_back deserialize_sigmet_feature (feature_json sigmet_json) (feature_ok (\<lambda>_. True))"
  "reads_back deserialize_sigmet_collection (collection_json sigmet_json) (collection_ok (\<lambda>_. True))"
  "reads_back deserialize_cwa_feature (feature_json cwa_json) (feature_ok (\<lambda>_. True))"
  "reads_back deserialize_cwa_collection (collection_json cwa_json) (collection_ok (\<lambda>_. True))"
  unfolding deserialize_forecast_response_def deserialize_observation_response_def
    deserialize_observation_collection_def populate_observation_response_def deserialize_gridpoint_response_def
    deserialize_alert_feature_def deserialize_alert_collection_def populate_alert_feature_def
    deserialize_sigmet_feature_def deserialize_sigmet_collection_def populate_sigmet_feature_def
    deserialize_cwa_feature_def deserialize_cwa_collection_def populate_cwa_feature_def
  by (rule forecast.feature.deserializes observation.feature.deserializes
      observation.feature.collection.deserializes gridpoint.feature.deserializes alert.feature.deserializes
      alert.feature.collection.deserializes active_count_reads_back sigmet.feature.deserializes
      sigmet.feature.collection.deserializes cwa.feature.deserializes cwa.feature.collection.deserializes)+

text \<open>
  C16: every deserializer of this group reads back what its printer wrote, into any destination:
  forecasts with their periods, observations with seventeen quantities and their cloud layers,
  gridpoints with nineteen optional layers of time series, alerts with their codes and optional
  texts, the counts of active alerts, and aviation products, alone or in collections.
\<close>

theorem weather_models_roundtrip:
  "reads_back (deserialize_forecast_response to_chars) (feature_json forecast_json) (feature_ok forecast_ok) \<and>
   reads_back deserialize_observation_response (feature_json observation_json) (feature_ok observation_ok) \<and>
   reads_back deserialize_observation_collection (collection_json observation_json) (collection_ok observation_ok) \<and>
   reads_back deserialize_gridpoint_response (feature_json gridpoint_json) (feature_ok gridpoint_ok) \<and>
   reads_back deserialize_alert_feature (feature_json alert_json) (feature_ok (\<lambda>_. True)) \<and>
   reads_back deserialize_alert_collection (collection_json alert_json) (collection_ok (\<lambda>_. True)) \<and>
   reads_back deserialize_alert_active_count active_count_json active_count_ok \<and>
   reads_back deserialize_sigmet_feature (feature_json sigmet_json) (feature_ok (\<lambda>_. True)) \<and>
   reads_back deserialize_sigmet_collection (collection_json sigmet_json) (collection_ok (\<lambda>_. True)) \<and>
   reads_back deserialize_cwa_feature (feature_json cwa_json) (feature_ok (\<lambda>_. True)) \<and>
   reads_back deserialize_cwa_collection (collection_json cwa_json) (collection_ok (\<lambda>_. True))"
  by (intro conjI allI weather_reads_back)

end
