(* ===== verification/End_To_End.thy ===== *)
theory End_To_End
  imports Steady_Service Location_Wire Weather_Wire
begin

text \<open>
  The whole stack on a service that answers: the rate limiter grants, libcurl delivers the document of
  the URL through the callbacks, the retry loop stops at the first response, the status is checked,
  the body is parsed and the model filled. What a method of \<open>NWSClient\<close> returns is then exactly the
  model whose JSON the service holds at the method's path, after exactly one transfer per request.
\<close>

section \<open>A service that answers\<close>

text \<open>
  \<open>answers P http_cfg site\<close>: libcurl accepts the header list and the options, and a transfer of a URL
  delivers the bytes \<open>site url\<close>, in any chunks and with any header lines, within the size limit, with status 200.
\<close>

definition answers :: "'w platform \<Rightarrow> ClientConfig \<Rightarrow> (string \<Rightarrow> string) \<Rightarrow> bool" where
  "answers P c site \<longleftrightarrow>
     (\<forall>s w. fst (slist_append (libcurl P) s w)) \<and> (\<forall>opt. setopt (libcurl P) opt) \<and>
     (\<forall>url w. \<exists>events sink w'. perform (libcurl P) (request_options c url) w = ((events, CURLE_OK), w') \<and>
        deliver events (empty_sink (max_response_bytes c)) = (True, sink) \<and> \<not> overflowed sink \<and>
        body (response sink) = site url \<and> response_code (libcurl P) w' = Some 200)"

lemma http_get_answered:
  assumes "answers P (http cfg) site" "usable cfg" "CHR 0x00 \<notin> set path" and "platform_ok P tm transfers"
  shows "\<exists>hs w'. HttpClient_get (libcurl P) (make_HttpClient True True (http cfg)) path w =
           (Inr \<lparr>status_code = 200, body = site (base_url (http cfg) @ path), headers = hs\<rparr>, w') \<and>
           transfers w' = Suc (transfers w)"
proof -
  let ?c = "http cfg" and ?url = "base_url (http cfg) @ path"
  obtain w1 where s: "slist_append (libcurl P) (''Accept: '' @ accept ?c) w = (True, w1)"
    using assms(1) unfolding answers_def by (metis (full_types) prod.collapse)
  obtain events sink w2 where p: "perform (libcurl P) (request_options ?c ?url) w1 = ((events, CURLE_OK), w2)"
      "deliver events (empty_sink (max_response_bytes ?c)) = (True, sink)" "\<not> overflowed sink"
      "body (response sink) = site ?url" "response_code (libcurl P) w2 = Some 200"
    using assms(1) unfolding answers_def by blast
  have n: "transfers w2 = Suc (transfers w)"
    using platform_okD(7) [OF assms(4), of "''Accept: '' @ accept ?c" w]
      platform_okD(9) [OF assms(4), of "request_options ?c ?url" w1] unfolding s p(1) by simp
  have o: "list_all (setopt (libcurl P)) (request_options ?c ?url)"
    using assms(1) by (simp add: answers_def list_all_iff)
  have "(response sink)\<lparr>status_code := to_int16 200\<rparr> =
      \<lparr>status_code = 200, body = site ?url, headers = headers (response sink)\<rparr>"
    using p(4) by (simp add: to_int16_def)
  with assms(2,3) s p o n show ?thesis
    by (simp add: HttpClient_get_def make_HttpClient_def usable_def del: append_Cons append_Nil)
qed

lemma do_get_answered:
  assumes ok: "online P tm transfers cfg budget c w"
    and site: "answers P (http cfg) site" "usable cfg" "CHR 0x00 \<notin> set path"
  shows "\<exists>hs c' w'. do_get P path c w =
           Some (Inr \<lparr>status_code = 200, body = site (base_url (http cfg) @ path), headers = hs\<rparr>, c', w') \<and>
           online P tm transfers cfg budget c' w' \<and> points_cache c' = points_cache c \<and>
           transfers w' = Suc (transfers w)"
proof -
  have c: "client_ok P tm transfers cfg budget c w" "http_client c = make_HttpClient True True (http cfg)"
    using ok by (simp_all add: online_def)
  then have p: "pipeline_ok P tm transfers (sanitized (rate_limit cfg)) budget (rate_limiter c, w)"
    and r: "retry_policy c = retry cfg" by (simp_all add: client_ok_def)
  have plat: "platform_ok P tm transfers" and inv: "bucket_inv (rate_limiter c) (tm w)"
    and cfg: "limiter_config (rate_limiter c) = sanitized (rate_limit cfg)"
    and small: "refill_interval (limiter_config (rate_limiter c)) < ns_to_ms int64_max"
    using p by (auto simp: pipeline_ok_def)
  have nowait: "max_wait (limiter_config (rate_limiter c)) = None"
    using site(2) cfg by (simp add: sanitized_def usable_def patient_def Let_def)
  obtain rl w1 where a: "acquire (clock P) (rate_limiter c) w = Some (True, rl, w1)"
    using acquire_returns [OF platform_okD(1) [OF plat] inv small] nowait by auto
  have t: "transfers w1 = transfers w"
    using acquire_credit [where f = transfers, OF a platform_okD(1) [OF plat] inv platform_okD(2) [OF plat]
        platform_okD(3) [OF plat]] by simp
  obtain hs w2 where h: "HttpClient_get (libcurl P) (http_client c) path w1 =
      (Inr \<lparr>status_code = 200, body = site (base_url (http cfg) @ path), headers = hs\<rparr>, w2)"
      "transfers w2 = Suc (transfers w1)"
    using http_get_answered [OF site plat, of w1] c(2) by auto
  have "1 \<le> max_attempts (retry cfg)" using site(2) by (simp add: usable_def patient_def)
  with a h r have d: "do_get P path c w = Some (Inr \<lparr>status_code = 200, body = site (base_url (http cfg) @ path),
      headers = hs\<rparr>, c\<lparr>rate_limiter := rl\<rparr>, w2)"
    by (simp add: do_get_def with_retry_def with_retry_loop.simps [of _ _ _ "retry cfg" 1] request_once_def
        should_retry_def should_retry_response_def)
  with do_get_ok [OF p, of path] client_ok_pipeline [OF c(1)]
  have "client_ok P tm transfers cfg budget (c\<lparr>rate_limiter := rl\<rparr>) w2" by fastforce
  with d c(2) t h(2) show ?thesis by (simp add: online_def)
qed

section \<open>Calls\<close>

lemma decode_with_reads_back:
  "reads_back d encode ok \<Longrightarrow> ok x \<Longrightarrow> glz_read b = Inr (encode x) \<Longrightarrow> decode_with d fresh glz_read b = Inr x"
  by (simp add: reads_back_def decode_with_def)

text \<open>The document the service holds at a path.\<close>

definition holds_at :: "'w platform \<Rightarrow> NWSClientConfig \<Rightarrow> (string \<Rightarrow> string) \<Rightarrow> string \<Rightarrow> json \<Rightarrow> bool" where
  "holds_at P cfg site path doc \<longleftrightarrow>
     CHR 0x00 \<notin> set path \<and> json_read P (site (base_url (http cfg) @ path)) = Inr doc"

lemma endpoint_answered:
  assumes "online P tm transfers cfg budget c w" "answers P (http cfg) site" "usable cfg"
    and "reads_back d encode ok" "ok x" "holds_at P cfg site path (encode x)"
  shows "\<exists>c' w'. endpoint (decode_with d fresh) P path c w = Some (Inr x, c', w') \<and>
           online P tm transfers cfg budget c' w' \<and> points_cache c' = points_cache c \<and>
           transfers w' = Suc (transfers w)"
proof -
  obtain hs c' w' where "do_get P path c w =
      Some (Inr \<lparr>status_code = 200, body = site (base_url (http cfg) @ path), headers = hs\<rparr>, c', w')"
      "online P tm transfers cfg budget c' w'" "points_cache c' = points_cache c" "transfers w' = Suc (transfers w)"
    using do_get_answered [OF assms(1-3), of path] assms(6) by (auto simp: holds_at_def)
  moreover have "decode_with d fresh (json_read P) (site (base_url (http cfg) @ path)) = Inr x"
    by (rule decode_with_reads_back [where encode = encode, OF assms(4,5)]) (use assms(6) in \<open>simp add: holds_at_def\<close>)
  ultimately show ?thesis by (simp add: endpoint_def body_or_error_def)
qed


text \<open>A point that is not cached is fetched, returned and stored.\<close>

lemma cache_store_keeps_http: "cache_store P k v c w = Some (c', w') \<Longrightarrow> http_client c' = http_client c"
  by (auto simp: cache_store_def split: option.splits prod.splits)

lemma point_answered:
  assumes ok: "online P tm transfers cfg budget c w" and site: "answers P (http cfg) site" "usable cfg"
    and "\<not> coordinates_invalid lat lon" "uncached lat lon c"
    and "feature_ok point_ok pt" "holds_at P cfg site (point_path P lat lon) (feature_json point_json pt)"
  shows "\<exists>c' w'. get_point P lat lon c w = Some (Inr pt, c', w') \<and> online P tm transfers cfg budget c' w' \<and>
           transfers w' = Suc (transfers w)"
proof -
  obtain c1 w1 where e: "endpoint (decode_with deserialize_point_response (default_GeoJsonFeature default_PointProperties)) P
        (point_path P lat lon) c w = Some (Inr pt, c1, w1)"
      "online P tm transfers cfg budget c1 w1" "transfers w1 = Suc (transfers w)"
    using endpoint_answered [OF ok site location_reads_back(2) assms(6,7)] by blast
  obtain c2 w2 where "cache_store P (point_key lat lon) pt c1 w1 = Some (c2, w2)"
      "client_ok P tm transfers cfg budget c2 w2" "transfers w2 = transfers w1"
    using cache_store_ok [of P tm transfers cfg budget c1 w1] e(2) unfolding online_def by blast
  with e ok assms(4) uncached_lookup [OF _ assms(5)] cache_store_keeps_http show ?thesis
    by (fastforce simp: get_point_def online_def point_path_def)
qed

text \<open>The calls that first resolve a point, on a client that is online and has not cached it.\<close>

lemma forecast_answered:
  assumes ok: "online P tm transfers cfg budget c w" "uncached lat lon c" and site: "answers P (http cfg) site" "usable cfg"
    and valid: "\<not> coordinates_invalid lat lon"
    and pt: "feature_ok point_ok pt" "holds_at P cfg site (point_path P lat lon) (feature_json point_json pt)"
    and fc: "feature_ok forecast_ok fc"
      "holds_at P cfg site (gridpoint_path (PointProperties.grid_id (properties pt)) (PointProperties.grid_x (properties pt))
         (PointProperties.grid_y (properties pt)) @ ''/forecast'' @ units_query units) (feature_json forecast_json fc)"
  shows "\<exists>c' w'. get_forecast_for_location P lat lon units c w = Some (Inr fc, c', w') \<and> transfers w' = transfers w + 2"
proof -
  obtain c1 w1 where p: "get_point P lat lon c w = Some (Inr pt, c1, w1)" "online P tm transfers cfg budget c1 w1"
      "transfers w1 = Suc (transfers w)"
    using point_answered [OF ok(1) site valid ok(2) pt] by blast
  obtain c2 w2 where "get_forecast P (PointProperties.grid_id (properties pt)) (PointProperties.grid_x (properties pt))
      (PointProperties.grid_y (properties pt)) units c1 w1 = Some (Inr fc, c2, w2)" "transfers w2 = Suc (transfers w1)"
    using endpoint_answered [OF p(2) site weather_reads_back(1) fc] unfolding get_forecast_def by blast
  with p show ?thesis by (simp add: get_forecast_for_location_def)
qed

lemma current_weather_answered:
  assumes ok: "online P tm transfers cfg budget c w" "uncached lat lon c" and site: "answers P (http cfg) site" "usable cfg"
    and valid: "\<not> coordinates_invalid lat lon"
    and pt: "feature_ok point_ok pt" "holds_at P cfg site (point_path P lat lon) (feature_json point_json pt)"
    and st: "collection_ok (\<lambda>p. qv_ok (StationProperties.elevation p)) stations"
      "holds_at P cfg site (gridpoint_path (PointProperties.grid_id (properties pt)) (PointProperties.grid_x (properties pt))
         (PointProperties.grid_y (properties pt)) @ ''/stations'') (collection_json station_json stations)"
    and obs: "\<And>nearest rest. features stations = nearest # rest \<Longrightarrow> feature_ok observation_ok obs \<and>
      holds_at P cfg site (station_path (station_identifier (properties nearest)) @ ''/observations/latest'')
        (feature_json observation_json obs)"
  shows "\<exists>c' w'. get_current_weather P lat lon c w =
           Some (if features stations = [] then Inl (Error_not_found ''No observation stations found near location'')
                 else Inr obs, c', w') \<and>
         transfers w' = transfers w + (if features stations = [] then 2 else 3)"
proof -
  let ?on = "online P tm transfers cfg budget" and ?p = "properties pt"
  obtain c1 w1 where p: "get_point P lat lon c w = Some (Inr pt, c1, w1)" "?on c1 w1" "transfers w1 = Suc (transfers w)"
    using point_answered [OF ok(1) site valid ok(2) pt] by blast
  obtain c2 w2 where s: "get_gridpoint_stations P (PointProperties.grid_id ?p) (PointProperties.grid_x ?p)
      (PointProperties.grid_y ?p) c1 w1 = Some (Inr stations, c2, w2)" "?on c2 w2" "transfers w2 = Suc (transfers w1)"
    using endpoint_answered [OF p(2) site location_reads_back(4) st]
    unfolding get_gridpoint_stations_def by blast
  show ?thesis
  proof (cases "features stations")
    case Nil
    with p s show ?thesis by (simp add: get_current_weather_def)
  next
    case (Cons nearest rest)
    with obs have o: "feature_ok observation_ok obs" "holds_at P cfg site
        (station_path (station_identifier (properties nearest)) @ ''/observations/latest'') (feature_json observation_json obs)"
      by blast+
    obtain c3 w3 where "get_latest_observation P (station_identifier (properties nearest)) c2 w2 = Some (Inr obs, c3, w3)"
        "transfers w3 = Suc (transfers w2)"
      using endpoint_answered [OF s(2) site weather_reads_back(2) o]
      unfolding get_latest_observation_def by blast
    with Cons p s show ?thesis by (simp add: get_current_weather_def)
  qed
qed

text \<open>
  A small service for the witnesses: its answer to a URL is the third character from the end, and the
  documents are given by their one-character texts.
\<close>

definition answer_of :: "string \<Rightarrow> string" where
  "answer_of url = (case rev url of _ # _ # ch # _ \<Rightarrow> [ch] | _ \<Rightarrow> ''?'')"

definition demo_service :: "(char \<Rightarrow> json) \<Rightarrow> (int \<times> nat) platform" where
  "demo_service docs = (demo_platform JNull)
     \<lparr>libcurl := (libcurl (demo_platform JNull))
        \<lparr>perform := (\<lambda>os (t, n). (([Body_Chunk True (case os of CURLOPT_URL url # _ \<Rightarrow> answer_of url | _ \<Rightarrow> ''?'') 1 1], 0),
           (t + 1, Suc n)))\<rparr>,
      json_read := (\<lambda>b. Inr (docs (hd b)))\<rparr>"

lemma demo_service_ok: "platform_ok (demo_service docs) fst snd"
  by (auto simp: platform_ok_def demo_service_def demo_platform_def steady_env_def low_draw_def)

lemma demo_service_answers:
  assumes "max_response_bytes c = 0 \<or> 1 \<le> max_response_bytes c"
  shows "answers (demo_service docs) c answer_of"
proof -
  have "deliver [Body_Chunk True [ch] 1 1] (empty_sink (max_response_bytes c)) =
      (True, (empty_sink (max_response_bytes c))\<lparr>response := \<lparr>status_code = 0, body = [ch], headers = []\<rparr>\<rparr>)" for ch
    using assms by (auto simp: write_callback_def empty_sink_def Let_def size_of_def)
  moreover have "\<exists>ch. answer_of url = [ch]" for url by (simp add: answer_of_def split: list.splits)
  ultimately have d: "deliver [Body_Chunk True (answer_of url) 1 1] (empty_sink (max_response_bytes c)) =
      (True, (empty_sink (max_response_bytes c))\<lparr>response := \<lparr>status_code = 0, body = answer_of url, headers = []\<rparr>\<rparr>)" for url
    by metis
  show ?thesis
    by (auto simp: answers_def demo_service_def demo_platform_def request_options_def Let_def d simp del: deliver.simps)
      (simp add: empty_sink_def)
qed

lemma demo_service_holds:
  assumes "CHR 0x00 \<notin> set path" and "3 \<le> length path" and "docs (rev path ! 2) = doc"
  shows "holds_at (demo_service docs) cfg answer_of path doc"
proof -
  obtain a b ch rest where "rev path = a # b # ch # rest"
    using assms(2) by (cases "rev path" rule: list.exhaust; cases "tl (rev path)"; cases "tl (tl (rev path))")
      (auto simp: rev_swap)
  with assms(1,3) show ?thesis by (simp add: holds_at_def demo_service_def answer_of_def)
qed

text \<open>
  \<open>fetches\<close>: the method returns the model whose JSON the service holds at the path, after one transfer, from
  any client that is online, and leaves it online.
\<close>

definition fetches ::
  "'w platform \<Rightarrow> ('w \<Rightarrow> nanoseconds) \<Rightarrow> ('w \<Rightarrow> nat) \<Rightarrow> NWSClientConfig \<Rightarrow> int \<Rightarrow> (string \<Rightarrow> string) \<Rightarrow>
    (NWSClient \<Rightarrow> 'w \<Rightarrow> ('a result \<times> NWSClient \<times> 'w) option) \<Rightarrow> string \<Rightarrow> ('a \<Rightarrow> json) \<Rightarrow> ('a \<Rightarrow> bool) \<Rightarrow> bool" where
  "fetches P tm transfers cfg budget site method path encode ok \<longleftrightarrow>
     (\<forall>x c w. online P tm transfers cfg budget c w \<longrightarrow> ok x \<longrightarrow> holds_at P cfg site path (encode x) \<longrightarrow>
        (\<exists>c' w'. method c w = Some (Inr x, c', w') \<and> online P tm transfers cfg budget c' w' \<and>
           transfers w' = Suc (transfers w)))"

lemma fetches_endpoint:
  assumes "answers P (http cfg) site" "usable cfg" "reads_back d encode ok"
  shows "fetches P tm transfers cfg budget site (endpoint (decode_with d fresh) P path) path encode ok"
  unfolding fetches_def using endpoint_answered [OF _ assms] by blast

text \<open>The alert types are read without a model; any decoder that reads the document back will do.\<close>

lemma fetches_alert_types:
  assumes "answers P (http cfg) site" "usable cfg"
  shows "fetches P tm transfers cfg budget site (get_alert_types P) ''/alerts/types''
           (\<lambda>ts. JObject [(''eventTypes'', strings_json ts)]) (\<lambda>_. True)"
proof -
  have "reads_back (\<lambda>glz_read b out. case decode_alert_types glz_read b of Inl e \<Rightarrow> (Inl e, out) | Inr v \<Rightarrow> (Inr (), v))
      (\<lambda>ts. JObject [(''eventTypes'', strings_json ts)]) (\<lambda>_. True)"
    by (simp add: reads_back_def decode_alert_types_def strings_json_def strings_of_map)
  moreover have "decode_with (\<lambda>glz_read b out. case decode_alert_types glz_read b of Inl e \<Rightarrow> (Inl e, out) | Inr v \<Rightarrow> (Inr (), v)) []
      = decode_alert_types"
    by (simp add: fun_eq_iff decode_with_def split: sum.split)
  ultimately show ?thesis
    using fetches_endpoint [OF assms, where fresh = "[]"] unfolding get_alert_types_def by metis
qed

section \<open>Properties\<close>

text \<open>
  C2: the current weather of a place, through the whole stack. When the service holds a point at the path
  of the coordinates, stations at the path of the point's grid cell and an observation at the path of the
  first of them, a new client returns that observation, field by field, after exactly three transfers;
  and when it holds no station there, the client reports that none was found, after two.
\<close>

theorem current_weather_end_to_end:
  assumes "platform_ok P tm transfers" "now \<le> tm w" "refill_interval (sanitized (rate_limit cfg)) < ns_to_ms int64_max"
    and "usable cfg" "answers P (http cfg) site" "\<not> coordinates_invalid lat lon"
    and "feature_ok point_ok pt" "holds_at P cfg site (point_path P lat lon) (feature_json point_json pt)"
    and "collection_ok (\<lambda>p. qv_ok (StationProperties.elevation p)) stations"
      "holds_at P cfg site (gridpoint_path (PointProperties.grid_id (properties pt)) (PointProperties.grid_x (properties pt))
         (PointProperties.grid_y (properties pt)) @ ''/stations'') (collection_json station_json stations)"
    and "\<And>nearest rest. features stations = nearest # rest \<Longrightarrow> feature_ok observation_ok obs \<and>
      holds_at P cfg site (station_path (station_identifier (properties nearest)) @ ''/observations/latest'')
        (feature_json observation_json obs)"
  shows "\<exists>c' w'. get_current_weather P lat lon (make_NWSClient True True cfg now) w =
           Some (if features stations = [] then Inl (Error_not_found ''No observation stations found near location'')
                 else Inr obs, c', w') \<and>
         transfers w' = transfers w + (if features stations = [] then 2 else 3)"
  by (rule current_weather_answered [OF fresh_online [OF assms(1-3)] fresh_uncached assms(5,4,6-10)]) (rule assms(11))

text \<open>
  C4: every endpoint, on a service that answers: from any client that is online, whatever calls it has
  made, the method returns exactly the model whose JSON the service holds at the method's path (with
  its arguments percent-encoded, its query and units), after exactly one transfer.
\<close>

theorem endpoints_end_to_end:
  assumes "answers P (http cfg) site" and "usable cfg"
  shows "fetches P tm transfers cfg budget site (get_forecast P wfo x y u)
       (gridpoint_path wfo x y @ ''/forecast'' @ units_query u) (feature_json forecast_json) (feature_ok forecast_ok)
   \<and> fetches P tm transfers cfg budget site (get_forecast_hourly P wfo x y u)
       (gridpoint_path wfo x y @ ''/forecast/hourly'' @ units_query u) (feature_json forecast_json) (feature_ok forecast_ok)
   \<and> fetches P tm transfers cfg budget site (get_gridpoint P wfo x y)
       (gridpoint_path wfo x y) (feature_json gridpoint_json) (feature_ok gridpoint_ok)
   \<and> fetches P tm transfers cfg budget site (get_gridpoint_stations P wfo x y)
       (gridpoint_path wfo x y @ ''/stations'') (collection_json station_json) (collection_ok (\<lambda>p. qv_ok (StationProperties.elevation p)))
   \<and> fetches P tm transfers cfg budget site (get_station P st)
       (station_path st) (feature_json station_json) (feature_ok (\<lambda>p. qv_ok (StationProperties.elevation p)))
   \<and> fetches P tm transfers cfg budget site (get_observations P st op)
       (station_path st @ ''/observations'' @ build_observations_query op) (collection_json observation_json) (collection_ok observation_ok)
   \<and> fetches P tm transfers cfg budget site (get_latest_observation P st)
       (station_path st @ ''/observations/latest'') (feature_json observation_json) (feature_ok observation_ok)
   \<and> fetches P tm transfers cfg budget site (get_alerts P ap)
       (''/alerts'' @ build_alerts_query ap) (collection_json alert_json) (collection_ok (\<lambda>_. True))
   \<and> fetches P tm transfers cfg budget site (get_active_alerts P ap)
       (''/alerts/active'' @ build_alerts_query ap) (collection_json alert_json) (collection_ok (\<lambda>_. True))
   \<and> fetches P tm transfers cfg budget site (get_active_alert_count P)
       ''/alerts/active/count'' active_count_json active_count_ok
   \<and> fetches P tm transfers cfg budget site (get_active_alerts_by_area P ident)
       (''/alerts/active/area/'' @ encode_query_value ident) (collection_json alert_json) (collection_ok (\<lambda>_. True))
   \<and> fetches P tm transfers cfg budget site (get_active_alerts_by_zone P ident)
       (''/alerts/active/zone/'' @ encode_query_value ident) (collection_json alert_json) (collection_ok (\<lambda>_. True))
   \<and> fetches P tm transfers cfg budget site (get_alert P ident)
       (''/alerts/'' @ encode_query_value ident) (feature_json alert_json) (feature_ok (\<lambda>_. True))
   \<and> fetches P tm transfers cfg budget site (get_alert_types P)
       ''/alerts/types'' (\<lambda>ts. JObject [(''eventTypes'', strings_json ts)]) (\<lambda>_. True)
   \<and> fetches P tm transfers cfg budget site (get_zone P ty ident)
       (zone_path ty ident) (feature_json zone_json) (feature_ok (\<lambda>_. True))
   \<and> fetches P tm transfers cfg budget site (get_zone_forecast P ty ident)
       (zone_path ty ident @ ''/forecast'') (zone_forecast_json nested) zone_forecast_ok
   \<and> fetches P tm transfers cfg budget site (get_glossary P)
       ''/glossary'' glossary_json (\<lambda>_. True)
   \<and> fetches P tm transfers cfg budget site (get_latest_product P ty ident)
       (latest_product_path ty ident) product_json (\<lambda>_. True)
   \<and> fetches P tm transfers cfg budget site (get_product P ident)
       (''/products/'' @ encode_query_value ident) product_json (\<lambda>_. True)"
  unfolding get_forecast_def get_forecast_hourly_def get_gridpoint_def get_gridpoint_stations_def get_station_def
    get_observations_def get_latest_observation_def get_alerts_def get_active_alerts_def get_active_alert_count_def
    get_active_alerts_by_area_def get_active_alerts_by_zone_def get_alert_def get_zone_def get_zone_forecast_def
    get_glossary_def get_latest_product_def get_product_def
  by (intro conjI; (rule fetches_alert_types [OF assms]
      | rule fetches_endpoint [OF assms], rule location_reads_back | rule fetches_endpoint [OF assms], rule weather_reads_back))

text \<open>One station, an observation with no measurements, and a point, all with fresh fields.\<close>

definition demo_stations :: StationCollectionResponse where
  "demo_stations = default_GeoJsonFeatureCollection\<lparr>features := [default_GeoJsonFeature default_StationProperties]\<rparr>"

definition demo_docs :: "char \<Rightarrow> json" where
  "demo_docs ch =
     (if ch = CHR ''0'' then feature_json point_json (default_GeoJsonFeature default_PointProperties)
      else if ch = CHR ''o'' then collection_json station_json demo_stations
      else feature_json observation_json (default_GeoJsonFeature default_ObservationProperties))"

lemma demo_config_usable:
  "usable demo_config" "refill_interval (sanitized (rate_limit demo_config)) < ns_to_ms int64_max"
  by (simp_all add: usable_def patient_def demo_config_def default_ClientConfig_def default_RateLimiterConfig_def
      default_RetryPolicy_def sanitized_def invalid_header_def ns_to_ms_def sdiv_nonneg)

lemma demo_service_ans: "answers (demo_service demo_docs) (http demo_config) answer_of"
  by (rule demo_service_answers) (simp add: demo_config_def default_ClientConfig_def)

lemma demo_held:
  "holds_at (demo_service demo_docs) demo_config answer_of
     (point_path (demo_service demo_docs) (Fin False 0) (Fin False 0))
     (feature_json point_json (default_GeoJsonFeature default_PointProperties))"
  "holds_at (demo_service demo_docs) demo_config answer_of (gridpoint_path [] 0 0 @ ''/stations'')
     (collection_json station_json demo_stations)"
  "holds_at (demo_service demo_docs) demo_config answer_of (station_path [] @ ''/observations/latest'')
     (feature_json observation_json (default_GeoJsonFeature default_ObservationProperties))"
proof -
  have zero: "int_to_string 0 = ''0''" by code_simp
  show "holds_at (demo_service demo_docs) demo_config answer_of
      (point_path (demo_service demo_docs) (Fin False 0) (Fin False 0))
      (feature_json point_json (default_GeoJsonFeature default_PointProperties))"
    "holds_at (demo_service demo_docs) demo_config answer_of (gridpoint_path [] 0 0 @ ''/stations'')
      (collection_json station_json demo_stations)"
    "holds_at (demo_service demo_docs) demo_config answer_of (station_path [] @ ''/observations/latest'')
      (feature_json observation_json (default_GeoJsonFeature default_ObservationProperties))"
    by (rule demo_service_holds;
        simp add: point_path_def gridpoint_path_def station_path_def demo_service_def demo_platform_def demo_docs_def zero)+
qed

theorem current_weather_end_to_end_witness:
  "\<exists>c' w'. get_current_weather (demo_service demo_docs) (Fin False 0) (Fin False 0)
       (make_NWSClient True True demo_config 0) (0, 0) =
     Some (Inr (default_GeoJsonFeature default_ObservationProperties), c', w') \<and> snd w' = 3"
proof -
  let ?pt = "default_GeoJsonFeature default_PointProperties" and ?obs = "default_GeoJsonFeature default_ObservationProperties"
  have grid: "PointProperties.grid_id (properties ?pt) = []" "PointProperties.grid_x (properties ?pt) = 0"
      "PointProperties.grid_y (properties ?pt) = 0"
    by (simp_all add: default_GeoJsonFeature_def default_PointProperties_def)
  have st: "features demo_stations = [default_GeoJsonFeature default_StationProperties]"
      "station_identifier (properties (default_GeoJsonFeature default_StationProperties)) = []"
    by (simp_all add: demo_stations_def default_GeoJsonFeature_def default_StationProperties_def)
  have sok: "collection_ok (\<lambda>p. qv_ok (StationProperties.elevation p)) demo_stations"
    using fresh_models_printable(2)
    by (simp add: collection_ok_def st) (simp add: demo_stations_def default_GeoJsonFeatureCollection_def)
  have "\<not> coordinates_invalid (Fin False 0) (Fin False 0)" by (rule origin_valid)
  from current_weather_end_to_end [where pt = ?pt and obs = ?obs and now = 0 and w = "(0, 0)",
      OF demo_service_ok _ demo_config_usable(2,1) demo_service_ans this fresh_models_printable(1) demo_held(1) sok, unfolded grid, OF _ demo_held(2)]
  show ?thesis using st demo_held(3) fresh_weather_printable(2) by simp
qed

theorem endpoints_end_to_end_witness:
  "\<exists>c' w'. get_latest_observation (demo_service demo_docs) [] (make_NWSClient True True demo_config 0) (0, 0) =
     Some (Inr (default_GeoJsonFeature default_ObservationProperties), c', w') \<and> snd w' = 1"
proof -
  let ?budget = "start_budget (sanitized (rate_limit demo_config)) 0 0"
  have on: "online (demo_service demo_docs) fst snd demo_config ?budget (make_NWSClient True True demo_config 0) (0, 0)"
    using fresh_online [OF demo_service_ok _ demo_config_usable(2), of 0 "(0, 0)" demo_docs] by simp
  have "fetches (demo_service demo_docs) fst snd demo_config ?budget answer_of
      (get_latest_observation (demo_service demo_docs) []) (station_path [] @ ''/observations/latest'')
      (feature_json observation_json) (feature_ok observation_ok)"
    using endpoints_end_to_end [OF demo_service_ans demo_config_usable(1)] by blast
  with on demo_held(3) fresh_weather_printable(2) show ?thesis by (fastforce simp: fetches_def)
qed

end
