(* ===== verification/Example_Programs.thy ===== *)
theory Example_Programs
  imports End_To_End
begin

text \<open>
  The example programs (\<open>examples/*.cpp\<close>): what each writes to its two streams, its exit code, and the
  requests it makes. They show how the client, the models and the unit conversions are used together.
  How a stream prints a double is an argument (\<open>show_double\<close>). Converting a double to \<open>int\<close> is undefined
  outside the range of \<open>int\<close>; such a run ends in \<open>Undefined\<close>.
\<close>

section \<open>Programs\<close>

datatype program_end = Exit (out: string) (err: string) (exit_code: int) | Undefined

definition has_value :: "QuantitativeValue \<Rightarrow> bool" where
  "has_value q \<longleftrightarrow> quantity_value q \<noteq> None"

definition int_cast :: "double \<Rightarrow> int option" where
  "int_cast d = (if isfinite d \<and> int32_range (dtrunc d) then Some (dtrunc d) else None)"

text \<open>The pieces a program writes, one of which may be undefined.\<close>

definition printed :: "string option list \<Rightarrow> string option" where
  "printed ps = (if None \<in> set ps then None else Some (concat (map the ps)))"

definition print_int :: "string \<Rightarrow> double option \<Rightarrow> string \<Rightarrow> string option" where
  "print_int pre v post =
     (case v of None \<Rightarrow> Some [] | Some d \<Rightarrow> map_option (\<lambda>i. pre @ int_to_string i @ post) (int_cast d))"

abbreviation line_end :: string where "line_end \<equiv> [CHR 0x0A]"

definition example_config :: "bool \<Rightarrow> NWSClientConfig" where
  "example_config cached =
     \<lparr>http = default_ClientConfig\<lparr>user_agent := ''(nws-cpp-example, dev@example.com)''\<rparr>,
      rate_limit = default_RateLimiterConfig, retry = default_RetryPolicy, cache = default_LruCacheConfig,
      enable_cache = cached\<rparr>"

definition example_client :: "bool \<Rightarrow> bool \<Rightarrow> bool \<Rightarrow> 'w platform \<Rightarrow> 'w \<Rightarrow> NWSClient \<times> 'w" where
  "example_client g i cached P w =
     (case steady_now (clock P) w of (now, w) \<Rightarrow> (make_NWSClient g i (example_config cached) now, w))"

definition error_line :: "Error \<Rightarrow> string" where
  "error_line e = ''Error: '' @ message e @ line_end"

text \<open>The shape of the programs that make one call and report its result.\<close>

definition one_call ::
  "(NWSClient \<Rightarrow> 'w \<Rightarrow> ('a result \<times> NWSClient \<times> 'w) option) \<Rightarrow> (Error \<Rightarrow> string) \<Rightarrow> ('a \<Rightarrow> string option) \<Rightarrow>
    NWSClient \<times> 'w \<Rightarrow> (program_end \<times> 'w) option" where
  "one_call call on_error report = (\<lambda>(c, w).
     case call c w of
       None \<Rightarrow> None
     | Some (Inl e, _, w) \<Rightarrow> Some (Exit [] (on_error e) 1, w)
     | Some (Inr v, _, w) \<Rightarrow> Some (case report v of None \<Rightarrow> Undefined | Some t \<Rightarrow> Exit t [] 0, w))"

subsection \<open>A point\<close>

definition point_report :: "PointResponse \<Rightarrow> string" where
  "point_report pt =
    (let p = properties pt; near = relative_properties (relative_location p)
     in ''Grid: '' @ PointProperties.grid_id p @ '' ('' @ int_to_string (PointProperties.grid_x p) @ '','' @
          int_to_string (PointProperties.grid_y p) @ '')'' @ line_end @
        ''Time Zone: '' @ PointProperties.time_zone p @ line_end @
        ''Radar: '' @ radar_station p @ line_end @
        ''Near: '' @ city near @ '', '' @ RelativeLocationProperties.state near @ line_end @
        ''Forecast URL: '' @ PointProperties.forecast_url p @ line_end)"

definition basic_usage :: "bool \<Rightarrow> bool \<Rightarrow> 'w platform \<Rightarrow> 'w \<Rightarrow> (program_end \<times> 'w) option" where
  "basic_usage g i P w =
     one_call (get_point P (dlit (397456 / 10000)) (dlit (- (970892 / 10000)))) error_line (\<lambda>pt. Some (point_report pt))
       (example_client g i True P w)"

subsection \<open>Alerts\<close>

definition alert_report :: "AlertFeature \<Rightarrow> string" where
  "alert_report f =
    (let p = properties f
     in ''Event: '' @ AlertProperties.event p @ line_end @
        ''Severity: '' @ to_string_AlertSeverity (AlertProperties.severity p) @ line_end @
        ''Urgency: '' @ to_string_AlertUrgency (AlertProperties.urgency p) @ line_end @
        ''Certainty: '' @ to_string_AlertCertainty (AlertProperties.certainty p) @ line_end @
        ''Area: '' @ AlertProperties.area_desc p @ line_end @
        (case AlertProperties.headline p of Some h \<Rightarrow> ''Headline: '' @ h @ line_end | None \<Rightarrow> []) @
        ''Effective: '' @ AlertProperties.effective p @ line_end @
        ''Expires: '' @ AlertProperties.expires p @ line_end @ line_end)"

definition alerts_report :: "AlertCollectionResponse \<Rightarrow> string" where
  "alerts_report alerts =
     ''Active alerts for Kansas: '' @ nat_to_string (length (features alerts)) @ line_end @ line_end @
     concat (map alert_report (features alerts)) @
     (if features alerts = [] then ''No active alerts. Check another state or try later.'' @ line_end else [])"

definition get_alerts_main :: "bool \<Rightarrow> bool \<Rightarrow> 'w platform \<Rightarrow> 'w \<Rightarrow> (program_end \<times> 'w) option" where
  "get_alerts_main g i P w =
     one_call (get_active_alerts_by_area P ''KS'') error_line (\<lambda>alerts. Some (alerts_report alerts))
       (example_client g i False P w)"

subsection \<open>A forecast\<close>

definition period_report :: "(double \<Rightarrow> string) \<Rightarrow> ForecastPeriod \<Rightarrow> string" where
  "period_report show_double p =
     ForecastPeriod.name p @ '': '' @ int_to_string (ForecastPeriod.temperature p) @ temperature_unit p @ line_end @
     ''  Wind: '' @ ForecastPeriod.wind_speed p @ '' '' @ ForecastPeriod.wind_direction p @ line_end @
     ''  '' @ short_forecast p @ line_end @
     (if has_value (ForecastPeriod.probability_of_precipitation p)
      then ''  Precip: '' @ show_double (the (quantity_value (ForecastPeriod.probability_of_precipitation p))) @ ''%'' @ line_end
      else []) @ line_end"

definition forecast_report :: "(double \<Rightarrow> string) \<Rightarrow> ForecastResponse \<Rightarrow> string" where
  "forecast_report show_double f =
     ''Forecast generated: '' @ generated_at (properties f) @ line_end @ line_end @
     concat (map (period_report show_double) (ForecastProperties.periods (properties f)))"

definition get_forecast_main ::
  "bool \<Rightarrow> bool \<Rightarrow> (double \<Rightarrow> string) \<Rightarrow> 'w platform \<Rightarrow> 'w \<Rightarrow> (program_end \<times> 'w) option" where
  "get_forecast_main g i show_double P w =
     one_call (get_forecast_for_location P (dlit (302672 / 10000)) (dlit (- (977431 / 10000))) None)
       (\<lambda>e. error_line e @ (if detail e \<noteq> [] then ''Detail: '' @ detail e @ line_end else []))
       (\<lambda>f. Some (forecast_report show_double f)) (example_client g i True P w)"

subsection \<open>An observation\<close>

definition observation_report :: "(double \<Rightarrow> string) \<Rightarrow> ObservationResponse \<Rightarrow> string option" where
  "observation_report show_double obs =
    (let p = properties obs; temp = ObservationProperties.temperature p; dew = ObservationProperties.dewpoint p;
         wind = ObservationProperties.wind_speed p
     in printed
       [Some (''Station: '' @ station_name p @ '' ('' @ station_id p @ '')'' @ line_end @
          ''Time: '' @ timestamp p @ line_end @ ''Conditions: '' @ text_description p @ line_end @ line_end),
        if has_value temp then printed
          [Some (''Temperature: '' @ show_double (the (quantity_value temp)) @ '' '' @ to_string_Unit (unit temp)),
           print_int '' ('' (quantity_value (converted_to temp Unit.DegF)) '' F)'', Some line_end]
        else Some [],
        if has_value dew
        then Some (''Dewpoint: '' @ show_double (the (quantity_value dew)) @ '' '' @ to_string_Unit (unit dew) @ line_end)
        else Some [],
        if has_value wind then printed
          [Some (''Wind: '' @ show_double (the (quantity_value wind)) @ '' '' @ to_string_Unit (unit wind)),
           print_int '' ('' (quantity_value (converted_to wind Unit.Mi_h)) '' mph)'',
           print_int '' from '' (quantity_value (ObservationProperties.wind_direction p)) '' deg'', Some line_end]
        else Some [],
        if has_value (barometric_pressure p)
        then print_int ''Pressure: '' (quantity_value (converted_to (barometric_pressure p) Unit.Millibar))
          ('' mbar'' @ line_end)
        else Some [],
        if has_value (ObservationProperties.visibility p)
        then print_int ''Visibility: '' (quantity_value (converted_to (ObservationProperties.visibility p) Unit.Mile))
          ('' mi'' @ line_end)
        else Some []])"

definition get_observations_main ::
  "bool \<Rightarrow> bool \<Rightarrow> (double \<Rightarrow> string) \<Rightarrow> 'w platform \<Rightarrow> 'w \<Rightarrow> (program_end \<times> 'w) option" where
  "get_observations_main g i show_double P w =
     one_call (get_current_weather P (dlit (377749 / 10000)) (dlit (- (1224194 / 10000)))) error_line
       (observation_report show_double) (example_client g i False P w)"

subsection \<open>Monitoring a station\<close>

definition monitor_line :: "nat \<Rightarrow> ObservationProperties \<Rightarrow> string option" where
  "monitor_line i p =
     printed
       [Some (''['' @ nat_to_string (Suc i) @ ''] '' @ timestamp p @ '' - '' @ text_description p),
        if has_value (ObservationProperties.temperature p)
        then print_int '' | ''
          (Some (celsius_to_fahrenheit (the (quantity_value (ObservationProperties.temperature p))))) ''F''
        else Some [],
        if has_value (ObservationProperties.wind_speed p)
        then print_int '' | Wind '' (quantity_value (converted_to (ObservationProperties.wind_speed p) Unit.Mi_h)) '' mph''
        else Some [],
        Some line_end]"

definition monitor_error :: "nat \<Rightarrow> Error \<Rightarrow> string" where
  "monitor_error i e = ''['' @ nat_to_string (Suc i) @ ''] Error: '' @ message e @ line_end"

text \<open>Both streams continue with what the rest of the run writes.\<close>

fun followed_by :: "string \<Rightarrow> string \<Rightarrow> program_end \<Rightarrow> program_end" where
  "followed_by o' e' (Exit o1 e1 n) = Exit (o' @ o1) (e' @ e1) n"
| "followed_by o' e' Undefined = Undefined"

function monitor_loop :: "'w platform \<Rightarrow> nat \<Rightarrow> nat \<Rightarrow> NWSClient \<Rightarrow> 'w \<Rightarrow> (program_end \<times> 'w) option" where
  "monitor_loop P poll_count i c w =
    (if i < poll_count then
       (case get_latest_observation P ''KJFK'' c w of
          None \<Rightarrow> None
        | Some (obs, c, w) \<Rightarrow>
            (case (case obs of
                     Inl e \<Rightarrow> Some ([], monitor_error i e)
                   | Inr v \<Rightarrow> map_option (\<lambda>t. (t, [])) (monitor_line i (properties v))) of
               None \<Rightarrow> Some (Undefined, w)
             | Some (o', e') \<Rightarrow>
                 let w = (if i < poll_count - 1 then sleep_for (clock P) (60 * ns_per_s) w else w)
                 in map_option (\<lambda>(r, w). (followed_by o' e' r, w)) (monitor_loop P poll_count (Suc i) c w)))
     else Some (Exit (line_end @ ''Done.'' @ line_end) [] 0, w))"
  by pat_completeness auto

termination monitor_loop
  by (relation "measure (\<lambda>(_, poll_count, i, _). poll_count - i)") auto

declare monitor_loop.simps [simp del]

definition weather_monitor :: "bool \<Rightarrow> bool \<Rightarrow> 'w platform \<Rightarrow> 'w \<Rightarrow> (program_end \<times> 'w) option" where
  "weather_monitor g i P w =
    (case example_client g i True P w of (c, w) \<Rightarrow>
       map_option (\<lambda>(r, w). (followed_by (''Monitoring station KJFK (3 observations, 60s interval)'' @ line_end @ line_end) [] r, w))
         (monitor_loop P 3 0 c w))"

section \<open>Runs\<close>

text \<open>The clients of the programs are sound.\<close>

lemma example_configs:
  "refill_interval (sanitized (rate_limit (example_config cached))) < ns_to_ms int64_max"
  "usable (example_config cached)" "unat (max_attempts (retry (example_config cached))) = 3"
  by (simp_all add: usable_def patient_def example_config_def default_ClientConfig_def default_RateLimiterConfig_def
      default_RetryPolicy_def sanitized_def invalid_header_def ns_to_ms_def sdiv_nonneg)

lemma example_client_ok:
  assumes "platform_ok P tm transfers" and "example_client g i cached P w = (c, w1)"
  obtains budget where "client_ok P tm transfers (example_config cached) budget c w1"
    "g \<Longrightarrow> i \<Longrightarrow> online P tm transfers (example_config cached) budget c w1"
    "transfers w1 = transfers w" "tm w \<le> tm w1"
proof -
  obtain now where n: "steady_now (clock P) w = (now, w1)" and c: "c = make_NWSClient g i (example_config cached) now"
    using assms(2) by (auto simp: example_client_def split: prod.splits)
  have t: "tm w \<le> now" "now \<le> tm w1" using steady_env_now [OF platform_okD(1) [OF assms(1)] n] by auto
  show thesis
  proof
    show "client_ok P tm transfers (example_config cached)
        (start_budget (sanitized (rate_limit (example_config cached))) now (transfers w1)) c w1"
      unfolding c by (rule make_client_ok [OF assms(1) t(2) example_configs(1)])
    show "transfers w1 = transfers w" using platform_okD(2) [OF assms(1), of w] n by simp
  qed (use fresh_online [OF assms(1) t(2) example_configs(1)] t in \<open>simp_all add: c\<close>)
qed

lemma example_client_uncached: "example_client g i cached P w = (c, w1) \<Longrightarrow> uncached lat lon c"
  by (auto simp: example_client_def fresh_uncached split: prod.splits)

text \<open>
  How a program may end: it says what it found on the standard output and exits with 0, or it writes an
  error to the error stream, nothing else, and exits with 1.
\<close>

fun reported :: "program_end \<Rightarrow> bool" where
  "reported (Exit o' e' n) \<longleftrightarrow> e' = [] \<and> n = 0 \<or> o' = [] \<and> e' \<noteq> [] \<and> n = 1"
| "reported Undefined \<longleftrightarrow> False"

lemma one_call_ends:
  assumes "platform_ok P tm transfers" and call: "\<And>budget. served P tm transfers (example_config cached) budget n call"
    and err: "\<And>e. on_error e \<noteq> []"
  shows "\<exists>r w'. one_call call on_error report (example_client g i cached P w) = Some (r, w') \<and>
           tm w \<le> tm w' \<and> transfers w' \<le> transfers w + 3 * n \<and>
           (reported r \<or> r = Undefined \<and> (\<exists>v. report v = None))"
proof -
  obtain c w1 where c: "example_client g i cached P w = (c, w1)" by (cases "example_client g i cached P w")
  from assms(1) c obtain budget where ok: "client_ok P tm transfers (example_config cached) budget c w1"
      and w1: "transfers w1 = transfers w" "tm w \<le> tm w1" by (rule example_client_ok)
  from call ok obtain r c2 w2 where f: "call c w1 = Some (r, c2, w2)"
      "transfers w2 \<le> transfers w1 + n * unat (max_attempts (retry (example_config cached)))" "tm w1 \<le> tm w2"
    by (rule servedE)
  show ?thesis
  proof (cases r)
    case (Inl e)
    with c f w1 err show ?thesis by (simp add: one_call_def example_configs(3))
  next
    case (Inr v)
    with c f w1 show ?thesis
      by (cases "report v") (auto simp: one_call_def example_configs(3))
  qed
qed

text \<open>The polls from number \<open>i\<close> on: each sends at most three requests, and a pause separates two of them.\<close>

lemma client_ok_later:
  "client_ok P tm transfers cfg budget c w \<Longrightarrow> tm w \<le> tm w' \<Longrightarrow> transfers w' = transfers w \<Longrightarrow>
   client_ok P tm transfers cfg budget c w'"
  by (auto simp: client_ok_def intro: pipeline_ok_later)

lemma followed_by_end:
  "followed_by o' e' r = Undefined \<longleftrightarrow> r = Undefined" "r \<noteq> Undefined \<Longrightarrow> exit_code (followed_by o' e' r) = exit_code r"
  by (cases r; simp)+

lemma monitor_loop_ends:
  assumes plat: "platform_ok P tm transfers"
  shows "client_ok P tm transfers (example_config True) budget c w \<Longrightarrow>
    \<exists>r w'. monitor_loop P n i c w = Some (r, w') \<and> transfers w' \<le> transfers w + 3 * (n - i) \<and>
      (r = Undefined \<or> exit_code r = 0 \<and> tm w + 60 * ns_per_s * int (n - Suc i) \<le> tm w')"
proof (induction "n - i" arbitrary: i c w)
  case 0
  then show ?case by (simp add: monitor_loop.simps [of P n i])
next
  case (Suc k)
  define d where "d = (if i < n - 1 then 60 * ns_per_s else 0)"
  have "served P tm transfers (example_config True) budget 1 (get_latest_observation P ''KJFK'')"
    by (simp only: get_latest_observation_def served_endpoint)
  from this Suc.prems obtain obs c1 w1 where g: "get_latest_observation P ''KJFK'' c w = Some (obs, c1, w1)"
      "client_ok P tm transfers (example_config True) budget c1 w1" "transfers w1 \<le> transfers w + 3" "tm w \<le> tm w1"
    by (rule servedE) (simp add: example_configs(3))
  define w2 where "w2 = (if i < n - 1 then sleep_for (clock P) (60 * ns_per_s) w1 else w1)"
  have w2: "tm w1 + d \<le> tm w2" "transfers w2 = transfers w1" "0 \<le> d"
    using steady_env_sleep [OF platform_okD(1) [OF plat], of w1 "60 * ns_per_s"] platform_okD(3) [OF plat]
    by (auto simp: w2_def d_def)
  have "client_ok P tm transfers (example_config True) budget c1 w2"
    using g(2) w2 by (intro client_ok_later [OF g(2)]) auto
  moreover have "k = n - Suc i" using Suc.hyps(2) by simp
  ultimately obtain r w' where
    ih: "monitor_loop P n (Suc i) c1 w2 = Some (r, w')" "transfers w' \<le> transfers w2 + 3 * (n - Suc i)"
      "r = Undefined \<or> exit_code r = 0 \<and> tm w2 + 60 * ns_per_s * int (n - Suc (Suc i)) \<le> tm w'"
    using Suc.hyps(1) by blast
  have pause: "60 * ns_per_s * int (n - Suc i) = d + 60 * ns_per_s * int (n - Suc (Suc i))"
    using Suc.hyps(2) by (auto simp: d_def of_nat_diff algebra_simps)
  have i: "i < n" and left: "n - i = Suc (n - Suc i)" using Suc.hyps(2) by auto
  define text_of where "text_of = (case obs of Inl e \<Rightarrow> Some ([], monitor_error i e)
      | Inr v \<Rightarrow> map_option (\<lambda>t. (t, [])) (monitor_line i (properties v)))"
  have "monitor_loop P n i c w = (case text_of of None \<Rightarrow> Some (Undefined, w1)
      | Some (o', e') \<Rightarrow> map_option (\<lambda>(r, w). (followed_by o' e' r, w)) (monitor_loop P n (Suc i) c1 w2))"
    unfolding monitor_loop.simps [of P n i c w] g(1) text_of_def w2_def Let_def using i by simp
  then consider (stop) "monitor_loop P n i c w = Some (Undefined, w1)"
    | (more) o' e' where "monitor_loop P n i c w = Some (followed_by o' e' r, w')"
    unfolding ih(1) by (cases text_of) auto
  then show ?case
  proof cases
    case stop
    with g left show ?thesis by simp
  next
    case more
    with ih w2 g pause left show ?thesis by (cases "r = Undefined") (auto simp: followed_by_end)
  qed
qed

text \<open>On a service that answers, a program reports the value its call returns.\<close>

lemma one_call_reports:
  assumes "platform_ok P tm transfers"
    and "\<And>budget c w. online P tm transfers (example_config cached) budget c w \<Longrightarrow> (\<And>lat lon. uncached lat lon c) \<Longrightarrow>
      \<exists>c' w'. call c w = Some (Inr v, c', w') \<and> transfers w' = transfers w + n"
  shows "\<exists>w'. one_call call on_error report (example_client True True cached P w) =
           Some (case report v of None \<Rightarrow> Undefined | Some t \<Rightarrow> Exit t [] 0, w') \<and> transfers w' = transfers w + n"
proof -
  obtain c w1 where c: "example_client True True cached P w = (c, w1)" by (cases "example_client True True cached P w")
  from assms(1) c obtain budget where "online P tm transfers (example_config cached) budget c w1"
      and w1: "transfers w1 = transfers w" by (rule example_client_ok) simp
  from assms(2) [OF this(1) example_client_uncached [OF c]] obtain c' w' where
    "call c w1 = Some (Inr v, c', w')" "transfers w' = transfers w1 + n" by blast
  with c w1 show ?thesis by (simp add: one_call_def)
qed

lemma example_config_http:
  "http (example_config cached) = http (example_config True)" "holds_at P (example_config cached) = holds_at P (example_config True)"
  by (simp_all add: example_config_def holds_at_def fun_eq_iff)

text \<open>Literal coordinates within the bounds are accepted, however they round.\<close>

lemma literal_coordinates_valid:
  assumes "\<bar>lat\<bar> \<le> 90" and "\<bar>lon\<bar> \<le> 180"
  shows "\<not> coordinates_invalid (dlit lat) (dlit lon)"
proof -
  have small: "\<exists>s m. dlit x = Fin s m \<and> 0 \<le> m \<and> m \<le> of_int n" if "\<bar>x\<bar> \<le> of_int n" "0 \<le> n" "n \<le> 180" for x n
  proof -
    have r: "round_mag \<bar>x\<bar> \<le> of_int n"
      using round_mag_mono [OF that(1)] round_mag_int [of n] that(2,3) by simp
    have "(of_int n :: rat) \<le> of_int (2 ^ 63)" using that(3) by (simp only: of_int_le_iff) simp
    with r small_no_overflow [of "round_mag \<bar>x\<bar>"] show ?thesis by (simp add: dlit_def round64_def Let_def)
  qed
  obtain s m s' m' where "dlit lat = Fin s m" "0 \<le> m" "m \<le> 90" "dlit lon = Fin s' m'" "0 \<le> m'" "m' \<le> 180"
    using small [of lat 90] small [of lon 180] assms by auto
  then show ?thesis by (auto simp: coordinates_invalid_def coordinate_lits)
qed

lemma literal_places_valid:
  "\<not> coordinates_invalid (dlit (397456 / 10000)) (dlit (- (970892 / 10000)))"
  "\<not> coordinates_invalid (dlit (302672 / 10000)) (dlit (- (977431 / 10000)))"
  "\<not> coordinates_invalid (dlit (377749 / 10000)) (dlit (- (1224194 / 10000)))"
  by (rule literal_coordinates_valid; simp)+

lemma basic_usage_reports:
  assumes "platform_ok P tm transfers" "answers P (http (example_config True)) site" "feature_ok point_ok pt"
    "holds_at P (example_config True) site (point_path P (dlit (397456 / 10000)) (dlit (- (970892 / 10000))))
      (feature_json point_json pt)"
  shows "\<exists>w'. basic_usage True True P w = Some (Exit (point_report pt) [] 0, w') \<and> transfers w' = transfers w + 1"
proof -
  have "\<exists>c' w'. get_point P (dlit (397456 / 10000)) (dlit (- (970892 / 10000))) c v = Some (Inr pt, c', w') \<and>
      transfers w' = transfers v + 1"
    if "online P tm transfers (example_config True) budget c v" "\<And>lat lon. uncached lat lon c" for budget c v
    using point_answered [OF that(1) assms(2) example_configs(2) literal_places_valid(1) that(2) assms(3,4)] by auto
  from one_call_reports [OF assms(1) this, where report = "\<lambda>pt. Some (point_report pt)" and on_error = error_line]
  show ?thesis by (simp add: basic_usage_def)
qed

lemma get_alerts_reports:
  assumes "platform_ok P tm transfers" "answers P (http (example_config True)) site" "collection_ok (\<lambda>_. True) alerts"
    "holds_at P (example_config True) site ''/alerts/active/area/KS'' (collection_json alert_json alerts)"
  shows "\<exists>w'. get_alerts_main True True P w = Some (Exit (alerts_report alerts) [] 0, w') \<and> transfers w' = transfers w + 1"
proof -
  note site = assms(2) [folded example_config_http(1) [of False]]
  have area: "''/alerts/active/area/'' @ encode_query_value ''KS'' = ''/alerts/active/area/KS''" by code_simp
  have "\<exists>c' w'. get_active_alerts_by_area P ''KS'' c v = Some (Inr alerts, c', w') \<and> transfers w' = transfers v + 1"
    if "online P tm transfers (example_config False) budget c v" for budget c v
    unfolding get_active_alerts_by_area_def area
    using endpoint_answered [OF that site example_configs(2) weather_reads_back(6) assms(3)
        assms(4) [folded example_config_http(2) [of P False]]]
    unfolding Suc_eq_plus1 by blast
  from one_call_reports [OF assms(1) this, where report = "\<lambda>alerts. Some (alerts_report alerts)" and on_error = error_line]
  show ?thesis by (simp add: get_alerts_main_def)
qed

lemma get_forecast_reports:
  assumes "platform_ok P tm transfers" "answers P (http (example_config True)) site"
    "feature_ok point_ok pt" "feature_ok forecast_ok fc"
    "holds_at P (example_config True) site (point_path P (dlit (302672 / 10000)) (dlit (- (977431 / 10000))))
      (feature_json point_json pt)"
    "holds_at P (example_config True) site (gridpoint_path (PointProperties.grid_id (properties pt))
      (PointProperties.grid_x (properties pt)) (PointProperties.grid_y (properties pt)) @ ''/forecast'') (feature_json forecast_json fc)"
  shows "\<exists>w'. get_forecast_main True True show_double P w = Some (Exit (forecast_report show_double fc) [] 0, w') \<and>
           transfers w' = transfers w + 2"
proof -
  have "\<exists>c' w'. get_forecast_for_location P (dlit (302672 / 10000)) (dlit (- (977431 / 10000))) None c v = Some (Inr fc, c', w') \<and>
      transfers w' = transfers v + 2"
    if "online P tm transfers (example_config True) budget c v" "\<And>lat lon. uncached lat lon c" for budget c v
    by (rule forecast_answered [OF that assms(2) example_configs(2) literal_places_valid(2) assms(3,5,4)])
      (use assms(6) in \<open>simp add: units_query_def\<close>)
  from one_call_reports [OF assms(1) this, where report = "\<lambda>f. Some (forecast_report show_double f)"]
  show ?thesis by (simp add: get_forecast_main_def)
qed

lemma get_observations_reports:
  assumes "platform_ok P tm transfers" "answers P (http (example_config True)) site"
    "feature_ok point_ok pt" "collection_ok (\<lambda>p. qv_ok (StationProperties.elevation p)) stations"
    "feature_ok observation_ok obs" "features stations \<noteq> []"
    "holds_at P (example_config True) site (point_path P (dlit (377749 / 10000)) (dlit (- (1224194 / 10000))))
      (feature_json point_json pt)"
    "holds_at P (example_config True) site (gridpoint_path (PointProperties.grid_id (properties pt))
      (PointProperties.grid_x (properties pt)) (PointProperties.grid_y (properties pt)) @ ''/stations'')
      (collection_json station_json stations)"
    "holds_at P (example_config True) site (station_path (station_identifier (properties (hd (features stations)))) @
      ''/observations/latest'') (feature_json observation_json obs)"
  shows "\<exists>w'. get_observations_main True True show_double P w =
      Some (case observation_report show_double obs of None \<Rightarrow> Undefined | Some t \<Rightarrow> Exit t [] 0, w') \<and>
    transfers w' = transfers w + 3"
proof -
  note http = example_config_http(1) [of False] and held = example_config_http(2) [of P False]
  have "\<exists>c' w'. get_current_weather P (dlit (377749 / 10000)) (dlit (- (1224194 / 10000))) c v = Some (Inr obs, c', w') \<and>
      transfers w' = transfers v + 3"
    if "online P tm transfers (example_config False) budget c v" "\<And>lat lon. uncached lat lon c" for budget c v
  proof -
    have "feature_ok observation_ok obs \<and> holds_at P (example_config False) site
        (station_path (station_identifier (properties nearest)) @ ''/observations/latest'') (feature_json observation_json obs)"
      if "features stations = nearest # rest" for nearest rest
      using assms(5,9) [folded held] that by simp
    from current_weather_answered [OF that assms(2) [folded http] example_configs(2) literal_places_valid(3)
        assms(3) assms(7) [folded held] assms(4) assms(8) [folded held] this]
    show ?thesis using assms(6) by (simp only: if_False)
  qed
  from one_call_reports [OF assms(1) this, where report = "observation_report show_double" and on_error = error_line]
  show ?thesis by (simp add: get_observations_main_def)
qed

section \<open>Properties\<close>

definition run_ends :: "('w \<Rightarrow> nanoseconds) \<Rightarrow> ('w \<Rightarrow> nat) \<Rightarrow> nat \<Rightarrow> (program_end \<Rightarrow> bool) \<Rightarrow>
    ('w \<Rightarrow> (program_end \<times> 'w) option) \<Rightarrow> 'w \<Rightarrow> bool" where
  "run_ends tm transfers n allowed program w \<longleftrightarrow>
     (\<exists>r w'. program w = Some (r, w') \<and> tm w \<le> tm w' \<and> transfers w' \<le> transfers w + n \<and> allowed r)"

text \<open>
  C35: whatever the service answers, and even when libcurl cannot be initialised, the example programs
  end: the point and alert programs after at most three transfers, the forecast after six, the
  observation after nine. Each either reports on the standard output and exits with 0 or writes an
  error to the error stream and exits with 1; only the observation program may run into an undefined
  conversion of a number of the response.
\<close>

theorem example_programs_end:
  assumes "platform_ok P tm transfers"
  shows "run_ends tm transfers 3 reported (basic_usage g i P) w \<and>
         run_ends tm transfers 3 reported (get_alerts_main g i P) w \<and>
         run_ends tm transfers 6 reported (get_forecast_main g i show_double P) w \<and>
         run_ends tm transfers 9 (\<lambda>r. reported r \<or> r = Undefined) (get_observations_main g i show_double P) w"
proof (intro conjI)
  note ends = one_call_ends [OF assms, where g = g and i = i and w = w]
  show "run_ends tm transfers 3 reported (basic_usage g i P) w"
    using ends [OF served_point, of error_line] by (fastforce simp: run_ends_def basic_usage_def error_line_def)
  show "run_ends tm transfers 3 reported (get_alerts_main g i P) w"
    using ends [OF served_endpoint, of error_line]
    by (fastforce simp: run_ends_def get_alerts_main_def get_active_alerts_by_area_def error_line_def)
  show "run_ends tm transfers 6 reported (get_forecast_main g i show_double P) w"
    using ends [OF served_forecast_for_location, of "\<lambda>e. error_line e @ (if detail e \<noteq> [] then ''Detail: '' @ detail e @ line_end else [])"]
    by (fastforce simp: run_ends_def get_forecast_main_def error_line_def)
  show "run_ends tm transfers 9 (\<lambda>r. reported r \<or> r = Undefined) (get_observations_main g i show_double P) w"
    using ends [OF served_current_weather, of error_line] by (fastforce simp: run_ends_def get_observations_main_def error_line_def)
qed

theorem example_programs_end_witness:
  "run_ends fst snd 9 (\<lambda>r. reported r \<or> r = Undefined) (get_observations_main False True (\<lambda>_. []) (demo_platform JNull)) (0, 0)"
  using example_programs_end [OF demo_platform_ok [of JNull], of False True "(0, 0)" "\<lambda>_. []"] by blast

text \<open>
  The monitor always ends, whatever the service answers: after at most nine transfers; and unless a
  measurement cannot be converted it exits with 0, errors of single polls notwithstanding, at least
  two minutes after its start.
\<close>

theorem weather_monitor_ends:
  assumes "platform_ok P tm transfers"
  shows "\<exists>r w'. weather_monitor g i P w = Some (r, w') \<and> transfers w' \<le> transfers w + 9 \<and>
           (r = Undefined \<or> exit_code r = 0 \<and> tm w + 120 * ns_per_s \<le> tm w')"
proof -
  obtain c w1 where c: "example_client g i True P w = (c, w1)" by (cases "example_client g i True P w")
  from assms c obtain budget where ok: "client_ok P tm transfers (example_config True) budget c w1"
      and w1: "transfers w1 = transfers w" "tm w \<le> tm w1" by (rule example_client_ok)
  from monitor_loop_ends [OF assms ok, of 3 0] obtain r w' where "monitor_loop P 3 0 c w1 = Some (r, w')"
      "transfers w' \<le> transfers w1 + 9" "r = Undefined \<or> exit_code r = 0 \<and> tm w1 + 120 * ns_per_s \<le> tm w'" by auto
  with c w1 show ?thesis by (auto simp: weather_monitor_def followed_by_end)
qed

theorem weather_monitor_ends_witness:
  "\<exists>r t n. weather_monitor True True (demo_platform JNull) (0, 0) = Some (r, t, n) \<and> n \<le> 9 \<and>
     (r = Undefined \<or> exit_code r = 0 \<and> 120 * ns_per_s \<le> t)"
  using weather_monitor_ends [OF demo_platform_ok [of JNull], of True True "(0, 0)"] by auto

text \<open>A text given by its lines, each with its line break.\<close>

definition unlines :: "string list \<Rightarrow> string" where
  "unlines ls = concat (map (\<lambda>l. l @ [CHR 0x0A]) ls)"

lemma unlines_simps [simp]:
  "unlines [] = []" "unlines (l # ls) = l @ CHR 0x0A # unlines ls" "unlines (ls @ ms) = unlines ls @ unlines ms"
  by (simp_all add: unlines_def)

lemma unlines_concat: "unlines (concat (map f xs)) = concat (map (unlines \<circ> f) xs)"
  by (induction xs) simp_all

lemma point_report_lines:
  "point_report pt = unlines
     [''Grid: '' @ PointProperties.grid_id (properties pt) @ '' ('' @ int_to_string (PointProperties.grid_x (properties pt)) @
        '','' @ int_to_string (PointProperties.grid_y (properties pt)) @ '')'',
      ''Time Zone: '' @ PointProperties.time_zone (properties pt),
      ''Radar: '' @ radar_station (properties pt),
      ''Near: '' @ city (relative_properties (relative_location (properties pt))) @ '', '' @
        RelativeLocationProperties.state (relative_properties (relative_location (properties pt))),
      ''Forecast URL: '' @ PointProperties.forecast_url (properties pt)]"
  by (simp add: point_report_def Let_def)

lemma alerts_report_lines:
  "alerts_report alerts = unlines
     ([''Active alerts for Kansas: '' @ nat_to_string (length (features alerts)), []] @
      concat (map (\<lambda>a.
         [''Event: '' @ AlertProperties.event (properties a),
          ''Severity: '' @ to_string_AlertSeverity (AlertProperties.severity (properties a)),
          ''Urgency: '' @ to_string_AlertUrgency (AlertProperties.urgency (properties a)),
          ''Certainty: '' @ to_string_AlertCertainty (AlertProperties.certainty (properties a)),
          ''Area: '' @ AlertProperties.area_desc (properties a)] @
         (case AlertProperties.headline (properties a) of None \<Rightarrow> [] | Some h \<Rightarrow> [''Headline: '' @ h]) @
         [''Effective: '' @ AlertProperties.effective (properties a), ''Expires: '' @ AlertProperties.expires (properties a), []])
        (features alerts)) @
      (if features alerts = [] then [''No active alerts. Check another state or try later.''] else []))"
proof -
  have "alert_report = (\<lambda>a. unlines
         ([''Event: '' @ AlertProperties.event (properties a),
          ''Severity: '' @ to_string_AlertSeverity (AlertProperties.severity (properties a)),
          ''Urgency: '' @ to_string_AlertUrgency (AlertProperties.urgency (properties a)),
          ''Certainty: '' @ to_string_AlertCertainty (AlertProperties.certainty (properties a)),
          ''Area: '' @ AlertProperties.area_desc (properties a)] @
         (case AlertProperties.headline (properties a) of None \<Rightarrow> [] | Some h \<Rightarrow> [''Headline: '' @ h]) @
         [''Effective: '' @ AlertProperties.effective (properties a), ''Expires: '' @ AlertProperties.expires (properties a), []]))"
    by (rule ext) (simp add: alert_report_def Let_def split: option.split)
  then show ?thesis by (simp add: alerts_report_def unlines_concat comp_def)
qed

lemma forecast_report_lines:
  "forecast_report show_double f = unlines
     ([''Forecast generated: '' @ generated_at (properties f), []] @
      concat (map (\<lambda>p.
         [ForecastPeriod.name p @ '': '' @ int_to_string (ForecastPeriod.temperature p) @ temperature_unit p,
          ''  Wind: '' @ ForecastPeriod.wind_speed p @ '' '' @ ForecastPeriod.wind_direction p,
          ''  '' @ short_forecast p] @
         (case quantity_value (ForecastPeriod.probability_of_precipitation p) of
            None \<Rightarrow> [] | Some v \<Rightarrow> [''  Precip: '' @ show_double v @ ''%'']) @ [[]])
        (ForecastProperties.periods (properties f))))"
proof -
  have "period_report show_double = (\<lambda>p. unlines
         ([ForecastPeriod.name p @ '': '' @ int_to_string (ForecastPeriod.temperature p) @ temperature_unit p,
          ''  Wind: '' @ ForecastPeriod.wind_speed p @ '' '' @ ForecastPeriod.wind_direction p,
          ''  '' @ short_forecast p] @
         (case quantity_value (ForecastPeriod.probability_of_precipitation p) of
            None \<Rightarrow> [] | Some v \<Rightarrow> [''  Precip: '' @ show_double v @ ''%'']) @ [[]]))"
    by (rule ext) (auto simp: period_report_def has_value_def split: option.split)
  then show ?thesis by (simp add: forecast_report_def unlines_concat comp_def)
qed

text \<open>A measurement without its fraction, if there is one.\<close>

definition whole :: "string \<Rightarrow> QuantitativeValue \<Rightarrow> string \<Rightarrow> string" where
  "whole pre q post = (case quantity_value q of None \<Rightarrow> [] | Some v \<Rightarrow> pre @ int_to_string (dtrunc v) @ post)"

definition fits_int :: "QuantitativeValue \<Rightarrow> bool" where
  "fits_int q \<longleftrightarrow> (\<forall>v. quantity_value q = Some v \<longrightarrow> isfinite v \<and> int32_range (dtrunc v))"

lemma print_whole: "fits_int q \<Longrightarrow> print_int pre (quantity_value q) post = Some (whole pre q post)"
  by (auto simp: print_int_def int_cast_def whole_def fits_int_def split: option.split)

lemma converted_value: "quantity_value q = None \<Longrightarrow> quantity_value (converted_to q u) = None"
  by (simp add: converted_to_def Let_def)

lemma printed_all: "list_all (\<lambda>p. p \<noteq> None) ps \<Longrightarrow> printed ps = Some (concat (map the ps))"
  by (auto simp: printed_def list_all_iff)

lemma observation_report_lines:
  fixes obs :: ObservationResponse
  defines "p \<equiv> properties obs"
  assumes "list_all fits_int [converted_to (ObservationProperties.temperature p) Unit.DegF,
      converted_to (ObservationProperties.wind_speed p) Unit.Mi_h, ObservationProperties.wind_direction p,
      converted_to (barometric_pressure p) Unit.Millibar, converted_to (ObservationProperties.visibility p) Unit.Mile]"
  shows "observation_report show_double obs = Some (unlines
     ([''Station: '' @ station_name p @ '' ('' @ station_id p @ '')'', ''Time: '' @ timestamp p,
       ''Conditions: '' @ text_description p, []] @
      (case quantity_value (ObservationProperties.temperature p) of None \<Rightarrow> []
       | Some v \<Rightarrow> [''Temperature: '' @ show_double v @ '' '' @ to_string_Unit (unit (ObservationProperties.temperature p)) @
           whole '' ('' (converted_to (ObservationProperties.temperature p) Unit.DegF) '' F)'']) @
      (case quantity_value (ObservationProperties.dewpoint p) of None \<Rightarrow> []
       | Some v \<Rightarrow> [''Dewpoint: '' @ show_double v @ '' '' @ to_string_Unit (unit (ObservationProperties.dewpoint p))]) @
      (case quantity_value (ObservationProperties.wind_speed p) of None \<Rightarrow> []
       | Some v \<Rightarrow> [''Wind: '' @ show_double v @ '' '' @ to_string_Unit (unit (ObservationProperties.wind_speed p)) @
           whole '' ('' (converted_to (ObservationProperties.wind_speed p) Unit.Mi_h) '' mph)'' @
           whole '' from '' (ObservationProperties.wind_direction p) '' deg'']) @
      (case quantity_value (converted_to (barometric_pressure p) Unit.Millibar) of None \<Rightarrow> []
       | Some v \<Rightarrow> [''Pressure: '' @ int_to_string (dtrunc v) @ '' mbar'']) @
      (case quantity_value (converted_to (ObservationProperties.visibility p) Unit.Mile) of None \<Rightarrow> []
       | Some v \<Rightarrow> [''Visibility: '' @ int_to_string (dtrunc v) @ '' mi''])))"
proof -
  have temp: "(if has_value q then printed [Some a, print_int pre (quantity_value (converted_to q u)) post, Some line_end] else Some []) =
      Some (case quantity_value q of None \<Rightarrow> [] | Some v \<Rightarrow> a @ whole pre (converted_to q u) post @ line_end)"
    if "fits_int (converted_to q u)" for q u a pre post
    using print_whole [OF that] by (auto simp: has_value_def printed_def split: option.split)
  have wind: "(if has_value q then printed [Some a, print_int pre (quantity_value (converted_to q u)) post,
        print_int pre' (quantity_value d) post', Some line_end] else Some []) =
      Some (case quantity_value q of None \<Rightarrow> [] | Some v \<Rightarrow> a @ whole pre (converted_to q u) post @ whole pre' d post' @ line_end)"
    if "fits_int (converted_to q u)" "fits_int d" for q u a pre post pre' d post'
    using print_whole [OF that(1)] print_whole [OF that(2)] by (auto simp: has_value_def printed_def split: option.split)
  have line: "(if has_value q then print_int pre (quantity_value (converted_to q u)) (post @ line_end) else Some []) =
      Some (case quantity_value (converted_to q u) of None \<Rightarrow> [] | Some v \<Rightarrow> pre @ int_to_string (dtrunc v) @ post @ line_end)"
    if "fits_int (converted_to q u)" for q u pre post
    using print_whole [OF that] converted_value [of q u] by (auto simp: has_value_def whole_def split: option.split)
  show ?thesis
    using assms(2)
    by (simp add: observation_report_def Let_def p_def [symmetric] temp wind line printed_def)
      (auto simp: has_value_def split: option.split)
qed

text \<open>
  C18: on a service that answers, the point, alert and forecast programs print what the service holds,
  line by line as written here, after the least number of transfers, and exit with 0: the point of
  Topeka, the alerts of Kansas, and the forecast of the grid cell of Austin.
\<close>

theorem example_programs_report:
  assumes "platform_ok P tm transfers" and "answers P (http (example_config True)) site"
  shows "(feature_ok point_ok pt \<and>
      holds_at P (example_config True) site (point_path P (dlit (397456 / 10000)) (dlit (- (970892 / 10000)))) (feature_json point_json pt) \<longrightarrow>
      (\<exists>w'. basic_usage True True P w = Some (Exit (unlines
           [''Grid: '' @ PointProperties.grid_id (properties pt) @ '' ('' @ int_to_string (PointProperties.grid_x (properties pt)) @
              '','' @ int_to_string (PointProperties.grid_y (properties pt)) @ '')'',
            ''Time Zone: '' @ PointProperties.time_zone (properties pt),
            ''Radar: '' @ radar_station (properties pt),
            ''Near: '' @ city (relative_properties (relative_location (properties pt))) @ '', '' @
              RelativeLocationProperties.state (relative_properties (relative_location (properties pt))),
            ''Forecast URL: '' @ PointProperties.forecast_url (properties pt)]) [] 0, w') \<and> transfers w' = transfers w + 1)) \<and>
    (collection_ok (\<lambda>_. True) alerts \<and> holds_at P (example_config True) site ''/alerts/active/area/KS'' (collection_json alert_json alerts) \<longrightarrow>
      (\<exists>w'. get_alerts_main True True P w = Some (Exit (unlines
           ([''Active alerts for Kansas: '' @ nat_to_string (length (features alerts)), []] @
            concat (map (\<lambda>a.
               [''Event: '' @ AlertProperties.event (properties a),
                ''Severity: '' @ to_string_AlertSeverity (AlertProperties.severity (properties a)),
                ''Urgency: '' @ to_string_AlertUrgency (AlertProperties.urgency (properties a)),
                ''Certainty: '' @ to_string_AlertCertainty (AlertProperties.certainty (properties a)),
                ''Area: '' @ AlertProperties.area_desc (properties a)] @
               (case AlertProperties.headline (properties a) of None \<Rightarrow> [] | Some h \<Rightarrow> [''Headline: '' @ h]) @
               [''Effective: '' @ AlertProperties.effective (properties a), ''Expires: '' @ AlertProperties.expires (properties a), []])
              (features alerts)) @
            (if features alerts = [] then [''No active alerts. Check another state or try later.''] else []))) [] 0, w') \<and> transfers w' = transfers w + 1)) \<and>
    (feature_ok point_ok austin \<and> feature_ok forecast_ok f \<and>
      holds_at P (example_config True) site (point_path P (dlit (302672 / 10000)) (dlit (- (977431 / 10000)))) (feature_json point_json austin) \<and>
      holds_at P (example_config True) site (gridpoint_path (PointProperties.grid_id (properties austin)) (PointProperties.grid_x (properties austin))
        (PointProperties.grid_y (properties austin)) @ ''/forecast'') (feature_json forecast_json f) \<longrightarrow>
      (\<exists>w'. get_forecast_main True True show_double P w = Some (Exit (unlines
           ([''Forecast generated: '' @ generated_at (properties f), []] @
            concat (map (\<lambda>p.
               [ForecastPeriod.name p @ '': '' @ int_to_string (ForecastPeriod.temperature p) @ temperature_unit p,
                ''  Wind: '' @ ForecastPeriod.wind_speed p @ '' '' @ ForecastPeriod.wind_direction p,
                ''  '' @ short_forecast p] @
               (case quantity_value (ForecastPeriod.probability_of_precipitation p) of
                  None \<Rightarrow> [] | Some v \<Rightarrow> [''  Precip: '' @ show_double v @ ''%'']) @ [[]])
              (ForecastProperties.periods (properties f))))) [] 0, w') \<and>
        transfers w' = transfers w + 2))"
  unfolding point_report_lines [symmetric] alerts_report_lines [symmetric] forecast_report_lines [symmetric]
  using basic_usage_reports [OF assms] get_alerts_reports [OF assms] get_forecast_reports [OF assms] by blast

definition example_docs :: "char \<Rightarrow> json" where
  "example_docs ch =
     (if ch = CHR ''/'' then collection_json alert_json default_GeoJsonFeatureCollection
      else if ch = CHR ''a'' then feature_json forecast_json (default_GeoJsonFeature default_ForecastProperties)
      else demo_docs ch)"

lemma example_service:
  fixes lat lon
  defines "P \<equiv> demo_service example_docs" and "pt \<equiv> default_GeoJsonFeature default_PointProperties"
  shows "answers P (http (example_config True)) answer_of"
    "holds_at P (example_config True) answer_of (point_path P lat lon) (feature_json point_json pt)"
    "holds_at P (example_config True) answer_of ''/alerts/active/area/KS'' (collection_json alert_json default_GeoJsonFeatureCollection)"
    "holds_at P (example_config True) answer_of (gridpoint_path (PointProperties.grid_id (properties pt)) (PointProperties.grid_x (properties pt))
       (PointProperties.grid_y (properties pt)) @ ''/forecast'') (feature_json forecast_json (default_GeoJsonFeature default_ForecastProperties))"
    "holds_at P (example_config True) answer_of (gridpoint_path (PointProperties.grid_id (properties pt)) (PointProperties.grid_x (properties pt))
       (PointProperties.grid_y (properties pt)) @ ''/stations'') (collection_json station_json demo_stations)"
    "holds_at P (example_config True) answer_of (station_path (station_identifier (properties (hd (features demo_stations)))) @
       ''/observations/latest'') (feature_json observation_json (default_GeoJsonFeature default_ObservationProperties))"
proof -
  have grid: "PointProperties.grid_id (properties pt) = []" "PointProperties.grid_x (properties pt) = 0"
      "PointProperties.grid_y (properties pt) = 0" "station_identifier (properties (hd (features demo_stations))) = []"
    by (simp_all add: pt_def default_GeoJsonFeature_def default_PointProperties_def demo_stations_def default_StationProperties_def)
  have zero: "int_to_string 0 = ''0''" by code_simp
  show "answers P (http (example_config True)) answer_of"
    unfolding P_def by (rule demo_service_answers) (simp add: example_config_def default_ClientConfig_def)
  show "holds_at P (example_config True) answer_of (point_path P lat lon) (feature_json point_json pt)"
    "holds_at P (example_config True) answer_of ''/alerts/active/area/KS'' (collection_json alert_json default_GeoJsonFeatureCollection)"
    "holds_at P (example_config True) answer_of (gridpoint_path (PointProperties.grid_id (properties pt)) (PointProperties.grid_x (properties pt))
       (PointProperties.grid_y (properties pt)) @ ''/forecast'') (feature_json forecast_json (default_GeoJsonFeature default_ForecastProperties))"
    "holds_at P (example_config True) answer_of (gridpoint_path (PointProperties.grid_id (properties pt)) (PointProperties.grid_x (properties pt))
       (PointProperties.grid_y (properties pt)) @ ''/stations'') (collection_json station_json demo_stations)"
    "holds_at P (example_config True) answer_of (station_path (station_identifier (properties (hd (features demo_stations)))) @
       ''/observations/latest'') (feature_json observation_json (default_GeoJsonFeature default_ObservationProperties))"
    unfolding P_def grid
    by (rule demo_service_holds;
        simp add: point_path_def gridpoint_path_def station_path_def demo_service_def demo_platform_def demo_docs_def
          example_docs_def zero pt_def)+
qed

theorem example_programs_report_witness:
  "(\<exists>w'. basic_usage True True (demo_service example_docs) (0, 0) =
      Some (Exit (unlines [''Grid:  (0,0)'', ''Time Zone: '', ''Radar: '', ''Near: , '', ''Forecast URL: '']) [] 0, w') \<and> snd w' = 1) \<and>
   (\<exists>w'. get_alerts_main True True (demo_service example_docs) (0, 0) =
      Some (Exit (unlines [''Active alerts for Kansas: 0'', [], ''No active alerts. Check another state or try later.'']) [] 0, w') \<and>
      snd w' = 1) \<and>
   (\<exists>w'. get_forecast_main True True (\<lambda>_. ''?'') (demo_service example_docs) (0, 0) =
      Some (Exit (unlines [''Forecast generated: '', []]) [] 0, w') \<and> snd w' = 2)"
proof -
  let ?pt = "default_GeoJsonFeature default_PointProperties"
  have zero: "int_to_string 0 = ''0''" "nat_to_string 0 = ''0''" by code_simp+
  have alerts: "collection_ok (\<lambda>_. True) (default_GeoJsonFeatureCollection :: AlertCollectionResponse)"
    by (simp add: collection_ok_def default_GeoJsonFeatureCollection_def)
  note report = example_programs_report [OF demo_service_ok example_service(1), of ?pt "(0, 0)" default_GeoJsonFeatureCollection
      ?pt "default_GeoJsonFeature default_ForecastProperties" "\<lambda>_. ''?''"]
    and defaults = default_GeoJsonFeature_def default_GeoJsonFeatureCollection_def default_PointProperties_def default_ForecastProperties_def
  show ?thesis
  proof (intro conjI)
    show "\<exists>w'. basic_usage True True (demo_service example_docs) (0, 0) =
        Some (Exit (unlines [''Grid:  (0,0)'', ''Time Zone: '', ''Radar: '', ''Near: , '', ''Forecast URL: '']) [] 0, w') \<and> snd w' = 1"
      using report [THEN conjunct1, THEN mp, OF conjI [OF fresh_models_printable(1) example_service(2)]]
      by (simp add: zero defaults)
    show "\<exists>w'. get_alerts_main True True (demo_service example_docs) (0, 0) =
        Some (Exit (unlines [''Active alerts for Kansas: 0'', [], ''No active alerts. Check another state or try later.'']) [] 0, w') \<and>
        snd w' = 1"
      using report [THEN conjunct2, THEN conjunct1, THEN mp, OF conjI [OF alerts example_service(3)]] by (simp add: zero defaults)
    show "\<exists>w'. get_forecast_main True True (\<lambda>_. ''?'') (demo_service example_docs) (0, 0) =
        Some (Exit (unlines [''Forecast generated: '', []]) [] 0, w') \<and> snd w' = 2"
      using report [THEN conjunct2, THEN conjunct2, THEN mp, OF conjI [OF fresh_models_printable(1)
            conjI [OF fresh_weather_printable(1) conjI [OF example_service(2,4)]]]]
      by (simp add: numeral_2_eq_2 zero defaults)
  qed
qed

text \<open>
  C19: the observation program on a service that answers, as long as the converted measurements fit an
  \<open>int\<close>: it prints the last observation of the first station near San Francisco, line by line as written
  here, each measurement only if the station reports it, after three transfers, and exits with 0.
\<close>

theorem observations_report:
  assumes "platform_ok P tm transfers" and "answers P (http (example_config True)) site"
    and "feature_ok point_ok sf" "collection_ok (\<lambda>p. qv_ok (StationProperties.elevation p)) stations"
      "feature_ok observation_ok obs" "features stations \<noteq> []"
      "holds_at P (example_config True) site (point_path P (dlit (377749 / 10000)) (dlit (- (1224194 / 10000)))) (feature_json point_json sf)"
      "holds_at P (example_config True) site (gridpoint_path (PointProperties.grid_id (properties sf)) (PointProperties.grid_x (properties sf))
        (PointProperties.grid_y (properties sf)) @ ''/stations'') (collection_json station_json stations)"
      "holds_at P (example_config True) site (station_path (station_identifier (properties (hd (features stations)))) @ ''/observations/latest'')
        (feature_json observation_json obs)"
    and "list_all fits_int [converted_to (ObservationProperties.temperature (properties obs)) Unit.DegF,
      converted_to (ObservationProperties.wind_speed (properties obs)) Unit.Mi_h, ObservationProperties.wind_direction (properties obs),
      converted_to (barometric_pressure (properties obs)) Unit.Millibar,
      converted_to (ObservationProperties.visibility (properties obs)) Unit.Mile]"
  shows "\<exists>w'. get_observations_main True True show_double P w = Some (Exit (unlines
           ([''Station: '' @ station_name (properties obs) @ '' ('' @ station_id (properties obs) @ '')'', ''Time: '' @ timestamp (properties obs),
             ''Conditions: '' @ text_description (properties obs), []] @
            (case quantity_value (ObservationProperties.temperature (properties obs)) of None \<Rightarrow> []
             | Some v \<Rightarrow> [''Temperature: '' @ show_double v @ '' '' @ to_string_Unit (unit (ObservationProperties.temperature (properties obs))) @
                 whole '' ('' (converted_to (ObservationProperties.temperature (properties obs)) Unit.DegF) '' F)'']) @
            (case quantity_value (ObservationProperties.dewpoint (properties obs)) of None \<Rightarrow> []
             | Some v \<Rightarrow> [''Dewpoint: '' @ show_double v @ '' '' @ to_string_Unit (unit (ObservationProperties.dewpoint (properties obs)))]) @
            (case quantity_value (ObservationProperties.wind_speed (properties obs)) of None \<Rightarrow> []
             | Some v \<Rightarrow> [''Wind: '' @ show_double v @ '' '' @ to_string_Unit (unit (ObservationProperties.wind_speed (properties obs))) @
                 whole '' ('' (converted_to (ObservationProperties.wind_speed (properties obs)) Unit.Mi_h) '' mph)'' @
                 whole '' from '' (ObservationProperties.wind_direction (properties obs)) '' deg'']) @
            (case quantity_value (converted_to (barometric_pressure (properties obs)) Unit.Millibar) of None \<Rightarrow> []
             | Some v \<Rightarrow> [''Pressure: '' @ int_to_string (dtrunc v) @ '' mbar'']) @
            (case quantity_value (converted_to (ObservationProperties.visibility (properties obs)) Unit.Mile) of None \<Rightarrow> []
             | Some v \<Rightarrow> [''Visibility: '' @ int_to_string (dtrunc v) @ '' mi'']))) [] 0, w') \<and> transfers w' = transfers w + 3"
  using get_observations_reports [OF assms(1-9), of show_double w] unfolding observation_report_lines [OF assms(10)]
  by (simp only: option.case)

theorem observations_report_witness:
  "\<exists>w'. get_observations_main True True (\<lambda>_. ''?'') (demo_service example_docs) (0, 0) =
     Some (Exit (unlines [''Station:  ()'', ''Time: '', ''Conditions: '', []]) [] 0, w') \<and> snd w' = 3"
proof -
  let ?obs = "default_GeoJsonFeature default_ObservationProperties"
  have none: "quantity_value default_QuantitativeValue = None" by (simp add: default_QuantitativeValue_def)
  have ok: "collection_ok (\<lambda>p. qv_ok (StationProperties.elevation p)) demo_stations" "features demo_stations \<noteq> []"
    using fresh_models_printable(2) by (simp_all add: collection_ok_def demo_stations_def default_GeoJsonFeatureCollection_def)
  have fits: "list_all fits_int [converted_to (ObservationProperties.temperature (properties ?obs)) Unit.DegF,
      converted_to (ObservationProperties.wind_speed (properties ?obs)) Unit.Mi_h, ObservationProperties.wind_direction (properties ?obs),
      converted_to (barometric_pressure (properties ?obs)) Unit.Millibar,
      converted_to (ObservationProperties.visibility (properties ?obs)) Unit.Mile]"
    by (simp add: fits_int_def converted_value default_GeoJsonFeature_def default_ObservationProperties_def none)
  from observations_report [OF demo_service_ok example_service(1) fresh_models_printable(1) ok(1) fresh_weather_printable(2) ok(2)
      example_service(2,5,6) fits, of "\<lambda>_. ''?''" "(0, 0)"]
  show ?thesis
    by (simp add: converted_value default_GeoJsonFeature_def default_ObservationProperties_def none)
qed

end
