(* ===== verification/Text_Scan.thy ===== *)
theory Text_Scan
  imports Nws_Prelude "HOL-Library.Sublist"
begin

text \<open>
  The scanning functions the text-product parsers use: the \<open><cctype>\<close> classes of the C locale,
  \<open>std::from_chars\<close> for \<open>int\<close>, \<open>std::string_view::find\<close>, whitespace tokens, and the reading of lines. A
  position in a \<open>std::string_view\<close> that only moves forward is the rest of the text from there.
\<close>

section \<open>Character classes\<close>

definition isdigit :: "char \<Rightarrow> bool" where
  "isdigit c \<longleftrightarrow> 48 \<le> (of_char c :: nat) \<and> (of_char c :: nat) \<le> 57"

definition isupper :: "char \<Rightarrow> bool" where
  "isupper c \<longleftrightarrow> 65 \<le> (of_char c :: nat) \<and> (of_char c :: nat) \<le> 90"

definition isalpha :: "char \<Rightarrow> bool" where
  "isalpha c \<longleftrightarrow> isupper c \<or> 97 \<le> (of_char c :: nat) \<and> (of_char c :: nat) \<le> 122"

definition isspace :: "char \<Rightarrow> bool" where
  "isspace c \<longleftrightarrow> (of_char c :: nat) = 32 \<or> 9 \<le> (of_char c :: nat) \<and> (of_char c :: nat) \<le> 13"

definition toupper :: "char \<Rightarrow> char" where
  "toupper c = (let n = (of_char c :: nat) in if 97 \<le> n \<and> n \<le> 122 then char_of (n - 32) else c)"

abbreviation newline :: char where "newline \<equiv> CHR 0x0A"
abbreviation carriage_return :: char where "carriage_return \<equiv> CHR 0x0D"

lemma of_char_digit_char: "d < 10 \<Longrightarrow> (of_char (digit_char d) :: nat) = 48 + d"
  by (simp add: digit_char_def)

lemma isdigit_digit_char [simp]: "d < 10 \<Longrightarrow> isdigit (digit_char d)"
  by (simp add: isdigit_def of_char_digit_char)

lemma isdigit_not [dest]: "isdigit c \<Longrightarrow> \<not> isspace c" "isdigit c \<Longrightarrow> \<not> isalpha c"
  by (auto simp: isdigit_def isspace_def isalpha_def isupper_def)

lemma isdigit_iff: "isdigit c \<longleftrightarrow> (\<exists>d<10. c = digit_char d)"
proof
  assume "isdigit c"
  then have "(of_char c :: nat) - 48 < 10" "c = digit_char (of_char c - 48)"
    by (auto simp: isdigit_def digit_char_def)
  then show "\<exists>d<10. c = digit_char d" by blast
qed auto

lemma nat_to_string_isdigit: "list_all isdigit (nat_to_string n)"
  by (auto simp: list_all_iff dest: nat_to_string_digits)

lemma toupper_digit [simp]: "isdigit c \<Longrightarrow> toupper c = c"
  by (auto simp: toupper_def isdigit_def)

lemma toupper_id: "(of_char c :: nat) < 97 \<Longrightarrow> toupper c = c"
  by (simp add: toupper_def)

lemma toupper_upper [simp]: "isupper c \<Longrightarrow> toupper c = c"
  by (auto simp: isupper_def toupper_id)

section \<open>Numbers\<close>

text \<open>
  \<open>std::from_chars\<close> into an \<open>int\<close>: an optional minus sign and the longest run of digits. The result
  holds the number of characters consumed; on an error the destination is left alone.
\<close>

datatype from_chars_result = Converted int nat | Invalid_argument | Result_out_of_range nat

definition digits_value :: "string \<Rightarrow> int" where
  "digits_value = foldl (\<lambda>v c. 10 * v + (int (of_char c) - 48)) 0"

definition from_chars :: "string \<Rightarrow> from_chars_result" where
  "from_chars s =
    (let neg = (case s of c # _ \<Rightarrow> c = CHR ''-'' | [] \<Rightarrow> False);
         digits = takeWhile isdigit (if neg then tl s else s);
         n = length digits + (if neg then 1 else 0);
         v = (if neg then - digits_value digits else digits_value digits)
     in if digits = [] then Invalid_argument
        else if int32_range v then Converted v n else Result_out_of_range n)"

lemma digits_value_append: "digits_value (s @ [c]) = 10 * digits_value s + (int (of_char c) - 48)"
  by (simp add: digits_value_def)

lemma digits_value_nat_to_string [simp]: "digits_value (nat_to_string n) = int n"
proof (induction n rule: nat_to_string.induct)
  case (1 n)
  show ?case
  proof (cases "n < 10")
    case True
    then show ?thesis
      by (subst nat_to_string.simps) (simp add: digits_value_def of_char_digit_char)
  next
    case False
    have "int n = 10 * int (n div 10) + int (n mod 10)" by presburger
    with False "1.IH" [OF False] show ?thesis
      by (subst nat_to_string.simps) (simp add: digits_value_append of_char_digit_char)
  qed
qed

lemma takeWhile_nat_to_string:
  "(s = [] \<or> \<not> isdigit (hd s)) \<Longrightarrow> takeWhile isdigit (nat_to_string n @ s) = nat_to_string n"
  using nat_to_string_isdigit [of n] by (cases s) (auto simp: list_all_iff takeWhile_append2)

lemma dropWhile_nat_to_string:
  "(s = [] \<or> \<not> isdigit (hd s)) \<Longrightarrow> dropWhile isdigit (nat_to_string n @ s) = s"
  using nat_to_string_isdigit [of n] by (cases s) (auto simp: list_all_iff dropWhile_append2)

lemma nat_to_string_hd: "isdigit (hd (nat_to_string n))"
  using nat_to_string_isdigit [of n] hd_in_set [OF nat_to_string_nonempty] by (auto simp: list_all_iff)

lemma minus_not_digit [simp]: "\<not> isdigit (CHR ''-'')"
  by (simp add: isdigit_def)

lemma from_chars_int_to_string:
  assumes "int32_range i" and "s = [] \<or> \<not> isdigit (hd s)"
  shows "from_chars (int_to_string i @ s) = Converted i (length (int_to_string i))"
proof (cases "i < 0")
  case True
  then show ?thesis
    using assms by (simp add: from_chars_def int_to_string_def takeWhile_nat_to_string)
next
  case False
  obtain c cs where c: "nat_to_string (nat i) = c # cs" by (cases "nat_to_string (nat i)") auto
  then have sign: "(case nat_to_string (nat i) @ s of c # _ \<Rightarrow> c = CHR ''-'' | [] \<Rightarrow> False) = False"
    using nat_to_string_hd [of "nat i"] by auto
  show ?thesis
    using assms False takeWhile_nat_to_string [OF assms(2), of "nat i"]
    by (simp add: from_chars_def int_to_string_def sign Let_def)
qed

lemma int_to_string_chars: "c \<in> set (int_to_string i) \<Longrightarrow> isdigit c \<or> c = CHR ''-''"
  using nat_to_string_isdigit by (auto simp: int_to_string_def list_all_iff split: if_splits)

section \<open>Searching\<close>

text \<open>\<open>std::string_view::find\<close>: the first position of the needle.\<close>

fun find_sub :: "string \<Rightarrow> string \<Rightarrow> nat option" where
  "find_sub [] needle = (if needle = [] then Some 0 else None)"
| "find_sub (c # s) needle =
     (if take (length needle) (c # s) = needle then Some 0 else map_option Suc (find_sub s needle))"

lemma prefix_iff_take: "prefix xs ys \<longleftrightarrow> take (length xs) ys = xs"
  by (metis append_eq_conv_conj prefix_def take_is_prefix)

lemma find_sub_None: "find_sub hay needle = None \<longleftrightarrow> \<not> sublist needle hay"
  by (induction hay) (auto simp: sublist_Cons_right prefix_iff_take)

lemma find_sub_Some:
  "find_sub hay needle = Some i \<longleftrightarrow>
   i \<le> length hay \<and> prefix needle (drop i hay) \<and> (\<forall>j<i. \<not> prefix needle (drop j hay))"
proof (induction hay arbitrary: i)
  case (Cons c s)
  show ?case
  proof (cases "prefix needle (c # s)")
    case True
    then show ?thesis by (auto simp: prefix_iff_take intro: gr0I)
  next
    case False
    then show ?thesis
      using Cons by (cases i) (auto simp: prefix_iff_take less_Suc_eq_0_disj)
  qed
qed (auto simp: prefix_iff_take)

text \<open>A needle without the character \<open>c\<close> is found on one side of it.\<close>

lemma sublist_split: "c \<notin> set ys \<Longrightarrow> sublist ys (xs @ c # zs) \<longleftrightarrow> sublist ys xs \<or> sublist ys zs"
  by (induction xs)
    (auto simp: sublist_Cons_right prefix_Cons prefix_append Cons_eq_append_conv dest: prefix_imp_sublist)

lemma sublist_join_with:
  assumes "c \<notin> set needle" and "needle \<noteq> []"
  shows "sublist needle (join_with c ts) \<longleftrightarrow> (\<exists>t\<in>set ts. sublist needle t)"
  using assms by (induction c ts rule: join_with.induct) (auto simp: sublist_split)

lemma sublist_set: "sublist xs ys \<Longrightarrow> set xs \<subseteq> set ys"
  by (rule set_mono_sublist)

lemma sublist_number:
  "c \<in> set needle \<Longrightarrow> \<not> isdigit c \<Longrightarrow> c \<noteq> CHR ''-'' \<Longrightarrow> \<not> sublist needle (int_to_string i)"
  by (auto dest!: sublist_set dest: int_to_string_chars)

lemma prefix_before: "c \<notin> set ys \<Longrightarrow> prefix ys (xs @ c # zs) \<Longrightarrow> prefix ys xs"
  by (auto simp: prefix_append prefix_Cons)

lemma find_sub_skip:
  assumes "c \<notin> set needle" and "needle \<noteq> []" and "\<not> sublist needle xs"
  shows "find_sub (xs @ c # zs) needle = map_option (\<lambda>i. Suc (length xs) + i) (find_sub zs needle)"
  using assms(3)
proof (induction xs)
  case Nil
  have "\<not> prefix needle (c # zs)" using assms(1,2) by (auto simp: prefix_Cons)
  then show ?case by (simp add: prefix_iff_take)
next
  case (Cons x xs)
  have "\<not> prefix needle (x # xs @ c # zs)"
    using Cons.prems prefix_before [OF assms(1), of "x # xs" zs] by (auto dest: prefix_imp_sublist)
  moreover have "\<not> sublist needle xs" using Cons.prems by (simp add: sublist_Cons_right)
  ultimately show ?case using Cons.IH by (cases "find_sub zs needle") (simp_all add: prefix_iff_take)
qed

section \<open>Tokens\<close>

text \<open>The maximal runs of characters that are not white space.\<close>

function tokens :: "string \<Rightarrow> string list" where
  "tokens s =
    (if s = [] then []
     else
       let from_token = dropWhile isspace s;
           token = takeWhile (\<lambda>c. \<not> isspace c) from_token;
           rest = dropWhile (\<lambda>c. \<not> isspace c) from_token
       in if token \<noteq> [] then token # tokens rest else tokens rest)"
  by pat_completeness auto

lemma token_rest_shorter:
  "s \<noteq> [] \<Longrightarrow> length (dropWhile (\<lambda>c. \<not> P c) (dropWhile P s)) < length s"
proof (cases s)
  case (Cons c cs)
  then show ?thesis
    using length_dropWhile_le [of P cs] length_dropWhile_le [of "\<lambda>c. \<not> P c" cs]
      length_dropWhile_le [of "\<lambda>c. \<not> P c" "dropWhile P cs"]
    by (cases "P c") auto
qed simp

termination tokens
  by (relation "measure length") (auto intro: token_rest_shorter)

declare tokens.simps [simp del]

lemma tokens_Nil [simp]: "tokens [] = []"
  by (simp add: tokens.simps)

lemma tokens_space [simp]: "isspace c \<Longrightarrow> tokens (c # s) = tokens s"
proof (cases s)
  case Nil
  moreover assume "isspace c"
  ultimately show ?thesis by (subst tokens.simps) (simp add: Let_def)
next
  case (Cons d ds)
  moreover assume "isspace c"
  ultimately show ?thesis by (subst (1 2) tokens.simps) simp
qed

definition is_token :: "string \<Rightarrow> bool" where
  "is_token t \<longleftrightarrow> t \<noteq> [] \<and> list_all (\<lambda>c. \<not> isspace c) t"

lemma tokens_token:
  assumes "is_token t" and "s = [] \<or> isspace (hd s)"
  shows "tokens (t @ s) = t # tokens s"
proof -
  have t: "takeWhile (\<lambda>c. \<not> isspace c) (t @ s) = t" "dropWhile (\<lambda>c. \<not> isspace c) (t @ s) = s"
    using assms by (cases s; auto simp: is_token_def list_all_iff takeWhile_append2 dropWhile_append2)+
  have "dropWhile isspace (t @ s) = t @ s" using assms(1) by (cases t) (auto simp: is_token_def)
  with t assms(1) show ?thesis
    by (subst tokens.simps) (simp add: Let_def is_token_def)
qed

lemma tokens_are_tokens: "t \<in> set (tokens s) \<Longrightarrow> is_token t"
proof (induction s rule: tokens.induct)
  case (1 s)
  let ?f = "dropWhile isspace s"
  let ?t = "takeWhile (\<lambda>c. \<not> isspace c) ?f" and ?r = "dropWhile (\<lambda>c. \<not> isspace c) ?f"
  have ne: "s \<noteq> []" using "1.prems" by auto
  then have "tokens s = (if ?t \<noteq> [] then ?t # tokens ?r else tokens ?r)"
    by (subst tokens.simps) (simp add: Let_def)
  with "1.prems" consider "t = ?t" "?t \<noteq> []" | "t \<in> set (tokens ?r)" by (auto split: if_splits)
  then show ?case
  proof cases
    case 1
    then show ?thesis by (auto simp: is_token_def list_all_iff dest: set_takeWhileD)
  next
    case 2
    with "1.IH" [OF ne refl refl refl] show ?thesis by (cases "?t = []") simp_all
  qed
qed

lemma tokens_Cons: "tokens s = t # ts \<Longrightarrow> is_token t \<and> list_all is_token ts"
  using tokens_are_tokens [of _ s] by (auto simp: list_all_iff)

text \<open>Tokenizing loses only white space.\<close>

lemma concat_tokens: "concat (tokens s) = filter (\<lambda>c. \<not> isspace c) s"
proof (induction s rule: tokens.induct)
  case (1 s)
  show ?case
  proof (cases "s = []")
    case False
    let ?f = "dropWhile isspace s"
    let ?t = "takeWhile (\<lambda>c. \<not> isspace c) ?f" and ?r = "dropWhile (\<lambda>c. \<not> isspace c) ?f"
    have "s = takeWhile isspace s @ ?t @ ?r" by simp
    then have "filter (\<lambda>c. \<not> isspace c) s = filter (\<lambda>c. \<not> isspace c) (takeWhile isspace s) @
        filter (\<lambda>c. \<not> isspace c) ?t @ filter (\<lambda>c. \<not> isspace c) ?r"
      by (metis filter_append)
    also have "filter (\<lambda>c. \<not> isspace c) (takeWhile isspace s) = []"
      by (auto simp: filter_empty_conv dest: set_takeWhileD)
    also have "filter (\<lambda>c. \<not> isspace c) ?t = ?t" by (auto simp: filter_id_conv dest: set_takeWhileD)
    also have "[] @ ?t @ filter (\<lambda>c. \<not> isspace c) ?r = ?t @ filter (\<lambda>c. \<not> isspace c) ?r" by simp
    also have "\<dots> = ?t @ concat (tokens ?r)" using "1.IH" [OF False refl refl refl] by (cases "?t = []") simp_all
    finally show ?thesis by (subst tokens.simps) (simp add: False Let_def)
  qed simp
qed

lemma tokens_join:
  "list_all is_token ts \<Longrightarrow> tokens (join_with (CHR '' '') ts) = ts"
proof (induction "CHR '' ''" ts rule: join_with.induct)
  case (2 x)
  then show ?case using tokens_token [of x "[]"] by simp
next
  case (3 x y ys)
  have sp: "isspace (CHR '' '')" by (simp add: isspace_def)
  with 3 tokens_token [of x "CHR '' '' # join_with (CHR '' '') (y # ys)"] show ?case by simp
qed simp

section \<open>Lines\<close>

text \<open>A line break may be a line feed or a carriage return and a line feed.\<close>

definition strip_cr :: "string \<Rightarrow> string" where
  "strip_cr ln = (if ln \<noteq> [] \<and> last ln = carriage_return then butlast ln else ln)"

definition plain_line :: "string \<Rightarrow> bool" where
  "plain_line ln \<longleftrightarrow> newline \<notin> set ln \<and> strip_cr ln = ln"

lemma butlast_id: "butlast xs = xs \<longleftrightarrow> xs = []"
proof
  assume "butlast xs = xs"
  then have "length xs - 1 = length xs" using length_butlast [of xs] by simp
  then show "xs = []" by (cases xs) simp_all
qed simp

lemma plain_line_iff: "plain_line ln \<longleftrightarrow> newline \<notin> set ln \<and> (ln = [] \<or> last ln \<noteq> carriage_return)"
  by (auto simp: plain_line_def strip_cr_def butlast_id)

lemma is_token_plain: "list_all is_token ts \<Longrightarrow> ts \<noteq> [] \<Longrightarrow> plain_line (join_with (CHR '' '') ts)"
proof -
  assume ts: "list_all is_token ts" "ts \<noteq> []"
  have cs: "\<not> isspace c \<or> c = CHR '' ''" if "c \<in> set (join_with (CHR '' '') ts)" for c
  proof -
    from that set_join_with [of "CHR '' ''" ts] consider "c = CHR '' ''" | t where "t \<in> set ts" "c \<in> set t"
      by blast
    then show ?thesis using ts(1) by cases (auto simp: list_all_iff is_token_def)
  qed
  then have "newline \<notin> set (join_with (CHR '' '') ts)" "carriage_return \<notin> set (join_with (CHR '' '') ts)"
    using cs [of newline] cs [of carriage_return] by (auto simp: isspace_def)
  then show ?thesis by (auto simp: plain_line_iff dest: last_in_set)
qed

lemma strip_cr_append [simp]: "strip_cr (ln @ [carriage_return]) = ln"
  by (simp add: strip_cr_def)

lemma find_newline:
  "newline \<notin> set ln \<Longrightarrow> find_index (\<lambda>c. c = newline) (ln @ newline # rest) = Some (length ln)"
  by (induction ln) auto

lemma find_no_newline: "newline \<notin> set ln \<Longrightarrow> find_index (\<lambda>c. c = newline) ln = None"
  by (induction ln) auto

text \<open>
  The contract between a parser and its loop over the lines of a text: a text printed with either
  kind of line break reads back as the lines printed.
\<close>

locale line_reader =
  fixes read_lines :: "string \<Rightarrow> string list"
  assumes read_last: "plain_line ln \<Longrightarrow> read_lines ln = [ln]"
    and read_break: "newline \<notin> set ln \<Longrightarrow> read_lines (ln @ newline # rest) = strip_cr ln # read_lines rest"
begin

lemma read_lf: "plain_line ln \<Longrightarrow> read_lines (ln @ newline # rest) = ln # read_lines rest"
  using read_break [of ln rest] by (simp add: plain_line_def)

lemma read_crlf:
  "plain_line ln \<Longrightarrow> read_lines (ln @ carriage_return # newline # rest) = ln # read_lines rest"
  using read_break [of "ln @ [carriage_return]" rest] by (simp add: plain_line_def)

lemma read_printed:
  "ls \<noteq> [] \<Longrightarrow> list_all plain_line ls \<Longrightarrow> read_lines (join_with newline ls) = ls"
  by (induction newline ls rule: join_with.induct) (simp_all add: read_last read_lf)

lemma read_terminated:
  "list_all plain_line ls \<Longrightarrow> read_lines (concat (map (\<lambda>ln. ln @ [newline]) ls)) = ls @ [[]]"
proof (induction ls)
  case Nil
  show ?case using read_last [of "[]"] by (simp add: plain_line_def strip_cr_def)
qed (simp add: read_lf)

lemma read_terminated_crlf:
  "list_all plain_line ls \<Longrightarrow> read_lines (concat (map (\<lambda>ln. ln @ [carriage_return, newline]) ls)) = ls @ [[]]"
proof (induction ls)
  case Nil
  show ?case using read_last [of "[]"] by (simp add: plain_line_def strip_cr_def)
qed (simp add: read_crlf)

end

end
