(* ===== verification/Cli_Report.thy ===== *)
theory Cli_Report
  imports Json_Walk Text_Scan
begin

text \<open>
  The climate report parsers (\<open>include/nws/models/cli_report.hpp\<close>, \<open>src/models/cli_report.cpp\<close>): the daily
  climate report CLI, the monthly table CF6, and the JSON archive of the Iowa Environmental Mesonet.
  The day and year the CLI parser keeps as doubles are small integers, so they stay integers here.
\<close>

section \<open>Data\<close>

record CliReport =
  station :: string
  date :: string
  tmax_f :: "double option"
  tmin_f :: "double option"
  is_preliminary :: bool
  is_corrected :: bool
  source :: string
  issuance_time :: string

definition default_CliReport :: CliReport where
  "default_CliReport =
     \<lparr>station = [], date = [], tmax_f = None, tmin_f = None, is_preliminary = True, is_corrected = False,
      source = [], issuance_time = []\<rparr>"

section \<open>Scanning\<close>

function lines_of :: "string \<Rightarrow> string list" where
  "lines_of text =
    (case find_index (\<lambda>c. c = newline) text of
       None \<Rightarrow> [text]
     | Some nl \<Rightarrow> strip_cr (take nl text) # lines_of (drop (nl + 1) text))"
  by pat_completeness auto

termination lines_of
  by (relation "measure length") (auto dest: find_index_Some)

declare lines_of.simps [simp del]

text \<open>The inner loop of \<open>ifind\<close> at one position, then the loop over the positions.\<close>

fun same_letters :: "string \<Rightarrow> string \<Rightarrow> bool" where
  "same_letters [] hay = True"
| "same_letters (n # needle) (h # hay) = (toupper h = toupper n \<and> same_letters needle hay)"
| "same_letters (n # needle) [] = False"

fun ifind_loop :: "string \<Rightarrow> string \<Rightarrow> nat option" where
  "ifind_loop hay needle =
    (if length needle \<le> length hay
     then if same_letters needle hay then Some 0
          else case hay of [] \<Rightarrow> None | _ # rest \<Rightarrow> map_option Suc (ifind_loop rest needle)
     else None)"

declare ifind_loop.simps [simp del]

definition ifind :: "string \<Rightarrow> string \<Rightarrow> nat option" where
  "ifind hay needle = (if length hay < length needle then None else ifind_loop hay needle)"

definition icontains :: "string \<Rightarrow> string \<Rightarrow> bool" where
  "icontains hay needle \<longleftrightarrow> ifind hay needle \<noteq> None"

fun first_int :: "string \<Rightarrow> double option" where
  "first_int [] = None"
| "first_int (c # s) =
    (if isdigit c \<or> c = CHR ''-'' \<and> s \<noteq> [] \<and> isdigit (hd s)
     then case from_chars (c # takeWhile isdigit s) of
            Converted v _ \<Rightarrow> Some (double_of_int v)
          | _ \<Rightarrow> first_int s
     else first_int s)"

definition kM :: "string list" where
  "kM = [''JAN'', ''FEB'', ''MAR'', ''APR'', ''MAY'', ''JUN'', ''JUL'', ''AUG'', ''SEP'', ''OCT'', ''NOV'', ''DEC'']"

definition month_of_word :: "string \<Rightarrow> nat option" where
  "month_of_word w =
     (if 3 \<le> length w then map_option Suc (find_index (\<lambda>abbr. abbr = map toupper (take 3 w)) kM) else None)"

text \<open>\<open>i\<close> is the position of the rest of the line; the result holds the end of the month's word.\<close>

function month_scan :: "nat \<Rightarrow> string \<Rightarrow> (nat \<times> nat) option" where
  "month_scan i s =
    (if s = [] then None
     else
       let from_word = dropWhile (\<lambda>c. \<not> isalpha c) s;
           w = takeWhile isalpha from_word;
           rest = dropWhile isalpha from_word;
           j = i + (length s - length rest)
       in case month_of_word w of Some m \<Rightarrow> Some (m, j) | None \<Rightarrow> month_scan j rest)"
  by pat_completeness auto

termination month_scan
  using token_rest_shorter [where P = "\<lambda>c. \<not> isalpha c"]
  by (relation "measure (\<lambda>(_, s). length s)") auto

declare month_scan.simps [simp del]

text \<open>The month (0 for none) and \<open>month_end\<close>, which stays 0 then.\<close>

definition month_num :: "string \<Rightarrow> nat \<times> nat" where
  "month_num line = (case month_scan 0 line of None \<Rightarrow> (0, 0) | Some r \<Rightarrow> r)"

text \<open>
  The values of the runs of digits of a line, in order; a run that \<open>std::from_chars\<close> rejects counts 0.
\<close>

definition run_value :: "string \<Rightarrow> int" where
  "run_value ds = (case from_chars ds of Converted v _ \<Rightarrow> v | _ \<Rightarrow> 0)"

function digit_runs :: "string \<Rightarrow> int list" where
  "digit_runs s =
    (if s = [] then []
     else
       let from_digit = dropWhile (\<lambda>c. \<not> isdigit c) s;
           run = takeWhile isdigit from_digit;
           rest = drop 1 (dropWhile isdigit from_digit)
       in if run \<noteq> [] then run_value run # digit_runs rest else digit_runs rest)"
  by pat_completeness auto

lemma digit_rest_shorter:
  "s \<noteq> [] \<Longrightarrow> length (dropWhile isdigit (dropWhile (\<lambda>c. \<not> isdigit c) s)) - Suc 0 < length s"
  using token_rest_shorter [of s "\<lambda>c. \<not> isdigit c"] by simp

termination digit_runs
  by (relation "measure length") (auto intro: digit_rest_shorter)

declare digit_runs.simps [simp del]

text \<open>\<open>%0wd\<close>, and the date in a buffer of ten characters and a terminator.\<close>

definition zero_padded :: "nat \<Rightarrow> int \<Rightarrow> string" where
  "zero_padded w i =
     (let ds = nat_to_string (nat \<bar>i\<bar>)
      in if i < 0 then CHR ''-'' # replicate (w - 1 - length ds) (CHR ''0'') @ ds
         else replicate (w - length ds) (CHR ''0'') @ ds)"

definition date_text :: "int \<Rightarrow> nat \<Rightarrow> int \<Rightarrow> string" where
  "date_text y m d = take 10 (zero_padded 4 y @ ''-'' @ zero_padded 2 (int m) @ ''-'' @ zero_padded 2 d)"

section \<open>The monthly table\<close>

record cf6_state =
  cf6_month :: nat
  cf6_year :: int
  station_3letter :: string
  past_data_header :: bool
  best_day :: int
  best_tmax :: "double option"
  best_tmin :: "double option"

definition cf6_init :: cf6_state where
  "cf6_init = \<lparr>cf6_month = 0, cf6_year = 0, station_3letter = [], past_data_header = False,
     best_day = 0, best_tmax = None, best_tmin = None\<rparr>"

definition cf6_station_of :: "string \<Rightarrow> string" where
  "cf6_station_of line =
    (case find_sub line ''CF6'' of
       None \<Rightarrow> []
     | Some cf6_pos \<Rightarrow>
         if cf6_pos + 6 \<le> length line
         then let cand = substr line (cf6_pos + 3) 3 in if length cand = 3 \<and> list_all isupper cand then cand else []
         else [])"

definition cf6_month_of :: "string \<Rightarrow> nat" where
  "cf6_month_of line = (if icontains line ''MONTH:'' then fst (month_num line) else 0)"

definition cf6_year_of :: "string \<Rightarrow> int" where
  "cf6_year_of line =
    (if icontains line ''YEAR:''
     then case List.find (\<lambda>v. 1900 \<le> v \<and> v \<le> 2200) (digit_runs line) of Some v \<Rightarrow> v | None \<Rightarrow> 0
     else 0)"

definition cf6_header :: "string \<Rightarrow> bool" where
  "cf6_header line \<longleftrightarrow>
     (case find_sub line ''DY'' of Some dy \<Rightarrow> dy < 5 | None \<Rightarrow> False) \<and>
     find_sub line ''MAX'' \<noteq> None \<and> find_sub line ''MIN'' \<noteq> None"

definition cf6_stop :: "string \<Rightarrow> bool" where
  "cf6_stop b \<longleftrightarrow> list_ex (starts_with b) [''SM '', ''AV '', ''NOTES'', ''$$'', ''MAX('', ''MISC'']"

definition parse_temp :: "string \<Rightarrow> double option" where
  "parse_temp t =
    (if t = ''M'' \<or> t = ''T'' then None
     else case from_chars t of Converted v _ \<Rightarrow> Some (double_of_int v) | _ \<Rightarrow> None)"

text \<open>The day and temperatures of a row that has them all.\<close>

definition cf6_row :: "string \<Rightarrow> (int \<times> double \<times> double) option" where
  "cf6_row b =
    (case tokens b of
       t0 # t1 # t2 # _ \<Rightarrow>
         (case from_chars t0 of
            Converted day _ \<Rightarrow>
              if day < 1 \<or> 31 < day then None
              else (case (parse_temp t1, parse_temp t2) of
                      (Some tmax, Some tmin) \<Rightarrow> Some (day, tmax, tmin)
                    | _ \<Rightarrow> None)
          | _ \<Rightarrow> None)
     | _ \<Rightarrow> None)"

definition cf6_header_fields :: "string \<Rightarrow> cf6_state \<Rightarrow> cf6_state" where
  "cf6_header_fields line st =
     st\<lparr>station_3letter := (if station_3letter st = [] then cf6_station_of line else station_3letter st),
        cf6_month := (if cf6_month st = 0 then cf6_month_of line else cf6_month st),
        cf6_year := (if cf6_year st = 0 then cf6_year_of line else cf6_year st)\<rparr>"

definition cf6_keep :: "(int \<times> double \<times> double) option \<Rightarrow> cf6_state \<Rightarrow> cf6_state" where
  "cf6_keep row st =
    (case row of
       Some (day, tmax, tmin) \<Rightarrow>
         if best_day st < day then st\<lparr>best_day := day, best_tmax := Some tmax, best_tmin := Some tmin\<rparr> else st
     | None \<Rightarrow> st)"

text \<open>The loop over the lines; a summary row leaves it.\<close>

fun cf6_loop :: "string list \<Rightarrow> cf6_state \<Rightarrow> cf6_state" where
  "cf6_loop [] st = st"
| "cf6_loop (line # ls) st =
    (let st = cf6_header_fields line st; b = dropWhile isspace line
     in if \<not> past_data_header st
        then cf6_loop ls (if cf6_header line then st\<lparr>past_data_header := True\<rparr> else st)
        else if b = [] \<or> hd b = CHR ''='' then cf6_loop ls st
        else if cf6_stop b then st
        else cf6_loop ls (cf6_keep (cf6_row b) st))"

definition corrected :: "string \<Rightarrow> bool" where
  "corrected text \<longleftrightarrow> icontains text ''CORRECTED'' \<or> icontains text ''...COR''"

definition parse_cf6_product_text :: "string \<Rightarrow> CliReport result" where
  "parse_cf6_product_text text =
    (let st = cf6_loop (lines_of text) cf6_init
     in if cf6_month st = 0 \<or> cf6_year st = 0 \<or> best_day st = 0
        then Inl (Error_parse ''unrecognized CLI/CF6 product layout'')
        else Inr (default_CliReport
          \<lparr>source := ''nws_api_cf6'', is_preliminary := icontains text ''PRELIMINARY'', is_corrected := corrected text,
           date := date_text (cf6_year st) (cf6_month st) (best_day st),
           station := (if station_3letter st \<noteq> [] then CHR ''K'' # station_3letter st else []),
           tmax_f := best_tmax st, tmin_f := best_tmin st\<rparr>))"

section \<open>The daily report\<close>

definition cli_station_of :: "string \<Rightarrow> string" where
  "cli_station_of line =
    (case find_sub line '' K'' of
       None \<Rightarrow> []
     | Some kpos \<Rightarrow>
         if kpos + 5 \<le> length line
         then let cand = substr line (kpos + 1) 4
              in if length cand = 4 \<and> hd cand = CHR ''K'' \<and> list_all isupper (tl cand) then cand else []
         else [])"

fun day_year :: "int option \<times> int option \<Rightarrow> int \<Rightarrow> int option \<times> int option" where
  "day_year (dd, yyyy) v =
    (if dd = None \<and> 1 \<le> v \<and> v \<le> 31 then (Some v, yyyy)
     else if yyyy = None \<and> 1900 \<le> v \<and> v \<le> 2200 then (dd, Some v)
     else (dd, yyyy))"

definition cli_date_of :: "string \<Rightarrow> string" where
  "cli_date_of line =
    (if icontains line ''FOR '' \<and> fst (month_num line) \<noteq> 0
     then case month_num line of (mm, month_end) \<Rightarrow>
       (case foldl day_year (None, None) (digit_runs (drop month_end line)) of
          (Some dd, Some yyyy) \<Rightarrow> date_text yyyy mm dd
        | _ \<Rightarrow> [])
     else [])"

text \<open>The first integer after a label.\<close>

definition labelled_int :: "string \<Rightarrow> string \<Rightarrow> double option" where
  "labelled_int lbl line = (case ifind line lbl of None \<Rightarrow> None | Some p \<Rightarrow> first_int (drop (p + 7) line))"

definition ends_temperature :: "string \<Rightarrow> bool" where
  "ends_temperature line \<longleftrightarrow> icontains line ''PRECIPITATION'' \<or> icontains line ''WIND'' \<or> icontains line ''RELATIVE''"

definition cli_header_fields :: "string \<Rightarrow> CliReport \<Rightarrow> CliReport" where
  "cli_header_fields line r =
     r\<lparr>station := (if station r = [] then cli_station_of line else station r),
       date := (if date r = [] then cli_date_of line else date r)\<rparr>"

definition cli_temperatures :: "string \<Rightarrow> CliReport \<Rightarrow> CliReport" where
  "cli_temperatures line r =
     r\<lparr>tmax_f := (if tmax_f r = None then labelled_int ''MAXIMUM'' line else tmax_f r),
       tmin_f := (if tmin_f r = None then labelled_int ''MINIMUM'' line else tmin_f r)\<rparr>"

fun cli_line :: "CliReport \<times> bool \<Rightarrow> string \<Rightarrow> CliReport \<times> bool" where
  "cli_line (r, in_temperature) line =
    (if icontains line ''TEMPERATURE'' then (cli_header_fields line r, True)
     else if in_temperature \<and> \<not> ends_temperature line
     then (cli_temperatures line (cli_header_fields line r), True)
     else (cli_header_fields line r, False))"

definition cf6_banner :: "string \<Rightarrow> bool" where
  "cf6_banner text \<longleftrightarrow> icontains text ''WS FORM: F-6'' \<or> icontains text ''WS FORM F-6'' \<or> icontains text ''WS FORM:  F-6''"

definition parse_cli_product_text :: "string \<Rightarrow> CliReport result" where
  "parse_cli_product_text text =
    (if text = [] then Inl (Error_parse ''empty CLI product text'')
     else if cf6_banner text then parse_cf6_product_text text
     else
       let r = default_CliReport\<lparr>source := ''nws_api_cli'', is_preliminary := True, is_corrected := corrected text\<rparr>;
           r = fst (foldl cli_line (r, False) (lines_of text))
       in if station r = [] \<and> date r = [] \<and> tmax_f r = None \<and> tmin_f r = None
          then Inl (Error_parse ''unrecognized CLI/CF6 product layout'')
          else Inr r)"

section \<open>The archive\<close>

definition iem_row :: "json \<Rightarrow> CliReport" where
  "iem_row row =
     default_CliReport
       \<lparr>source := ''iem_json'', is_preliminary := True, station := get_string row ''station'',
        date := (let d = get_string row ''valid'' in if d = [] then get_string row ''date'' else d),
        tmax_f := get_optional_double row ''high'', tmin_f := get_optional_double row ''low''\<rparr>"

definition parse_iem_cli_json :: "json_reader \<Rightarrow> string \<Rightarrow> CliReport list result" where
  "parse_iem_cli_json glz_read b =
     bind_result (parse_root glz_read b) (\<lambda>tree.
       case (case find_array tree ''results'' of None \<Rightarrow> find_array tree ''data'' | Some rs \<Rightarrow> Some rs) of
         None \<Rightarrow> Inl (Error_parse ''IEM cli.py: no results array'')
       | Some arr \<Rightarrow> Inr (filter (\<lambda>r. date r \<noteq> []) (map iem_row arr)))"

section \<open>Searching without case\<close>

lemma same_letters_prefix:
  "same_letters needle hay \<longleftrightarrow> prefix (map toupper needle) (map toupper hay)"
  by (induction needle hay rule: same_letters.induct) auto

lemma ifind_loop_find_sub: "ifind_loop hay needle = find_sub (map toupper hay) (map toupper needle)"
proof (induction hay)
  case Nil
  show ?case by (subst ifind_loop.simps) (cases needle; simp)
next
  case (Cons h hay)
  show ?case
  proof (cases "prefix (map toupper needle) (map toupper (h # hay))")
    case True
    then have "length needle \<le> length (h # hay)" using prefix_length_le by fastforce
    with True show ?thesis
      by (subst ifind_loop.simps) (simp add: same_letters_prefix prefix_iff_take)
  next
    case False
    have "find_sub (map toupper hay) (map toupper needle) = None" if "length hay < length needle"
      using that by (auto simp: find_sub_None dest: sublist_length_le)
    with False Cons show ?thesis
      by (subst ifind_loop.simps) (auto simp: same_letters_prefix prefix_iff_take)
  qed
qed

lemma ifind_find_sub: "ifind hay needle = find_sub (map toupper hay) (map toupper needle)"
proof (cases "length hay < length needle")
  case True
  then have "find_sub (map toupper hay) (map toupper needle) = None"
    by (auto simp: find_sub_None dest: sublist_length_le)
  with True show ?thesis by (simp add: ifind_def)
qed (simp add: ifind_def ifind_loop_find_sub)

lemma icontains_sublist: "icontains hay needle \<longleftrightarrow> sublist (map toupper needle) (map toupper hay)"
  by (auto simp: icontains_def ifind_find_sub find_sub_None)

interpretation cli_reader: line_reader lines_of
proof
  show "lines_of line = [line]" if "plain_line line" for line
    using that by (subst lines_of.simps) (simp add: plain_line_def find_no_newline)
  show "lines_of (line @ newline # rest) = strip_cr line # lines_of rest" if "newline \<notin> set line" for line rest
    using that by (subst lines_of.simps) (simp add: find_newline)
qed

section \<open>First finds\<close>

text \<open>What a loop computes that fills a field once: the first value that is not the empty one.\<close>

definition first_found :: "'b \<Rightarrow> ('a \<Rightarrow> 'b) \<Rightarrow> 'a list \<Rightarrow> 'b" where
  "first_found none f xs = (case List.find (\<lambda>x. f x \<noteq> none) xs of None \<Rightarrow> none | Some x \<Rightarrow> f x)"

lemma first_found_simps [simp]:
  "first_found none f [] = none"
  "first_found none f (x # xs) = (if f x = none then first_found none f xs else f x)"
  by (simp_all add: first_found_def)

lemma first_found_1: "f x = y \<Longrightarrow> y \<noteq> none \<Longrightarrow> first_found none f (x # xs) = y"
  by simp

lemma first_found_2: "f w = none \<Longrightarrow> f x = y \<Longrightarrow> y \<noteq> none \<Longrightarrow> first_found none f (w # x # xs) = y"
  by simp

lemma first_found_3:
  "f v = none \<Longrightarrow> f w = none \<Longrightarrow> f x = y \<Longrightarrow> y \<noteq> none \<Longrightarrow> first_found none f (v # w # x # xs) = y"
  by simp

lemma first_found_cases: "first_found none f xs = none \<or> (\<exists>x\<in>set xs. first_found none f xs = f x \<and> f x \<noteq> none)"
  by (induction xs) auto

section \<open>What the table loop computes\<close>

definition cf6_ended :: "string \<Rightarrow> bool" where
  "cf6_ended line \<longleftrightarrow> (let b = dropWhile isspace line in b \<noteq> [] \<and> hd b \<noteq> CHR ''='' \<and> cf6_stop b)"

definition cf6_body :: "string list \<Rightarrow> string list" where
  "cf6_body ls = tl (dropWhile (\<lambda>line. \<not> cf6_header line) ls)"

text \<open>The rows between the column header and the first summary line.\<close>

definition cf6_table :: "string list \<Rightarrow> (int \<times> double \<times> double) list" where
  "cf6_table ls = List.map_filter cf6_row (takeWhile (\<lambda>line. \<not> cf6_ended line) (cf6_body ls))"

text \<open>The lines the loop looks at: all of them up to that summary line.\<close>

definition up_to :: "('a \<Rightarrow> bool) \<Rightarrow> 'a list \<Rightarrow> 'a list" where
  "up_to P xs = takeWhile (\<lambda>x. \<not> P x) xs @ take 1 (dropWhile (\<lambda>x. \<not> P x) xs)"

definition cf6_read :: "string list \<Rightarrow> string list" where
  "cf6_read ls = up_to cf6_header ls @ up_to cf6_ended (cf6_body ls)"

text \<open>The first row of the last day.\<close>

definition latest :: "(int \<times> 'a) list \<Rightarrow> (int \<times> 'a) option" where
  "latest rows = List.find (\<lambda>r. list_all (\<lambda>r'. fst r' \<le> fst r) rows) rows"

lemma up_to_simps [simp]:
  "up_to P [] = []"
  "up_to P (x # xs) = (if P x then [x] else x # up_to P xs)"
  by (simp_all add: up_to_def)

lemma tokens_skip_space: "tokens (dropWhile isspace s) = tokens s"
  by (induction s) auto

lemma cf6_row_skip_space: "cf6_row (dropWhile isspace s) = cf6_row s"
  by (simp add: cf6_row_def tokens_skip_space)

lemma cf6_row_separator:
  assumes "s = [] \<or> hd s = CHR ''=''"
  shows "cf6_row s = None"
proof (cases s)
  case (Cons c cs)
  have "\<not> isspace (CHR ''='')" "\<not> isdigit (CHR ''='')" by (simp_all add: isspace_def isdigit_def)
  with Cons assms have "tokens s = (c # takeWhile (\<lambda>c. \<not> isspace c) cs) # tokens (dropWhile (\<lambda>c. \<not> isspace c) cs)"
    by (subst tokens.simps) (simp add: Let_def)
  moreover have "from_chars (c # r) = Invalid_argument" for r
    using Cons assms \<open>\<not> isdigit (CHR ''='')\<close> by (simp add: from_chars_def)
  ultimately show ?thesis by (simp add: cf6_row_def split: list.splits)
qed (simp add: cf6_row_def)

lemma cf6_keep_None [simp]: "cf6_keep None st = st"
  by (simp add: cf6_keep_def)

lemma cf6_keep_fields:
  "cf6_header_fields line (cf6_keep r st) = cf6_keep r (cf6_header_fields line st)"
  by (auto simp: cf6_header_fields_def cf6_keep_def split: option.splits)

lemma cf6_past [simp]:
  "past_data_header (cf6_header_fields line st) = past_data_header st"
  "past_data_header (cf6_keep r st) = past_data_header st"
  by (auto simp: cf6_header_fields_def cf6_keep_def split: option.splits)

lemma fields_keep_fold:
  "foldl (\<lambda>st line. cf6_header_fields line st) (cf6_keep r st) ls =
   cf6_keep r (foldl (\<lambda>st line. cf6_header_fields line st) st ls)"
  by (induction ls arbitrary: st) (simp_all add: cf6_keep_fields)

lemma cf6_loop_table:
  "past_data_header st \<Longrightarrow>
   cf6_loop ls st =
     foldl (\<lambda>st r. cf6_keep (Some r) st)
       (foldl (\<lambda>st line. cf6_header_fields line st) st (up_to cf6_ended ls))
       (List.map_filter cf6_row (takeWhile (\<lambda>line. \<not> cf6_ended line) ls))"
proof (induction ls arbitrary: st)
  case (Cons line ls)
  let ?b = "dropWhile isspace line"
  have past: "past_data_header (cf6_header_fields line st)" using Cons.prems by simp
  have row: "cf6_row line = cf6_row ?b" by (simp add: cf6_row_skip_space)
  consider "?b = [] \<or> hd ?b = CHR ''=''" | "?b \<noteq> []" "hd ?b \<noteq> CHR ''=''" "cf6_stop ?b"
    | "?b \<noteq> []" "hd ?b \<noteq> CHR ''=''" "\<not> cf6_stop ?b" by blast
  then show ?case
  proof cases
    case 1
    then have "\<not> cf6_ended line" "cf6_row line = None"
      by (auto simp: cf6_ended_def row cf6_row_separator)
    with 1 Cons.IH [OF past] past show ?thesis by (simp add: map_filter_simps Let_def)
  next
    case 2
    then have "cf6_ended line" by (simp add: cf6_ended_def)
    with 2 past show ?thesis by (auto simp: map_filter_simps Let_def)
  next
    case 3
    then have "\<not> cf6_ended line" by (simp add: cf6_ended_def)
    with 3 Cons.IH [of "cf6_keep (cf6_row line) (cf6_header_fields line st)"] past show ?thesis
      by (cases "cf6_row line") (auto simp: map_filter_simps Let_def fields_keep_fold simp flip: row)
  qed
qed (simp add: map_filter_simps)

lemma foldl_fields_past [simp]:
  "past_data_header (foldl (\<lambda>st line. cf6_header_fields line st) st ls) = past_data_header st"
  by (induction ls arbitrary: st) simp_all

lemma fields_past_fold:
  "foldl (\<lambda>st line. cf6_header_fields line st) (st\<lparr>past_data_header := b\<rparr>) ls =
   (foldl (\<lambda>st line. cf6_header_fields line st) st ls)\<lparr>past_data_header := b\<rparr>"
proof (induction ls arbitrary: st)
  case (Cons line ls)
  have "cf6_header_fields line (st\<lparr>past_data_header := b\<rparr>) = (cf6_header_fields line st)\<lparr>past_data_header := b\<rparr>"
    by (simp add: cf6_header_fields_def)
  with Cons show ?case by simp
qed simp

lemma cf6_loop_phases:
  "\<not> past_data_header st \<Longrightarrow>
   \<exists>b. cf6_loop ls st =
     foldl (\<lambda>st r. cf6_keep (Some r) st)
       ((foldl (\<lambda>st line. cf6_header_fields line st) st (cf6_read ls))\<lparr>past_data_header := b\<rparr>) (cf6_table ls)"
proof (induction ls arbitrary: st)
  case (Cons line ls)
  show ?case
  proof (cases "cf6_header line")
    case True
    then show ?thesis
      using Cons.prems cf6_loop_table [of "(cf6_header_fields line st)\<lparr>past_data_header := True\<rparr>" ls]
      by (intro exI [of _ True]) (simp add: cf6_read_def cf6_table_def cf6_body_def Let_def fields_past_fold)
  next
    case False
    with Cons.prems Cons.IH [of "cf6_header_fields line st"] show ?thesis
      by (simp add: cf6_read_def cf6_table_def cf6_body_def Let_def)
  qed
next
  case Nil
  show ?case
    by (intro exI [of _ "past_data_header st"]) (simp add: cf6_read_def cf6_table_def cf6_body_def map_filter_simps)
qed

lemma foldl_fields:
  "station_3letter (foldl (\<lambda>st line. cf6_header_fields line st) st ls) =
     (if station_3letter st = [] then first_found [] cf6_station_of ls else station_3letter st)"
  "cf6_month (foldl (\<lambda>st line. cf6_header_fields line st) st ls) =
     (if cf6_month st = 0 then first_found 0 cf6_month_of ls else cf6_month st)"
  "cf6_year (foldl (\<lambda>st line. cf6_header_fields line st) st ls) =
     (if cf6_year st = 0 then first_found 0 cf6_year_of ls else cf6_year st)"
  "best_day (foldl (\<lambda>st line. cf6_header_fields line st) st ls) = best_day st"
  by (induction ls arbitrary: st; simp add: cf6_header_fields_def)+

lemma keep_fields [simp]:
  "station_3letter (foldl (\<lambda>st r. cf6_keep (Some r) st) st rows) = station_3letter st"
  "cf6_month (foldl (\<lambda>st r. cf6_keep (Some r) st) st rows) = cf6_month st"
  "cf6_year (foldl (\<lambda>st r. cf6_keep (Some r) st) st rows) = cf6_year st"
  by (induction rows arbitrary: st; auto simp: cf6_keep_def)+

lemma latest_step:
  "latest (x # r # rows) = latest ((if fst x < fst r then r else x) # rows)"
proof (cases "fst x < fst r")
  case True
  then have eq: "(\<lambda>y. list_all (\<lambda>r'. fst r' \<le> fst y) (x # r # rows)) = (\<lambda>y. list_all (\<lambda>r'. fst r' \<le> fst y) (r # rows))"
    by (auto simp: fun_eq_iff)
  show ?thesis using True unfolding latest_def eq by simp
next
  case False
  then have eq: "(\<lambda>y. list_all (\<lambda>r'. fst r' \<le> fst y) (x # r # rows)) = (\<lambda>y. list_all (\<lambda>r'. fst r' \<le> fst y) (x # rows))"
    by (auto simp: fun_eq_iff)
  have "list_all (\<lambda>r'. fst r' \<le> fst x) rows" if "list_all (\<lambda>r'. fst r' \<le> fst r) (x # rows)"
    using that False by (simp add: list_all_iff)
  then show ?thesis using False unfolding latest_def eq by auto
qed

lemma keep_latest:
  "best_tmax st = Some a \<Longrightarrow> best_tmin st = Some b \<Longrightarrow>
   \<exists>d a' b'. latest ((best_day st, a, b) # rows) = Some (d, a', b') \<and>
     best_day (foldl (\<lambda>st r. cf6_keep (Some r) st) st rows) = d \<and>
     best_tmax (foldl (\<lambda>st r. cf6_keep (Some r) st) st rows) = Some a' \<and>
     best_tmin (foldl (\<lambda>st r. cf6_keep (Some r) st) st rows) = Some b'"
proof (induction rows arbitrary: st a b)
  case Nil
  then show ?case by (simp add: latest_def)
next
  case (Cons r rows)
  obtain d x y where r: "r = (d, x, y)" by (cases r)
  show ?case
  proof (cases "best_day st < d")
    case True
    with Cons.IH [of "cf6_keep (Some r) st" x y] show ?thesis by (simp add: r latest_step cf6_keep_def)
  next
    case False
    with Cons.IH [of st a b] Cons.prems show ?thesis by (simp add: r latest_step cf6_keep_def)
  qed
qed

lemma keep_all:
  assumes "best_day st = 0" and "\<forall>r\<in>set rows. 1 \<le> fst r"
  shows "case latest rows of
      None \<Rightarrow> rows = []
    | Some (d, a, b) \<Rightarrow> 1 \<le> d \<and> best_day (foldl (\<lambda>st r. cf6_keep (Some r) st) st rows) = d \<and>
        best_tmax (foldl (\<lambda>st r. cf6_keep (Some r) st) st rows) = Some a \<and>
        best_tmin (foldl (\<lambda>st r. cf6_keep (Some r) st) st rows) = Some b"
proof (cases rows)
  case (Cons r rs)
  obtain d x y where r: "r = (d, x, y)" by (cases r)
  let ?st = "cf6_keep (Some r) st"
  have st: "best_day ?st = d" "best_tmax ?st = Some x" "best_tmin ?st = Some y"
    using assms by (simp_all add: r Cons cf6_keep_def)
  obtain d' a b where l: "latest rows = Some (d', a, b)"
      "best_day (foldl (\<lambda>st r. cf6_keep (Some r) st) ?st rs) = d'"
      "best_tmax (foldl (\<lambda>st r. cf6_keep (Some r) st) ?st rs) = Some a"
      "best_tmin (foldl (\<lambda>st r. cf6_keep (Some r) st) ?st rs) = Some b"
    using keep_latest [OF st(2,3), of rs] st(1) by (auto simp: Cons r)
  from l(1) have "(d', a, b) \<in> set rows" by (auto simp: latest_def find_Some_iff)
  with assms(2) have "1 \<le> d'" by force
  with l show ?thesis by (simp add: Cons)
qed (simp add: latest_def)

lemma cf6_row_days: "cf6_row b = Some r \<Longrightarrow> 1 \<le> fst r \<and> fst r \<le> 31"
  by (auto simp: cf6_row_def split: list.splits from_chars_result.splits if_splits option.splits)

lemma cf6_table_days: "r \<in> set (cf6_table ls) \<Longrightarrow> 1 \<le> fst r \<and> fst r \<le> 31"
proof -
  assume "r \<in> set (cf6_table ls)"
  then obtain b where "cf6_row b = Some r" by (auto simp: cf6_table_def List.map_filter_def)
  then show ?thesis by (rule cf6_row_days)
qed

lemma cf6_loop_result:
  shows "cf6_month (cf6_loop ls cf6_init) = first_found 0 cf6_month_of (cf6_read ls)"
    and "cf6_year (cf6_loop ls cf6_init) = first_found 0 cf6_year_of (cf6_read ls)"
    and "station_3letter (cf6_loop ls cf6_init) = first_found [] cf6_station_of (cf6_read ls)"
    and "case latest (cf6_table ls) of
           None \<Rightarrow> best_day (cf6_loop ls cf6_init) = 0
         | Some (d, a, b) \<Rightarrow> best_day (cf6_loop ls cf6_init) = d \<and> 1 \<le> d \<and>
             best_tmax (cf6_loop ls cf6_init) = Some a \<and> best_tmin (cf6_loop ls cf6_init) = Some b"
proof -
  let ?f = "foldl (\<lambda>st line. cf6_header_fields line st) cf6_init (cf6_read ls)"
  have "\<not> past_data_header cf6_init" by (simp add: cf6_init_def)
  then obtain b where loop: "cf6_loop ls cf6_init =
      foldl (\<lambda>st r. cf6_keep (Some r) st) (?f\<lparr>past_data_header := b\<rparr>) (cf6_table ls)"
    using cf6_loop_phases by blast
  show "cf6_month (cf6_loop ls cf6_init) = first_found 0 cf6_month_of (cf6_read ls)"
    "cf6_year (cf6_loop ls cf6_init) = first_found 0 cf6_year_of (cf6_read ls)"
    "station_3letter (cf6_loop ls cf6_init) = first_found [] cf6_station_of (cf6_read ls)"
    by (simp_all add: loop foldl_fields) (simp_all add: cf6_init_def)
  have best: "best_day (?f\<lparr>past_data_header := b\<rparr>) = 0" by (simp add: foldl_fields) (simp add: cf6_init_def)
  have "\<forall>r\<in>set (cf6_table ls). 1 \<le> fst r" using cf6_table_days by blast
  from keep_all [OF best this] best show "case latest (cf6_table ls) of
      None \<Rightarrow> best_day (cf6_loop ls cf6_init) = 0
    | Some (d, a, b) \<Rightarrow> best_day (cf6_loop ls cf6_init) = d \<and> 1 \<le> d \<and>
        best_tmax (cf6_loop ls cf6_init) = Some a \<and> best_tmin (cf6_loop ls cf6_init) = Some b"
    by (auto simp: loop split: option.splits)
qed

section \<open>What the report loop computes\<close>

text \<open>The lines of the temperature sections.\<close>

fun temperature_lines :: "bool \<Rightarrow> string list \<Rightarrow> string list" where
  "temperature_lines inside [] = []"
| "temperature_lines inside (line # ls) =
    (if icontains line ''TEMPERATURE'' then temperature_lines True ls
     else if inside \<and> \<not> ends_temperature line then line # temperature_lines True ls
     else temperature_lines False ls)"

lemma cli_line_fields:
  "station (fst (cli_line p line)) = (if station (fst p) = [] then cli_station_of line else station (fst p))"
  "date (fst (cli_line p line)) = (if date (fst p) = [] then cli_date_of line else date (fst p))"
  "is_preliminary (fst (cli_line p line)) = is_preliminary (fst p)"
  "is_corrected (fst (cli_line p line)) = is_corrected (fst p)"
  "source (fst (cli_line p line)) = source (fst p)"
  "issuance_time (fst (cli_line p line)) = issuance_time (fst p)"
  by (cases p; simp add: cli_header_fields_def cli_temperatures_def)+

lemma cli_line_temperatures:
  "snd (cli_line p line) = (icontains line ''TEMPERATURE'' \<or> snd p \<and> \<not> ends_temperature line)"
  "tmax_f (fst (cli_line p line)) =
     (if \<not> icontains line ''TEMPERATURE'' \<and> snd p \<and> \<not> ends_temperature line \<and> tmax_f (fst p) = None
      then labelled_int ''MAXIMUM'' line else tmax_f (fst p))"
  "tmin_f (fst (cli_line p line)) =
     (if \<not> icontains line ''TEMPERATURE'' \<and> snd p \<and> \<not> ends_temperature line \<and> tmin_f (fst p) = None
      then labelled_int ''MINIMUM'' line else tmin_f (fst p))"
  by (cases p; simp add: cli_header_fields_def cli_temperatures_def)+

declare cli_line.simps [simp del]

lemma cli_loop_fields:
  "station (fst (foldl cli_line p ls)) =
     (if station (fst p) = [] then first_found [] cli_station_of ls else station (fst p))"
  "date (fst (foldl cli_line p ls)) =
     (if date (fst p) = [] then first_found [] cli_date_of ls else date (fst p))"
  "is_preliminary (fst (foldl cli_line p ls)) = is_preliminary (fst p)"
  "is_corrected (fst (foldl cli_line p ls)) = is_corrected (fst p)"
  "source (fst (foldl cli_line p ls)) = source (fst p)"
  "issuance_time (fst (foldl cli_line p ls)) = issuance_time (fst p)"
  by (induction ls arbitrary: p; simp add: cli_line_fields)+

lemma cli_loop_temperatures:
  "tmax_f (fst (foldl cli_line p ls)) =
     (if tmax_f (fst p) = None then first_found None (labelled_int ''MAXIMUM'') (temperature_lines (snd p) ls)
      else tmax_f (fst p))"
  "tmin_f (fst (foldl cli_line p ls)) =
     (if tmin_f (fst p) = None then first_found None (labelled_int ''MINIMUM'') (temperature_lines (snd p) ls)
      else tmin_f (fst p))"
  by (induction ls arbitrary: p; auto simp: cli_line_temperatures)+

text \<open>The report of a product without the CF6 banner, from the fields the loop finds.\<close>

definition cli_report :: "string \<Rightarrow> string list \<Rightarrow> CliReport" where
  "cli_report text ls =
     \<lparr>station = first_found [] cli_station_of ls, date = first_found [] cli_date_of ls,
      tmax_f = first_found None (labelled_int ''MAXIMUM'') (temperature_lines False ls),
      tmin_f = first_found None (labelled_int ''MINIMUM'') (temperature_lines False ls),
      is_preliminary = True, is_corrected = corrected text, source = ''nws_api_cli'', issuance_time = []\<rparr>"

lemma cli_parse_report:
  assumes "text \<noteq> []" and "\<not> cf6_banner text"
  shows "parse_cli_product_text text =
    (let r = cli_report text (lines_of text)
     in if station r = [] \<and> date r = [] \<and> tmax_f r = None \<and> tmin_f r = None
        then Inl (Error_parse ''unrecognized CLI/CF6 product layout'') else Inr r)"
proof -
  let ?r = "default_CliReport\<lparr>source := ''nws_api_cli'', is_preliminary := True, is_corrected := corrected text\<rparr>"
  have "fst (foldl cli_line (?r, False) (lines_of text)) = cli_report text (lines_of text)"
    by (rule CliReport.equality)
      (simp_all add: cli_loop_fields cli_loop_temperatures cli_report_def default_CliReport_def)
  then show ?thesis using assms by (simp add: parse_cli_product_text_def Let_def)
qed

section \<open>Dates\<close>

lemma month_of_word_range: "month_of_word w = Some m \<Longrightarrow> 1 \<le> m \<and> m \<le> 12"
  by (auto simp: month_of_word_def kM_def split: if_splits dest!: find_index_Some)

lemma month_scan_range: "month_scan i s = Some (m, j) \<Longrightarrow> 1 \<le> m \<and> m \<le> 12"
proof (induction i s rule: month_scan.induct)
  case (1 i s)
  let ?f = "dropWhile (\<lambda>c. \<not> isalpha c) s"
  have ne: "s \<noteq> []" using "1.prems" by (auto simp: month_scan.simps)
  show ?case
  proof (cases "month_of_word (takeWhile isalpha ?f)")
    case None
    with "1.prems" ne have "month_scan (i + (length s - length (dropWhile isalpha ?f))) (dropWhile isalpha ?f) = Some (m, j)"
      by (subst (asm) month_scan.simps) (simp add: Let_def)
    with "1.IH" [OF ne refl refl refl refl None] show ?thesis by simp
  next
    case (Some m')
    with "1.prems" ne have "m' = m" by (subst (asm) month_scan.simps) (simp add: Let_def)
    with Some month_of_word_range show ?thesis by blast
  qed
qed

lemma month_num_range: "fst (month_num line) \<noteq> 0 \<Longrightarrow> 1 \<le> fst (month_num line) \<and> fst (month_num line) \<le> 12"
  by (auto simp: month_num_def split: option.splits dest: month_scan_range)

lemma zero_padded_digits:
  "0 \<le> i \<Longrightarrow> list_all isdigit (zero_padded w i) \<and> digits_value (zero_padded w i) = i"
proof -
  assume i: "0 \<le> i"
  have z: "isdigit (CHR ''0'')" by (simp add: isdigit_def)
  have "digits_value (replicate n (CHR ''0'') @ ds) = digits_value ds" for n ds
    by (induction n) (simp_all add: digits_value_def)
  with i nat_to_string_isdigit [of "nat i"] show ?thesis
    by (auto simp: zero_padded_def Let_def z list_all_iff)
qed

lemma length_nat_to_string:
  "n < 10 \<Longrightarrow> length (nat_to_string n) = 1"
  "10 \<le> n \<Longrightarrow> length (nat_to_string n) = Suc (length (nat_to_string (n div 10)))"
  by (subst nat_to_string.simps; simp)+

lemma length_zero_padded_2: "0 \<le> i \<Longrightarrow> i < 100 \<Longrightarrow> length (zero_padded 2 i) = 2"
  using length_nat_to_string [of "nat i"] length_nat_to_string(1) [of "nat i div 10"]
  by (cases "nat i < 10") (auto simp: zero_padded_def)

lemma length_zero_padded_4:
  assumes "1000 \<le> i" and "i < 10000"
  shows "length (zero_padded 4 i) = 4"
proof -
  let ?n = "nat i"
  have "1000 \<le> ?n" "?n < 10000" using assms by linarith+
  then have "10 \<le> ?n \<and> 10 \<le> ?n div 10 \<and> 10 \<le> ?n div 10 div 10 \<and> ?n div 10 div 10 div 10 < 10"
    by auto
  then have "length (nat_to_string ?n) = 4" by (simp add: length_nat_to_string)
  with assms show ?thesis by (simp add: zero_padded_def)
qed

lemma from_chars_digits:
  assumes "list_all isdigit ds" and "ds \<noteq> []" and "digits_value ds \<le> 2147483647" and "0 \<le> digits_value ds"
  shows "from_chars ds = Converted (digits_value ds) (length ds)"
proof -
  have tw: "takeWhile isdigit ds = ds" using assms(1) by (simp add: list_all_iff)
  have "(case ds of c # _ \<Rightarrow> c = CHR ''-'' | [] \<Rightarrow> False) = False" using assms(1) by (cases ds) auto
  then show ?thesis using assms by (simp add: from_chars_def Let_def tw)
qed

text \<open>A date that reads back: four, two and two digits between hyphens, in the ranges of a calendar.\<close>

definition iso_date :: "string \<Rightarrow> int \<Rightarrow> int \<Rightarrow> int \<Rightarrow> bool" where
  "iso_date s y m d \<longleftrightarrow> length s = 10 \<and> s ! 4 = CHR ''-'' \<and> s ! 7 = CHR ''-'' \<and>
     from_chars (substr s 0 4) = Converted y 4 \<and> from_chars (substr s 5 2) = Converted m 2 \<and>
     from_chars (substr s 8 2) = Converted d 2 \<and>
     1900 \<le> y \<and> y \<le> 2200 \<and> 1 \<le> m \<and> m \<le> 12 \<and> 1 \<le> d \<and> d \<le> 31"

lemma date_text_iso:
  assumes "1900 \<le> y" "y \<le> 2200" and "1 \<le> m" "m \<le> 12" and "1 \<le> d" "d \<le> 31"
  shows "iso_date (date_text y m d) y (int m) d"
proof -
  let ?y = "zero_padded 4 y" and ?m = "zero_padded 2 (int m)" and ?d = "zero_padded 2 d"
  have len: "length ?y = 4" "length ?m = 2" "length ?d = 2"
    using assms by (simp_all add: length_zero_padded_2 length_zero_padded_4)
  then have ne: "?y \<noteq> []" "?m \<noteq> []" "?d \<noteq> []" by auto
  have read: "from_chars ?y = Converted y 4" "from_chars ?m = Converted (int m) 2" "from_chars ?d = Converted d 2"
    using zero_padded_digits [of y 4] zero_padded_digits [of "int m" 2] zero_padded_digits [of d 2] assms len
      from_chars_digits [OF _ ne(1)] from_chars_digits [OF _ ne(2)] from_chars_digits [OF _ ne(3)] by auto
  have "date_text y m d = ?y @ ''-'' @ ?m @ ''-'' @ ?d" by (simp add: date_text_def len)
  then show ?thesis using assms read len by (simp add: iso_date_def substr_def nth_append)
qed

lemma day_year_range:
  "foldl day_year (dd, yyyy) vs = (Some d, Some y) \<Longrightarrow>
   (\<forall>d. dd = Some d \<longrightarrow> 1 \<le> d \<and> d \<le> 31) \<Longrightarrow> (\<forall>y. yyyy = Some y \<longrightarrow> 1900 \<le> y \<and> y \<le> 2200) \<Longrightarrow>
   1 \<le> d \<and> d \<le> 31 \<and> 1900 \<le> y \<and> y \<le> 2200"
  by (induction vs arbitrary: dd yyyy) (auto split: if_splits)

lemma cli_date_of_iso: "cli_date_of line = [] \<or> (\<exists>y m d. iso_date (cli_date_of line) y m d)"
proof (cases "icontains line ''FOR '' \<and> fst (month_num line) \<noteq> 0")
  case True
  obtain mm e where mn: "month_num line = (mm, e)" by (cases "month_num line")
  obtain dd yyyy where dy: "foldl day_year (None, None) (digit_runs (drop e line)) = (dd, yyyy)"
    by (cases "foldl day_year (None, None) (digit_runs (drop e line))")
  show ?thesis
  proof (cases "\<exists>d y. dd = Some d \<and> yyyy = Some y")
    case True
    then obtain d y where "dd = Some d" "yyyy = Some y" by blast
    with dy have "1 \<le> d \<and> d \<le> 31 \<and> 1900 \<le> y \<and> y \<le> 2200" using day_year_range [of None None] by simp
    moreover have "1 \<le> mm \<and> mm \<le> 12" using month_num_range [of line] mn
      \<open>icontains line ''FOR '' \<and> fst (month_num line) \<noteq> 0\<close> by simp
    moreover have "cli_date_of line = date_text y mm d"
      using \<open>icontains line ''FOR '' \<and> fst (month_num line) \<noteq> 0\<close> dy \<open>dd = Some d\<close> \<open>yyyy = Some y\<close>
      by (simp add: cli_date_of_def mn)
    ultimately show ?thesis using date_text_iso by metis
  next
    case False
    then have "cli_date_of line = []" by (auto simp: cli_date_of_def mn dy split: option.splits)
    then show ?thesis by simp
  qed
qed (auto simp: cli_date_of_def)

lemma cf6_year_of_range: "cf6_year_of line \<noteq> 0 \<Longrightarrow> 1900 \<le> cf6_year_of line \<and> cf6_year_of line \<le> 2200"
  by (auto simp: cf6_year_of_def find_Some_iff split: if_splits option.splits)

lemma cf6_month_of_range: "cf6_month_of line \<noteq> 0 \<Longrightarrow> 1 \<le> cf6_month_of line \<and> cf6_month_of line \<le> 12"
  using month_num_range by (auto simp: cf6_month_of_def split: if_splits)

section \<open>Properties\<close>

text \<open>
  C20: the monthly table: between the column header and the first summary line, the parser takes the
  first row of the latest day that has both temperatures; the month, the year and the site are the
  first the lines up to there give. Without such a row, a month or a year the product is rejected.
\<close>

theorem cf6_latest_day:
  "parse_cf6_product_text text =
    (let ls = lines_of text; seen = cf6_read ls;
         month = first_found 0 cf6_month_of seen; year = first_found 0 cf6_year_of seen;
         site = first_found [] cf6_station_of seen
     in case latest (cf6_table ls) of
          None \<Rightarrow> Inl (Error_parse ''unrecognized CLI/CF6 product layout'')
        | Some (day, tmax, tmin) \<Rightarrow>
            if month = 0 \<or> year = 0 then Inl (Error_parse ''unrecognized CLI/CF6 product layout'')
            else Inr \<lparr>station = (if site = [] then [] else CHR ''K'' # site), date = date_text year month day,
                   tmax_f = Some tmax, tmin_f = Some tmin, is_preliminary = icontains text ''PRELIMINARY'',
                   is_corrected = corrected text, source = ''nws_api_cf6'', issuance_time = []\<rparr>)"
  using cf6_loop_result [of "lines_of text"]
  by (auto simp: parse_cf6_product_text_def Let_def default_CliReport_def split: option.splits)

text \<open>
  C36: the date of a parsed report is empty or a complete ISO date whose year, month and day read back
  in their ranges, so the ten-character buffer never cuts it; a report from a monthly table always
  has a date and both temperatures.
\<close>

theorem cli_date_valid:
  assumes "parse_cli_product_text text = Inr r"
  shows "(date r = [] \<or> (\<exists>y m d. iso_date (date r) y m d)) \<and>
         (cf6_banner text \<longrightarrow> date r \<noteq> [] \<and> tmax_f r \<noteq> None \<and> tmin_f r \<noteq> None)"
proof (cases "cf6_banner text")
  case True
  let ?ls = "lines_of text"
  let ?st = "cf6_loop ?ls cf6_init"
  note res = cf6_loop_result [of ?ls]
  from assms True have ok: "cf6_month ?st \<noteq> 0" "cf6_year ?st \<noteq> 0" "best_day ?st \<noteq> 0"
      and r: "date r = date_text (cf6_year ?st) (cf6_month ?st) (best_day ?st)" "tmax_f r = best_tmax ?st" "tmin_f r = best_tmin ?st"
    by (auto simp: parse_cli_product_text_def parse_cf6_product_text_def Let_def split: if_splits)
  have m: "1 \<le> cf6_month ?st \<and> cf6_month ?st \<le> 12"
    using ok(1) first_found_cases [of 0 cf6_month_of "cf6_read ?ls"] cf6_month_of_range unfolding res(1) by fastforce
  have y: "1900 \<le> cf6_year ?st \<and> cf6_year ?st \<le> 2200"
    using ok(2) first_found_cases [of 0 cf6_year_of "cf6_read ?ls"] cf6_year_of_range unfolding res(2) by fastforce
  obtain d a b where l: "latest (cf6_table ?ls) = Some (d, a, b)"
      "best_day ?st = d" "best_tmax ?st = Some a" "best_tmin ?st = Some b"
    using res(4) ok(3) by (auto split: option.splits)
  from l(1) have "(d, a, b) \<in> set (cf6_table ?ls)" by (auto simp: latest_def find_Some_iff)
  with cf6_table_days l(2) have "1 \<le> best_day ?st \<and> best_day ?st \<le> 31" by fastforce
  with m y have "iso_date (date r) (cf6_year ?st) (int (cf6_month ?st)) (best_day ?st)"
    unfolding r(1) by (intro date_text_iso) simp_all
  then show ?thesis using r l by (auto simp: iso_date_def)
next
  case False
  from assms have "text \<noteq> []" by (auto simp: parse_cli_product_text_def)
  from assms cli_parse_report [OF this False] have "date r = first_found [] cli_date_of (lines_of text)"
    by (auto simp: Let_def cli_report_def split: if_splits)
  with False first_found_cases [of "[]" cli_date_of "lines_of text"] cli_date_of_iso show ?thesis by metis
qed

theorem cli_date_valid_witness:
  "\<exists>r. parse_cli_product_text ''CLIMATE SUMMARY FOR MAY 16 2026'' = Inr r \<and>
       (date r = [] \<or> (\<exists>y m d. iso_date (date r) y m d))"
proof -
  let ?t = "''CLIMATE SUMMARY FOR MAY 16 2026''"
  have "\<not> cf6_banner ?t" "lines_of ?t = [?t]" "cli_date_of ?t = ''2026-05-16''" by code_simp+
  then have "\<exists>r. parse_cli_product_text ?t = Inr r"
    using cli_parse_report [of ?t] by (simp add: cli_report_def Let_def)
  then show ?thesis using cli_date_valid by blast
qed

text \<open>
  A station name that starts like a month is taken for it; a missing value (\<open>MM\<close>) lets the next
  number of the line stand for it; and a number too large for an \<open>int\<close> gives its last digits.
\<close>

lemma month_of_city: "cli_date_of ''...THE JUNEAU CLIMATE SUMMARY FOR MAY 16 2026...'' = ''2026-06-16''"
  by code_simp

lemma missing_maximum: "labelled_int ''MAXIMUM'' ''  MAXIMUM         MM   320 PM'' = Some (double_of_int 320)"
proof -
  have "ifind ''  MAXIMUM         MM   320 PM'' ''MAXIMUM'' = Some 2" by code_simp
  moreover have "from_chars ''320'' = Converted 320 3" by code_simp
  moreover have "\<not> isdigit (CHR '' '')" "\<not> isdigit (CHR ''M'')" "isdigit (CHR ''3'')" "isdigit (CHR ''2'')" "isdigit (CHR ''0'')"
    by code_simp+
  ultimately show ?thesis by (simp add: labelled_int_def)
qed

lemma oversized_number: "first_int ''99999999999'' = Some (double_of_int 999999999)"
proof -
  have "from_chars ''99999999999'' = Result_out_of_range 11" "from_chars ''9999999999'' = Result_out_of_range 10"
    "from_chars ''999999999'' = Converted 999999999 9" "isdigit (CHR ''9'')"
    by code_simp+
  then show ?thesis by simp
qed

end
