(* ===== verification/Cli_Roundtrip.thy ===== *)
theory Cli_Roundtrip
  imports Cli_Report
begin

text \<open>
  A printer of daily climate reports, and the proof that \<open>parse_cli_product_text\<close> reads back what it prints:
  the parts of \<open>src/models/cli_report.cpp\<close> that scan for numbers, month names and labels are followed
  through a whole report.
\<close>

section \<open>Printing\<close>

text \<open>
  A printer of daily reports, for sites named by three capital letters: the WMO header names the
  issuing office, the AWIPS line below it the site.
\<close>

definition month_names :: "string list" where
  "month_names = [''JANUARY'', ''FEBRUARY'', ''MARCH'', ''APRIL'', ''MAY'', ''JUNE'', ''JULY'', ''AUGUST'', ''SEPTEMBER'',
     ''OCTOBER'', ''NOVEMBER'', ''DECEMBER'']"

definition date_line :: "nat \<Rightarrow> nat \<Rightarrow> nat \<Rightarrow> string" where
  "date_line y m d = join_with (CHR '' '')
     [''CLIMATE'', ''SUMMARY'', ''FOR'', month_names ! (m - 1), nat_to_string d, nat_to_string y]"

definition show_cli :: "string \<Rightarrow> string \<Rightarrow> string \<Rightarrow> nat \<Rightarrow> nat \<Rightarrow> nat \<Rightarrow> int \<Rightarrow> int \<Rightarrow> string" where
  "show_cli eol office site y m d tmax tmin = concat (map (\<lambda>line. line @ eol)
     [''CDUS41 K'' @ office, ''CLI'' @ site, date_line y m d, ''TEMPERATURE (F)'', ''  MAXIMUM  '' @ int_to_string tmax,
      ''  MINIMUM  '' @ int_to_string tmin])"

lemma text_icontains:
  assumes "newline \<notin> set needle" "carriage_return \<notin> set needle" "needle \<noteq> []" "map toupper needle = needle"
    and "eol = [newline] \<or> eol = [carriage_return, newline]"
  shows "icontains (concat (map (\<lambda>line. line @ eol) ls)) needle \<longleftrightarrow> (\<exists>line\<in>set ls. icontains line needle)"
proof (induction ls)
  case Nil
  show ?case using assms(3) by (auto simp: icontains_sublist)
next
  case (Cons line ls)
  have u: "toupper newline = newline" "toupper carriage_return = carriage_return" by (simp_all add: toupper_id)
  from assms(5) have "icontains (line @ eol @ rest) needle \<longleftrightarrow> icontains line needle \<or> icontains rest needle" for rest
  proof
    assume "eol = [newline]"
    with assms(1) show ?thesis by (simp add: icontains_sublist assms(4) u sublist_split)
  next
    assume "eol = [carriage_return, newline]"
    with assms(1,2,3) sublist_split [of newline needle "[]" "map toupper rest"] show ?thesis
      by (simp add: icontains_sublist assms(4) u sublist_split)
  qed
  with Cons show ?case by simp
qed

text \<open>Numbers in a line.\<close>

lemma map_toupper_number [simp]: "map toupper (int_to_string i) = int_to_string i"
  by (rule map_idI) (auto dest!: int_to_string_chars simp: isdigit_def toupper_id)

lemma map_toupper_nat [simp]: "map toupper (nat_to_string n) = nat_to_string n"
  using map_toupper_number [of "int n"] by (simp add: int_to_string_def)

lemma first_int_skip [simp]: "\<not> isdigit c \<Longrightarrow> c \<noteq> CHR ''-'' \<Longrightarrow> first_int (c # s) = first_int s"
  by simp

lemma first_int_number:
  assumes "int32_range i"
  shows "first_int (int_to_string i) = Some (double_of_int i)"
proof -
  have conv: "from_chars (int_to_string i) = Converted i (length (int_to_string i))"
    using from_chars_int_to_string [of i "[]"] assms by simp
  obtain c s where cs: "int_to_string i = c # s" by (cases "int_to_string i") auto
  have s: "takeWhile isdigit s = s \<and> (isdigit c \<or> c = CHR ''-'' \<and> s \<noteq> [] \<and> isdigit (hd s))"
  proof (cases "i < 0")
    case True
    then have "c = CHR ''-''" "s = nat_to_string (nat (- i))" using cs by (simp_all add: int_to_string_def)
    then show ?thesis using takeWhile_nat_to_string [of "[]"] nat_to_string_hd by simp
  next
    case False
    then have "nat_to_string (nat i) = c # s" using cs by (simp add: int_to_string_def)
    then show ?thesis using nat_to_string_isdigit [of "nat i"] by (simp add: list_all_iff)
  qed
  show ?thesis using conv s unfolding cs first_int.simps by (simp only: if_True) simp
qed

lemma digit_runs_skip: "\<not> isdigit c \<Longrightarrow> digit_runs (c # s) = digit_runs s"
proof (cases s)
  case Nil
  moreover assume "\<not> isdigit c"
  ultimately show ?thesis by (subst digit_runs.simps) (simp add: Let_def digit_runs.simps [of "[]"])
next
  case (Cons d ds)
  moreover assume "\<not> isdigit c"
  ultimately show ?thesis by (subst (1 2) digit_runs.simps) simp
qed

lemma digit_runs_number:
  assumes "n \<le> 2147483647" and "s = [] \<or> \<not> isdigit (hd s)"
  shows "digit_runs (nat_to_string n @ s) = int n # digit_runs s"
proof -
  have v: "run_value (nat_to_string n) = int n"
    using from_chars_int_to_string [of "int n" "[]"] assms(1) by (simp add: run_value_def int_to_string_def)
  have dw: "dropWhile (\<lambda>c. \<not> isdigit c) (nat_to_string n @ s) = nat_to_string n @ s"
    using nat_to_string_hd [of n] by (cases "nat_to_string n") auto
  have "digit_runs (nat_to_string n @ s) = int n # digit_runs (drop 1 s)"
    by (subst digit_runs.simps)
      (simp add: Let_def dw takeWhile_nat_to_string [OF assms(2)] dropWhile_nat_to_string [OF assms(2)] v)
  also have "digit_runs (drop 1 s) = digit_runs s" using assms(2) digit_runs_skip by (cases s) simp_all
  finally show ?thesis .
qed

text \<open>Words before the month.\<close>

lemma month_scan_word:
  assumes "list_all isalpha w" and "w \<noteq> []" and "s = [] \<or> \<not> isalpha (hd s)"
  shows "month_scan i (w @ s) =
    (case month_of_word w of Some m \<Rightarrow> Some (m, i + length w) | None \<Rightarrow> month_scan (i + length w) s)"
proof -
  have f: "dropWhile (\<lambda>c. \<not> isalpha c) (w @ s) = w @ s" using assms(1,2) by (cases w) auto
  have t: "takeWhile isalpha (w @ s) = w" "dropWhile isalpha (w @ s) = s"
    using assms by (cases s; auto simp: list_all_iff takeWhile_append2 dropWhile_append2)+
  show ?thesis using assms(2) by (subst month_scan.simps) (simp add: Let_def f t split: option.split)
qed

lemma month_scan_skip:
  assumes "\<not> isalpha c" and "s \<noteq> []"
  shows "month_scan i (c # s) = month_scan (Suc i) s"
proof -
  let ?f = "dropWhile (\<lambda>c. \<not> isalpha c) s"
  let ?r = "dropWhile isalpha ?f"
  have f: "dropWhile (\<lambda>c. \<not> isalpha c) (c # s) = ?f" using assms(1) by simp
  have "length ?r \<le> length s" by (rule order_trans [OF length_dropWhile_le length_dropWhile_le])
  then have j: "i + (length (c # s) - length ?r) = Suc i + (length s - length ?r)" by simp
  have "month_scan i (c # s) = (case month_of_word (takeWhile isalpha ?f) of
      Some m \<Rightarrow> Some (m, Suc i + (length s - length ?r)) | None \<Rightarrow> month_scan (Suc i + (length s - length ?r)) ?r)"
    by (subst month_scan.simps) (simp only: f Let_def j list.distinct if_False)
  also have "\<dots> = month_scan (Suc i) s"
    by (subst (2) month_scan.simps) (simp only: Let_def assms(2) if_False)
  finally show ?thesis .
qed

lemma month_names_facts:
  assumes "1 \<le> m" and "m \<le> 12"
  shows "list_all isupper (month_names ! (m - 1))" "month_of_word (month_names ! (m - 1)) = Some m"
    "\<not> sublist ''TEMPERATURE'' (month_names ! (m - 1))" "\<not> sublist ''CORRECTED'' (month_names ! (m - 1))"
    "CHR ''W'' \<notin> set (month_names ! (m - 1))" "month_names ! (m - 1) \<noteq> []"
proof -
  have "\<forall>k\<in>set [0..<12]. list_all isupper (month_names ! k) \<and> month_of_word (month_names ! k) = Some (Suc k) \<and>
      \<not> sublist ''TEMPERATURE'' (month_names ! k) \<and> \<not> sublist ''CORRECTED'' (month_names ! k) \<and>
      CHR ''W'' \<notin> set (month_names ! k) \<and> month_names ! k \<noteq> []"
    by code_simp
  moreover have "m - 1 \<in> set [0..<12]" "Suc (m - 1) = m" using assms by auto
  ultimately show "list_all isupper (month_names ! (m - 1))" "month_of_word (month_names ! (m - 1)) = Some m"
    "\<not> sublist ''TEMPERATURE'' (month_names ! (m - 1))" "\<not> sublist ''CORRECTED'' (month_names ! (m - 1))"
    "CHR ''W'' \<notin> set (month_names ! (m - 1))" "month_names ! (m - 1) \<noteq> []"
    by metis+
qed

lemma isupper_isalpha: "list_all isupper w \<Longrightarrow> list_all isalpha w"
  by (auto simp: list_all_iff isalpha_def)

lemma map_toupper_upper: "list_all isupper w \<Longrightarrow> map toupper w = w"
  by (rule map_idI) (auto simp: list_all_iff)

lemma site_line:
  assumes "list_all isupper [a, b, c]"
  shows "plain_line (''CDUS41 K'' @ [a, b, c])" "cli_station_of (''CDUS41 K'' @ [a, b, c]) = CHR ''K'' # [a, b, c]"
    "cli_date_of (''CDUS41 K'' @ [a, b, c]) = []" "\<not> icontains (''CDUS41 K'' @ [a, b, c]) ''TEMPERATURE''"
    "\<not> cf6_banner (''CDUS41 K'' @ [a, b, c])" "\<not> corrected (''CDUS41 K'' @ [a, b, c])"
proof -
  have abc: "isupper a" "isupper b" "isupper c" using assms by simp_all
  have pre: "map toupper ''CDUS41 K'' = ''CDUS41 K''" by code_simp
  have up: "map toupper (''CDUS41 K'' @ [a, b, c]) = ''CDUS41 K'' @ [a, b, c]"
    unfolding map_append pre using abc by simp
  have needles: "map toupper ''TEMPERATURE'' = ''TEMPERATURE''" "map toupper ''FOR '' = ''FOR ''"
    "map toupper ''WS FORM: F-6'' = ''WS FORM: F-6''" "map toupper ''WS FORM F-6'' = ''WS FORM F-6''"
    "map toupper ''WS FORM:  F-6'' = ''WS FORM:  F-6''" "map toupper ''CORRECTED'' = ''CORRECTED''"
    "map toupper ''...COR'' = ''...COR''"
    by code_simp+
  have "c \<noteq> newline" "c \<noteq> carriage_return" "b \<noteq> newline" "a \<noteq> newline" using abc by (auto simp: isupper_def)
  then show "plain_line (''CDUS41 K'' @ [a, b, c])" by (auto simp: plain_line_iff)
  show "cli_station_of (''CDUS41 K'' @ [a, b, c]) = CHR ''K'' # [a, b, c]"
    using abc by (simp add: cli_station_of_def substr_def)
  have "\<not> icontains (''CDUS41 K'' @ [a, b, c]) ''FOR ''"
    unfolding icontains_sublist up needles by (simp add: sublist_Cons_right)
  then show "cli_date_of (''CDUS41 K'' @ [a, b, c]) = []" by (simp add: cli_date_of_def)
  show "\<not> icontains (''CDUS41 K'' @ [a, b, c]) ''TEMPERATURE''"
    unfolding icontains_sublist up needles by (simp add: sublist_Cons_right)
  show "\<not> cf6_banner (''CDUS41 K'' @ [a, b, c])" "\<not> corrected (''CDUS41 K'' @ [a, b, c])"
    unfolding cf6_banner_def corrected_def icontains_sublist up needles by (simp_all add: sublist_Cons_right)
qed

lemma awips_line:
  assumes "list_all isupper [a, b, c]"
  shows "plain_line (''CLI'' @ [a, b, c])" "cli_date_of (''CLI'' @ [a, b, c]) = []"
    "\<not> icontains (''CLI'' @ [a, b, c]) ''TEMPERATURE''" "\<not> cf6_banner (''CLI'' @ [a, b, c])"
    "\<not> corrected (''CLI'' @ [a, b, c])"
proof -
  have abc: "isupper a" "isupper b" "isupper c" using assms by simp_all
  have pre: "map toupper ''CLI'' = ''CLI''" by code_simp
  have up: "map toupper (''CLI'' @ [a, b, c]) = ''CLI'' @ [a, b, c]" unfolding map_append pre using abc by simp
  have short: "\<not> icontains (''CLI'' @ [a, b, c]) n" if "6 < length n" for n
    using that sublist_length_le [of "map toupper n" "''CLI'' @ [a, b, c]"] unfolding icontains_sublist up by auto
  have needles: "map toupper ''FOR '' = ''FOR ''" "map toupper ''...COR'' = ''...COR''" by code_simp+
  have "CHR '' '' \<notin> set (''CLI'' @ [a, b, c])" "CHR ''.'' \<notin> set (''CLI'' @ [a, b, c])" using abc by (auto simp: isupper_def)
  then have "\<not> icontains (''CLI'' @ [a, b, c]) ''FOR ''" and dots: "\<not> icontains (''CLI'' @ [a, b, c]) ''...COR''"
    unfolding icontains_sublist up needles by (auto dest: sublist_set)
  then show "cli_date_of (''CLI'' @ [a, b, c]) = []" by (simp add: cli_date_of_def)
  have "c \<noteq> newline" "c \<noteq> carriage_return" "b \<noteq> newline" "a \<noteq> newline" using abc by (auto simp: isupper_def)
  then show "plain_line (''CLI'' @ [a, b, c])" by (auto simp: plain_line_iff)
  show "\<not> icontains (''CLI'' @ [a, b, c]) ''TEMPERATURE''" by (rule short) simp
  show "\<not> cf6_banner (''CLI'' @ [a, b, c])" "\<not> corrected (''CLI'' @ [a, b, c])"
    unfolding cf6_banner_def corrected_def using short dots by simp_all
qed

lemma date_line_words:
  assumes "1 \<le> m" and "m \<le> 12"
  shows "map toupper (date_line y m d) = date_line y m d"
    and "CHR '' '' \<notin> set needle \<Longrightarrow> needle \<noteq> [] \<Longrightarrow> c \<in> set needle \<Longrightarrow> \<not> isdigit c \<Longrightarrow>
      c \<noteq> CHR ''-'' \<Longrightarrow> sublist needle (date_line y m d) \<longleftrightarrow>
        sublist needle ''CLIMATE'' \<or> sublist needle ''SUMMARY'' \<or> sublist needle ''FOR'' \<or>
        sublist needle (month_names ! (m - 1))"
    and "set (date_line y m d) \<subseteq> {x. isupper x \<or> isdigit x \<or> x = CHR '' ''}"
    and "CHR ''W'' \<notin> set (date_line y m d)"
proof -
  let ?ws = "[''CLIMATE'', ''SUMMARY'', ''FOR'', month_names ! (m - 1), nat_to_string d, nat_to_string y]"
  have lit: "list_all isupper ''CLIMATE''" "list_all isupper ''SUMMARY''" "list_all isupper ''FOR''" by code_simp+
  have num: "x \<in> set (nat_to_string n) \<Longrightarrow> isdigit x" for x n
    using nat_to_string_isdigit [of n] by (simp add: list_all_iff)
  have sub: "set (date_line y m d) \<subseteq> insert (CHR '' '') (\<Union> (set ` set ?ws))"
    unfolding date_line_def by (rule set_join_with)
  have words: "isupper x \<or> isdigit x" if "w \<in> set ?ws" "x \<in> set w" for w x
    using that lit month_names_facts(1) [OF assms] num by (auto simp: list_all_iff)
  with sub show chars: "set (date_line y m d) \<subseteq> {x. isupper x \<or> isdigit x \<or> x = CHR '' ''}" by blast
  show "map toupper (date_line y m d) = date_line y m d"
    by (rule map_idI) (use chars in \<open>auto simp: toupper_id\<close>)
  show "CHR ''W'' \<notin> set (date_line y m d)"
    using sub month_names_facts(5) [OF assms] num [of "CHR ''W''"] by (auto simp: isdigit_def)
  show "sublist needle (date_line y m d) \<longleftrightarrow>
      sublist needle ''CLIMATE'' \<or> sublist needle ''SUMMARY'' \<or> sublist needle ''FOR'' \<or>
      sublist needle (month_names ! (m - 1))"
    if n: "CHR '' '' \<notin> set needle" "needle \<noteq> []" "c \<in> set needle" "\<not> isdigit c" "c \<noteq> CHR ''-''"
  proof -
    have "\<not> sublist needle (nat_to_string k)" for k
      using sublist_number [OF n(3-5), of "int k"] by (simp add: int_to_string_def)
    with sublist_join_with [OF n(1,2), of ?ws] show ?thesis unfolding date_line_def by auto
  qed
qed

lemma date_line_text:
  assumes "1 \<le> m" and "m \<le> 12"
  shows "plain_line (date_line y m d)" "\<not> icontains (date_line y m d) ''TEMPERATURE''"
    "\<not> cf6_banner (date_line y m d)" "\<not> corrected (date_line y m d)" "icontains (date_line y m d) ''FOR ''"
proof -
  note words = date_line_words [OF assms, where y = y and d = d]
  have needles: "map toupper ''TEMPERATURE'' = ''TEMPERATURE''" "map toupper ''FOR '' = ''FOR ''"
    "map toupper ''WS FORM: F-6'' = ''WS FORM: F-6''" "map toupper ''WS FORM F-6'' = ''WS FORM F-6''"
    "map toupper ''WS FORM:  F-6'' = ''WS FORM:  F-6''" "map toupper ''CORRECTED'' = ''CORRECTED''"
    "map toupper ''...COR'' = ''...COR''"
    by code_simp+
  have "newline \<notin> set (date_line y m d)" "carriage_return \<notin> set (date_line y m d)"
    "CHR ''.'' \<notin> set (date_line y m d)"
    using words(3) by (auto simp: isupper_def isdigit_def)
  moreover from this(3) have "\<not> sublist ''...COR'' (date_line y m d)" by (auto dest: sublist_set)
  ultimately show "plain_line (date_line y m d)" by (auto simp: plain_line_iff dest: last_in_set)
  have lits: "\<not> sublist ''TEMPERATURE'' ''CLIMATE''" "\<not> sublist ''TEMPERATURE'' ''SUMMARY''" "\<not> sublist ''TEMPERATURE'' ''FOR''"
    "\<not> sublist ''CORRECTED'' ''CLIMATE''" "\<not> sublist ''CORRECTED'' ''SUMMARY''" "\<not> sublist ''CORRECTED'' ''FOR''"
    by code_simp+
  show "\<not> icontains (date_line y m d) ''TEMPERATURE''"
    using words(2) [of "''TEMPERATURE''" "CHR ''T''"] lits month_names_facts(3) [OF assms]
    unfolding icontains_sublist words(1) needles by (simp add: isdigit_def)
  have "\<not> sublist ''CORRECTED'' (date_line y m d)"
    using words(2) [of "''CORRECTED''" "CHR ''C''"] lits month_names_facts(4) [OF assms] by (simp add: isdigit_def)
  with \<open>\<not> sublist ''...COR'' (date_line y m d)\<close> show "\<not> corrected (date_line y m d)"
    unfolding corrected_def icontains_sublist words(1) needles by simp
  show "\<not> cf6_banner (date_line y m d)"
    using words(4) unfolding cf6_banner_def icontains_sublist words(1) needles by (auto dest: sublist_set)
  have "date_line y m d = ''CLIMATE SUMMARY '' @ ''FOR '' @ join_with (CHR '' '') [month_names ! (m - 1), nat_to_string d, nat_to_string y]"
    by (simp add: date_line_def)
  then show "icontains (date_line y m d) ''FOR ''"
    unfolding icontains_sublist words(1) needles sublist_def by blast
qed

lemma date_line_date:
  assumes "1 \<le> m" "m \<le> 12" and "1 \<le> d" "d \<le> 31" and "1900 \<le> y" "y \<le> 2200"
  shows "cli_date_of (date_line y m d) = date_text (int y) m (int d)"
proof -
  let ?mo = "month_names ! (m - 1)" and ?tail = "CHR '' '' # nat_to_string d @ CHR '' '' # nat_to_string y"
  have line: "date_line y m d = ''CLIMATE'' @ CHR '' '' # ''SUMMARY'' @ CHR '' '' # ''FOR'' @ CHR '' '' # ?mo @ ?tail"
    by (simp add: date_line_def)
  have sp: "\<not> isalpha (CHR '' '')" "\<not> isdigit (CHR '' '')" by (simp_all add: isalpha_def isupper_def isdigit_def)
  have lit: "list_all isalpha ''CLIMATE''" "list_all isalpha ''SUMMARY''" "list_all isalpha ''FOR''"
    "month_of_word ''CLIMATE'' = None" "month_of_word ''SUMMARY'' = None" "month_of_word ''FOR'' = None"
    by code_simp+
  note mo = isupper_isalpha [OF month_names_facts(1) [OF assms(1,2)]] month_names_facts(2,6) [OF assms(1,2)]
  have "month_scan 0 (date_line y m d) = month_scan 20 (?mo @ ?tail)"
    using lit sp mo(3) unfolding line by (simp add: month_scan_word month_scan_skip eval_nat_numeral del: append.simps)
  also have "\<dots> = Some (m, 20 + length ?mo)"
    using mo sp by (subst month_scan_word) simp_all
  finally have mn: "month_num (date_line y m d) = (m, 20 + length ?mo)" by (simp add: month_num_def)
  have "drop (20 + length ?mo) (date_line y m d) = ?tail" by (simp add: line eval_nat_numeral)
  moreover have "digit_runs ?tail = [int d, int y]"
    using assms sp digit_runs_number [of d "CHR '' '' # nat_to_string y"] digit_runs_number [of y "[]"]
    by (simp add: digit_runs_skip digit_runs.simps [of "[]"])
  ultimately show ?thesis
    using assms date_line_text(5) [OF assms(1,2)] by (simp add: cli_date_of_def mn)
qed

text \<open>A line of the temperature section.\<close>

definition section_char :: "char \<Rightarrow> bool" where
  "section_char x \<longleftrightarrow> x \<in> set '' MAXIN-U'' \<or> isdigit x"

lemma section_char_not:
  "\<not> section_char (CHR ''T'')" "\<not> section_char (CHR ''P'')" "\<not> section_char (CHR ''R'')" "\<not> section_char (CHR ''W'')"
  "\<not> section_char newline" "\<not> section_char carriage_return"
  by code_simp+

lemma section_char_upper: "section_char x \<Longrightarrow> toupper x = x"
  by (auto simp: section_char_def isdigit_def toupper_id)

lemma section_line_absent:
  assumes "list_all section_char l" and "c \<in> set (map toupper needle)" and "\<not> section_char c"
  shows "\<not> icontains l needle"
proof
  assume "icontains l needle"
  then have "c \<in> set (map toupper l)" using sublist_set assms(2) unfolding icontains_sublist by blast
  moreover have "map toupper l = l" using assms(1) by (intro map_idI) (auto simp: list_all_iff section_char_upper)
  ultimately show False using assms(1,3) by (auto simp: list_all_iff)
qed

lemma section_line:
  assumes "list_all section_char l"
  shows "plain_line l" "\<not> icontains l ''TEMPERATURE''" "\<not> ends_temperature l" "\<not> cf6_banner l" "\<not> corrected l"
proof -
  have "newline \<notin> set l" "carriage_return \<notin> set l"
    using assms section_char_not(5,6) by (auto simp: list_all_iff)
  then show "plain_line l" by (auto simp: plain_line_iff dest: last_in_set)
  note absent = section_line_absent [OF assms]
  have f: "CHR ''T'' \<in> set (map toupper ''TEMPERATURE'')" "CHR ''P'' \<in> set (map toupper ''PRECIPITATION'')"
    "CHR ''W'' \<in> set (map toupper ''WIND'')" "CHR ''R'' \<in> set (map toupper ''RELATIVE'')"
    "CHR ''W'' \<in> set (map toupper ''WS FORM: F-6'')" "CHR ''W'' \<in> set (map toupper ''WS FORM F-6'')"
    "CHR ''W'' \<in> set (map toupper ''WS FORM:  F-6'')" "CHR ''R'' \<in> set (map toupper ''CORRECTED'')"
    "CHR ''R'' \<in> set (map toupper ''...COR'')"
    by code_simp+
  show "\<not> icontains l ''TEMPERATURE''" by (rule absent [OF f(1) section_char_not(1)])
  show "\<not> ends_temperature l"
    unfolding ends_temperature_def
    using absent [OF f(2) section_char_not(2)] absent [OF f(3) section_char_not(4)] absent [OF f(4) section_char_not(3)] by blast
  show "\<not> cf6_banner l"
    unfolding cf6_banner_def
    using absent [OF f(5) section_char_not(4)] absent [OF f(6) section_char_not(4)] absent [OF f(7) section_char_not(4)] by blast
  show "\<not> corrected l"
    unfolding corrected_def using absent [OF f(8) section_char_not(3)] absent [OF f(9) section_char_not(3)] by blast
qed

lemma section_number: "list_all section_char (int_to_string i)"
  by (auto simp: list_all_iff section_char_def dest: int_to_string_chars)

lemma labelled_lines:
  assumes "int32_range i"
  shows "labelled_int ''MAXIMUM'' (''  MAXIMUM  '' @ int_to_string i) = Some (double_of_int i)"
    "labelled_int ''MINIMUM'' (''  MINIMUM  '' @ int_to_string i) = Some (double_of_int i)"
    "labelled_int ''MINIMUM'' (''  MAXIMUM  '' @ int_to_string i) = None"
proof -
  have up: "map toupper ''  MAXIMUM  '' = ''  MAXIMUM  ''" "map toupper ''  MINIMUM  '' = ''  MINIMUM  ''"
    "map toupper ''MAXIMUM'' = ''MAXIMUM''" "map toupper ''MINIMUM'' = ''MINIMUM''" by code_simp+
  have sp: "\<not> isdigit (CHR '' '')" by (simp add: isdigit_def)
  have i: "first_int (''  '' @ int_to_string i) = Some (double_of_int i)"
    using first_int_number [OF assms] sp by simp
  have "find_sub (''  MAXIMUM  '' @ int_to_string i) ''MAXIMUM'' = Some 2"
    "find_sub (''  MINIMUM  '' @ int_to_string i) ''MINIMUM'' = Some 2" by simp_all
  then have f: "ifind (''  MAXIMUM  '' @ int_to_string i) ''MAXIMUM'' = Some 2"
    "ifind (''  MINIMUM  '' @ int_to_string i) ''MINIMUM'' = Some 2"
    unfolding ifind_find_sub map_append up map_toupper_number .
  have d: "drop (2 + 7) (''  MAXIMUM  '' @ int_to_string i) = ''  '' @ int_to_string i"
    "drop (2 + 7) (''  MINIMUM  '' @ int_to_string i) = ''  '' @ int_to_string i" by simp_all
  show "labelled_int ''MAXIMUM'' (''  MAXIMUM  '' @ int_to_string i) = Some (double_of_int i)"
    "labelled_int ''MINIMUM'' (''  MINIMUM  '' @ int_to_string i) = Some (double_of_int i)"
    unfolding labelled_int_def f option.case d i by (rule refl)+
  have "CHR ''N'' \<notin> set (''  MAXIMUM  '' @ int_to_string i)"
    using int_to_string_chars [of "CHR ''N''" i] by (auto simp: isdigit_def)
  moreover have "CHR ''N'' \<in> set ''MINIMUM''" by simp
  ultimately have "\<not> sublist ''MINIMUM'' (''  MAXIMUM  '' @ int_to_string i)" using sublist_set by blast
  then have "ifind (''  MAXIMUM  '' @ int_to_string i) ''MINIMUM'' = None"
    unfolding ifind_find_sub map_append up map_toupper_number find_sub_None .
  then show "labelled_int ''MINIMUM'' (''  MAXIMUM  '' @ int_to_string i) = None"
    unfolding labelled_int_def by (simp only: option.case)
qed

section \<open>The round trip\<close>

lemma text_plain:
  assumes "eol = [newline] \<or> eol = [carriage_return, newline]"
    and "\<And>line. line \<in> set ls \<Longrightarrow> \<not> cf6_banner line \<and> \<not> corrected line"
  shows "\<not> cf6_banner (concat (map (\<lambda>line. line @ eol) ls))" "\<not> corrected (concat (map (\<lambda>line. line @ eol) ls))"
proof -
  have needles: "list_all (\<lambda>n. newline \<notin> set n \<and> carriage_return \<notin> set n \<and> n \<noteq> [] \<and> map toupper n = n)
      [''WS FORM: F-6'', ''WS FORM F-6'', ''WS FORM:  F-6'', ''CORRECTED'', ''...COR'']" by code_simp
  have c: "icontains (concat (map (\<lambda>line. line @ eol) ls)) n \<longleftrightarrow> (\<exists>line\<in>set ls. icontains line n)"
    if "newline \<notin> set n \<and> carriage_return \<notin> set n \<and> n \<noteq> [] \<and> map toupper n = n" for n
    using that by (intro text_icontains [OF _ _ _ _ assms(1)]) simp_all
  from needles have "icontains (concat (map (\<lambda>line. line @ eol) ls)) n \<longleftrightarrow> (\<exists>line\<in>set ls. icontains line n)"
    if "n \<in> set [''WS FORM: F-6'', ''WS FORM F-6'', ''WS FORM:  F-6'', ''CORRECTED'', ''...COR'']" for n
    using that unfolding list_all_iff by (intro c) (rule bspec)
  then show "\<not> cf6_banner (concat (map (\<lambda>line. line @ eol) ls))" "\<not> corrected (concat (map (\<lambda>line. line @ eol) ls))"
    using assms(2) unfolding cf6_banner_def corrected_def by (simp_all only: list.set insert_iff simp_thms) blast+
qed

lemma temperature_section:
  "\<not> icontains l0 ''TEMPERATURE'' \<Longrightarrow> \<not> icontains l1 ''TEMPERATURE'' \<Longrightarrow> \<not> icontains l2 ''TEMPERATURE'' \<Longrightarrow> icontains l3 ''TEMPERATURE'' \<Longrightarrow>
   \<not> icontains l4 ''TEMPERATURE'' \<Longrightarrow> \<not> ends_temperature l4 \<Longrightarrow>
   \<not> icontains l5 ''TEMPERATURE'' \<Longrightarrow> \<not> ends_temperature l5 \<Longrightarrow>
   \<not> icontains l6 ''TEMPERATURE'' \<Longrightarrow> \<not> ends_temperature l6 \<Longrightarrow>
   temperature_lines False ([l0, l1, l2, l3, l4, l5] @ [l6]) = [l4, l5, l6]"
  by simp

lemma three_letters: "length s = 3 \<Longrightarrow> \<exists>a b c. s = [a, b, c]"
  by (auto simp: length_Suc_conv numeral_3_eq_3)

lemma cli_printed:
  fixes office site tmax tmin m d y
  defines "ls \<equiv> [''CDUS41 K'' @ office, ''CLI'' @ site, date_line y m d, ''TEMPERATURE (F)'', ''  MAXIMUM  '' @ int_to_string tmax,
    ''  MINIMUM  '' @ int_to_string tmin]"
  assumes "length office = 3" "list_all isupper office" "length site = 3" "list_all isupper site" and "1 \<le> m" "m \<le> 12"
  shows "list_all plain_line ls" "line \<in> set ls \<Longrightarrow> \<not> cf6_banner line \<and> \<not> corrected line"
    "temperature_lines False (ls @ [[]]) = [''  MAXIMUM  '' @ int_to_string tmax, ''  MINIMUM  '' @ int_to_string tmin, []]"
proof -
  obtain a b c a' b' c' where site: "office = [a, b, c]" "site = [a', b', c']"
    using assms(2,4) three_letters by blast
  note l0 = site_line [OF assms(3) [unfolded site]] and l1 = awips_line [OF assms(5) [unfolded site]]
    and l2 = date_line_text [OF assms(6,7), where y = y and d = d]
  have l3: "plain_line ''TEMPERATURE (F)''" "icontains ''TEMPERATURE (F)'' ''TEMPERATURE''"
    "\<not> cf6_banner ''TEMPERATURE (F)''" "\<not> corrected ''TEMPERATURE (F)''"
    "\<not> icontains [] ''TEMPERATURE''" "\<not> ends_temperature []" by code_simp+
  have "list_all section_char ''  MAXIMUM  ''" "list_all section_char ''  MINIMUM  ''" by code_simp+
  then have "list_all section_char (''  MAXIMUM  '' @ int_to_string tmax)"
    "list_all section_char (''  MINIMUM  '' @ int_to_string tmin)"
    unfolding list_all_append using section_number by blast+
  note l4 = this [THEN section_line(1)] this [THEN section_line(2)] this [THEN section_line(3)]
    this [THEN section_line(4)] this [THEN section_line(5)]
  show "list_all plain_line ls"
    using l0(1) l1(1) l2(1) l3(1) l4(1,2) unfolding ls_def site by (simp only: list.pred_inject simp_thms)
  show "\<not> cf6_banner line \<and> \<not> corrected line" if "line \<in> set ls"
    using that l0(5,6) l1(4,5) l2(3,4) l3(3,4) l4(7-10) unfolding ls_def site list.set by blast
  show "temperature_lines False (ls @ [[]]) = [''  MAXIMUM  '' @ int_to_string tmax, ''  MINIMUM  '' @ int_to_string tmin, []]"
    unfolding ls_def site by (rule temperature_section [OF l0(4) l1(3) l2(2) l3(2) l4(3,5,4,6) l3(5,6)])
qed

lemma cli_parsed:
  assumes "length office = 3" "list_all isupper office" and "length site = 3" "list_all isupper site"
    and "1 \<le> m" "m \<le> 12" and "1 \<le> d" "d \<le> 31" and "1900 \<le> y" "y \<le> 2200"
    and "int32_range tmax" and "int32_range tmin" and "eol = [newline] \<or> eol = [carriage_return, newline]"
  shows "parse_cli_product_text (show_cli eol office site y m d tmax tmin) =
    Inr \<lparr>station = CHR ''K'' # office, date = date_text (int y) m (int d), tmax_f = Some (double_of_int tmax),
         tmin_f = Some (double_of_int tmin), is_preliminary = True, is_corrected = False,
         source = ''nws_api_cli'', issuance_time = []\<rparr>"
proof -
  let ?ls = "[''CDUS41 K'' @ office, ''CLI'' @ site, date_line y m d, ''TEMPERATURE (F)'', ''  MAXIMUM  '' @ int_to_string tmax,
    ''  MINIMUM  '' @ int_to_string tmin]"
  let ?text = "show_cli eol office site y m d tmax tmin"
  note printed = cli_printed [OF assms(1-6), where y = y and d = d and tmax = tmax and tmin = tmin]
  have conc: "?text = concat (map (\<lambda>line. line @ eol) ?ls)" by (simp only: show_cli_def)
  have plain: "\<not> cf6_banner ?text" "\<not> corrected ?text"
    unfolding conc by (rule text_plain [OF assms(13) printed(2)], assumption)+
  have lines: "lines_of ?text = ?ls @ [[]]"
    unfolding conc using assms(13) cli_reader.read_terminated [OF printed(1)] cli_reader.read_terminated_crlf [OF printed(1)]
    by blast
  obtain a b c a' b' c' where site: "office = [a, b, c]" "site = [a', b', c']" using assms(1,3) three_letters by blast
  have "iso_date (date_text (int y) m (int d)) (int y) (int m) (int d)" using assms by (intro date_text_iso) simp_all
  then have date: "date_text (int y) m (int d) \<noteq> []" by (auto simp: iso_date_def)
  have head: "cli_station_of (''CDUS41 K'' @ office) = CHR ''K'' # office" "cli_date_of (''CDUS41 K'' @ office) = []"
    "cli_date_of (''CLI'' @ site) = []"
    unfolding site by (rule site_line(2,3) [OF assms(2) [unfolded site]] awips_line(2) [OF assms(4) [unfolded site]])+
  have lists: "?ls @ [[]] = (''CDUS41 K'' @ office) # (''CLI'' @ site) # date_line y m d # [''TEMPERATURE (F)'',
      ''  MAXIMUM  '' @ int_to_string tmax, ''  MINIMUM  '' @ int_to_string tmin, []]" by (simp only: append.simps(2) append_Nil)
  have fields: "first_found [] cli_station_of (?ls @ [[]]) = CHR ''K'' # office"
      "first_found [] cli_date_of (?ls @ [[]]) = date_text (int y) m (int d)"
    unfolding lists by (rule first_found_1 [where f = cli_station_of, OF head(1)], simp)
      (rule first_found_3 [where f = cli_date_of, OF head(2,3) date_line_date [OF assms(5-10)] date])
  have temps: "first_found None (labelled_int ''MAXIMUM'') (temperature_lines False (?ls @ [[]])) = Some (double_of_int tmax)"
      "first_found None (labelled_int ''MINIMUM'') (temperature_lines False (?ls @ [[]])) = Some (double_of_int tmin)"
    unfolding printed(3) by (rule first_found_1 [where f = "labelled_int ''MAXIMUM''", OF labelled_lines(1) [OF assms(11)]], simp)
      (rule first_found_2 [where f = "labelled_int ''MINIMUM''", OF labelled_lines(3) [OF assms(11)] labelled_lines(2) [OF assms(12)]], simp)
  have report: "cli_report ?text (lines_of ?text) =
    \<lparr>station = CHR ''K'' # office, date = date_text (int y) m (int d), tmax_f = Some (double_of_int tmax),
     tmin_f = Some (double_of_int tmin), is_preliminary = True, is_corrected = False,
     source = ''nws_api_cli'', issuance_time = []\<rparr>"
    unfolding cli_report_def lines fields temps using plain(2) by simp
  have ne: "?text \<noteq> []" unfolding conc by simp
  show ?thesis unfolding cli_parse_report [OF ne plain(1)] report by (simp add: Let_def)
qed

text \<open>
  C12: a printed daily report parses back: for every issuing office, site, date, pair of temperatures
  and kind of line break, the record holds the date and both temperatures; and it names the site,
  when the office that issues the report is named like it.
\<close>

theorem cli_roundtrip:
  assumes "length office = 3" "list_all isupper office" and "length site = 3" "list_all isupper site"
    and "1 \<le> m" "m \<le> 12" and "1 \<le> d" "d \<le> 31" and "1900 \<le> y" "y \<le> 2200"
    and "int32_range tmax" and "int32_range tmin" and "eol = [newline] \<or> eol = [carriage_return, newline]"
  shows "\<exists>st. parse_cli_product_text (show_cli eol office site y m d tmax tmin) =
      Inr \<lparr>station = st, date = date_text (int y) m (int d), tmax_f = Some (double_of_int tmax),
           tmin_f = Some (double_of_int tmin), is_preliminary = True, is_corrected = False,
           source = ''nws_api_cli'', issuance_time = []\<rparr> \<and>
    (office = site \<longrightarrow> st = CHR ''K'' # site)"
  using cli_parsed [OF assms] by blast

theorem cli_roundtrip_witness:
  "parse_cli_product_text (show_cli [newline] ''NYC'' ''NYC'' 2026 5 16 72 (- 5)) =
    Inr \<lparr>station = ''KNYC'', date = ''2026-05-16'', tmax_f = Some (double_of_int 72),
         tmin_f = Some (double_of_int (- 5)), is_preliminary = True, is_corrected = False,
         source = ''nws_api_cli'', issuance_time = []\<rparr>"
proof -
  have "list_all isupper ''NYC''" "date_text 2026 5 16 = ''2026-05-16''" by code_simp+
  then show ?thesis using cli_roundtrip [of "''NYC''" "''NYC''" 5 16 2026 72 "- 5" "[newline]"] by auto
qed

end
