(* ===== verification/Cf6_Roundtrip.thy ===== *)
theory Cf6_Roundtrip
  imports Cli_Roundtrip
begin

text \<open>
  A printer of monthly climate tables, and the proof that \<open>parse_cli_product_text\<close> recognises a printed
  table, hands it to the table parser and reports its latest complete day.
\<close>

section \<open>Printing\<close>

text \<open>A row: the day, the two temperatures (\<open>M\<close> for a missing one) and further columns.\<close>

record cf6_day =
  table_day :: nat
  table_max :: "int option"
  table_min :: "int option"
  table_more :: "string list"

definition show_temp :: "int option \<Rightarrow> string" where
  "show_temp t = (case t of None \<Rightarrow> ''M'' | Some i \<Rightarrow> int_to_string i)"

definition show_day :: "cf6_day \<Rightarrow> string" where
  "show_day r = join_with (CHR '' '')
     (nat_to_string (table_day r) # show_temp (table_max r) # show_temp (table_min r) # table_more r)"

definition table_head :: "string \<Rightarrow> nat \<Rightarrow> nat \<Rightarrow> string list" where
  "table_head site y m =
     [''CF6'' @ site, ''PRELIMINARY LOCAL CLIMATOLOGICAL DATA (WS FORM: F-6)'', ''MONTH: '' @ month_names ! (m - 1),
      ''YEAR: '' @ nat_to_string y, ''DY MAX MIN AVG DEP HDD CDD'']"

text \<open>After the summary line anything may follow.\<close>

definition show_cf6 :: "string \<Rightarrow> string \<Rightarrow> nat \<Rightarrow> nat \<Rightarrow> cf6_day list \<Rightarrow> string list \<Rightarrow> string" where
  "show_cf6 eol site y m rows trailer = concat (map (\<lambda>line. line @ eol)
     (table_head site y m @ ''======'' # map show_day rows @ ''SM 1540'' # trailer))"

definition complete :: "cf6_day \<Rightarrow> bool" where
  "complete r \<longleftrightarrow> table_max r \<noteq> None \<and> table_min r \<noteq> None"

definition temp_ok :: "int option \<Rightarrow> bool" where
  "temp_ok t \<longleftrightarrow> (case t of None \<Rightarrow> True | Some i \<Rightarrow> int32_range i)"

definition day_ok :: "cf6_day \<Rightarrow> bool" where
  "day_ok r \<longleftrightarrow> 1 \<le> table_day r \<and> table_day r \<le> 31 \<and> temp_ok (table_max r) \<and>
     temp_ok (table_min r) \<and> list_all is_token (table_more r)"

section \<open>Rows\<close>

lemma number_token: "is_token (nat_to_string n)" "is_token (int_to_string i)"
proof -
  show "is_token (int_to_string i)" for i
    using int_to_string_chars [of _ i] by (fastforce simp: is_token_def list_all_iff isspace_def isdigit_def)
  from this [of "int n"] show "is_token (nat_to_string n)" by (simp add: int_to_string_def)
qed

lemma show_temp_token: "is_token (show_temp t)"
proof -
  have "is_token ''M''" by code_simp
  then show ?thesis by (cases t) (simp_all add: show_temp_def number_token)
qed

lemma parse_temp_show:
  assumes "temp_ok t"
  shows "parse_temp (show_temp t) = map_option double_of_int t"
proof (cases t)
  case None
  have "parse_temp ''M'' = None" by (simp add: parse_temp_def)
  then show ?thesis by (simp add: None show_temp_def)
next
  case (Some i)
  have "set (int_to_string i) \<subseteq> {c. isdigit c \<or> c = CHR ''-''}" using int_to_string_chars by blast
  then have "int_to_string i \<noteq> ''M''" "int_to_string i \<noteq> ''T''" by (auto simp: isdigit_def)
  moreover have "from_chars (int_to_string i) = Converted i (length (int_to_string i))"
    using from_chars_int_to_string [of i "[]"] assms Some by (simp add: temp_ok_def)
  ultimately show ?thesis by (simp add: Some show_temp_def parse_temp_def)
qed

lemma show_day_tokens:
  assumes "day_ok r"
  shows "tokens (show_day r) = nat_to_string (table_day r) # show_temp (table_max r) # show_temp (table_min r) # table_more r"
    "plain_line (show_day r)"
proof -
  have t: "list_all is_token (nat_to_string (table_day r) # show_temp (table_max r) # show_temp (table_min r) # table_more r)"
    using assms by (simp add: day_ok_def number_token show_temp_token)
  show "tokens (show_day r) = nat_to_string (table_day r) # show_temp (table_max r) # show_temp (table_min r) # table_more r"
    unfolding show_day_def by (rule tokens_join [OF t])
  show "plain_line (show_day r)" unfolding show_day_def by (rule is_token_plain [OF t]) simp
qed

definition day_row :: "cf6_day \<Rightarrow> (int \<times> double \<times> double) option" where
  "day_row r = (case (table_max r, table_min r) of
     (Some a, Some b) \<Rightarrow> Some (int (table_day r), double_of_int a, double_of_int b) | _ \<Rightarrow> None)"

lemma cf6_row_show:
  assumes "day_ok r"
  shows "cf6_row (show_day r) = day_row r"
proof -
  have "from_chars (nat_to_string (table_day r)) = Converted (int (table_day r)) (length (nat_to_string (table_day r)))"
    using from_chars_int_to_string [of "int (table_day r)" "[]"] assms by (simp add: int_to_string_def day_ok_def)
  then show ?thesis
    using assms
    by (simp add: cf6_row_def show_day_tokens [OF assms] parse_temp_show day_ok_def day_row_def split: option.splits)
qed

lemma show_day_digit: "\<exists>c s. show_day r = c # s \<and> isdigit c"
proof -
  obtain c s where "nat_to_string (table_day r) = c # s" by (cases "nat_to_string (table_day r)") auto
  with nat_to_string_hd [of "table_day r"] show ?thesis by (simp add: show_day_def)
qed

lemma show_day_not_ended: "\<not> cf6_ended (show_day r)"
proof -
  obtain c s where cs: "show_day r = c # s" "isdigit c" using show_day_digit by blast
  then have "\<not> isspace c" "c \<notin> {CHR ''S'', CHR ''A'', CHR ''N'', CHR ''$'', CHR ''M''}" by (auto simp: isdigit_def isspace_def)
  then have "dropWhile isspace (show_day r) = c # s" "\<not> cf6_stop (c # s)"
    using cs(1) by (auto simp: cf6_stop_def starts_with_def)
  then show ?thesis by (simp add: cf6_ended_def)
qed

section \<open>The head of the table\<close>

lemma head_lines:
  assumes "length site = 3" "list_all isupper site" and "1 \<le> m" "m \<le> 12" and "1900 \<le> y" "y \<le> 2200"
  shows "cf6_station_of (''CF6'' @ site) = site" "cf6_month_of (''CF6'' @ site) = 0" "cf6_year_of (''CF6'' @ site) = 0"
    "\<not> cf6_header (''CF6'' @ site)"
    "cf6_month_of (''MONTH: '' @ month_names ! (m - 1)) = m" "cf6_year_of (''MONTH: '' @ month_names ! (m - 1)) = 0"
    "\<not> cf6_header (''MONTH: '' @ month_names ! (m - 1))"
    "cf6_year_of (''YEAR: '' @ nat_to_string y) = int y" "\<not> cf6_header (''YEAR: '' @ nat_to_string y)"
proof -
  obtain a b c where site: "site = [a, b, c]" using assms(1) by (auto simp: length_Suc_conv numeral_3_eq_3)
  have abc: "isupper a" "isupper b" "isupper c" using assms(2) site by simp_all
  show "cf6_station_of (''CF6'' @ site) = site"
    using abc by (simp add: cf6_station_of_def substr_def site)
  have up: "map toupper (''CF6'' @ site) = ''CF6'' @ site"
  proof -
    have "map toupper ''CF6'' = ''CF6''" by code_simp
    then show ?thesis unfolding map_append map_toupper_upper [OF assms(2)] by simp
  qed
  have needles: "map toupper ''MONTH:'' = ''MONTH:''" "map toupper ''YEAR:'' = ''YEAR:''" by code_simp+
  have colon: "CHR '':'' \<notin> set (''CF6'' @ site)" using abc by (auto simp: site isupper_def)
  then have "\<not> icontains (''CF6'' @ site) ''MONTH:''" "\<not> icontains (''CF6'' @ site) ''YEAR:''"
    unfolding icontains_sublist up needles by (auto dest!: sublist_set)
  then show "cf6_month_of (''CF6'' @ site) = 0" "cf6_year_of (''CF6'' @ site) = 0"
    by (simp_all add: cf6_month_of_def cf6_year_of_def)
  have "find_sub (''CF6'' @ site) ''MAX'' = None \<or> find_sub (''CF6'' @ site) ''MIN'' = None"
    unfolding find_sub_None site by (auto simp: sublist_Cons_right)
  then show "\<not> cf6_header (''CF6'' @ site)" by (auto simp: cf6_header_def)
  have months: "\<forall>k\<in>set [0..<12]. cf6_month_of (''MONTH: '' @ month_names ! k) = Suc k \<and>
      cf6_year_of (''MONTH: '' @ month_names ! k) = 0 \<and> \<not> cf6_header (''MONTH: '' @ month_names ! k)" by code_simp
  have "m - 1 \<in> set [0..<12]" "Suc (m - 1) = m" using assms(3,4) by auto
  with months show "cf6_month_of (''MONTH: '' @ month_names ! (m - 1)) = m"
    "cf6_year_of (''MONTH: '' @ month_names ! (m - 1)) = 0" "\<not> cf6_header (''MONTH: '' @ month_names ! (m - 1))"
    by metis+
  have upy: "map toupper (''YEAR: '' @ nat_to_string y) = ''YEAR: '' @ nat_to_string y"
  proof -
    have "map toupper ''YEAR: '' = ''YEAR: ''" by code_simp
    then show ?thesis unfolding map_append map_toupper_nat by simp
  qed
  have "icontains (''YEAR: '' @ nat_to_string y) ''YEAR:''"
    unfolding icontains_sublist upy needles by (simp add: sublist_Cons_right)
  moreover have "digit_runs (''YEAR: '' @ nat_to_string y) = [int y]"
    using digit_runs_number [of y "[]"] assms(6)
    by (simp add: digit_runs_skip isdigit_def digit_runs.simps [of "[]"])
  ultimately show "cf6_year_of (''YEAR: '' @ nat_to_string y) = int y"
    using assms(5,6) by (simp add: cf6_year_of_def)
  have "CHR ''D'' \<notin> set (''YEAR: '' @ nat_to_string y)" using nat_to_string_isdigit [of y] by (auto simp: list_all_iff isdigit_def)
  then have "find_sub (''YEAR: '' @ nat_to_string y) ''DY'' = None" unfolding find_sub_None by (auto dest!: sublist_set)
  then show "\<not> cf6_header (''YEAR: '' @ nat_to_string y)" by (simp add: cf6_header_def)
qed

section \<open>The table\<close>

lemma constant_lines:
  "cf6_month_of ''PRELIMINARY LOCAL CLIMATOLOGICAL DATA (WS FORM: F-6)'' = 0"
  "cf6_year_of ''PRELIMINARY LOCAL CLIMATOLOGICAL DATA (WS FORM: F-6)'' = 0"
  "\<not> cf6_header ''PRELIMINARY LOCAL CLIMATOLOGICAL DATA (WS FORM: F-6)''"
  "cf6_header ''DY MAX MIN AVG DEP HDD CDD''"
  "\<not> cf6_ended ''======''" "cf6_row ''======'' = None" "cf6_ended ''SM 1540''"
  by code_simp+

lemma table_rows:
  assumes "list_all day_ok rows"
  shows "takeWhile (\<lambda>line. \<not> cf6_ended line) (''======'' # map show_day rows @ ''SM 1540'' # trailer) =
           ''======'' # map show_day rows"
    "List.map_filter cf6_row (''======'' # map show_day rows) = List.map_filter day_row rows"
proof -
  have "takeWhile (\<lambda>line. \<not> cf6_ended line) (map show_day rows @ ''SM 1540'' # trailer) = map show_day rows"
    by (induction rows) (simp_all add: show_day_not_ended constant_lines(7))
  then show "takeWhile (\<lambda>line. \<not> cf6_ended line) (''======'' # map show_day rows @ ''SM 1540'' # trailer) =
      ''======'' # map show_day rows"
    by (simp only: takeWhile.simps constant_lines(5) not_False_eq_True if_True)
  have "List.map_filter cf6_row (map show_day rows) = List.map_filter day_row rows"
    using assms by (induction rows) (simp_all add: cf6_row_show map_filter_simps split: option.split)
  then show "List.map_filter cf6_row (''======'' # map show_day rows) = List.map_filter day_row rows"
    by (simp only: map_filter_simps constant_lines(6) option.case)
qed

lemma table_shape:
  assumes "\<not> cf6_header h1" "\<not> cf6_header h2" "\<not> cf6_header h3" "\<not> cf6_header h4" "cf6_header h5"
  shows "cf6_body ([h1, h2, h3, h4, h5] @ b) = b" "cf6_read ([h1, h2, h3, h4, h5] @ b) = [h1, h2, h3, h4, h5] @ up_to cf6_ended b"
  using assms by (simp_all add: cf6_body_def cf6_read_def)

lemma table_fields:
  fixes site y m rows trailer
  assumes "length site = 3" "list_all isupper site" and "1 \<le> m" "m \<le> 12" and "1900 \<le> y" "y \<le> 2200"
    and "list_all day_ok rows"
  defines "ls \<equiv> table_head site y m @ ''======'' # map show_day rows @ ''SM 1540'' # trailer"
  shows "cf6_table ls = List.map_filter day_row rows"
    and "first_found 0 cf6_month_of (cf6_read ls) = m" "first_found 0 cf6_year_of (cf6_read ls) = int y"
      "first_found [] cf6_station_of (cf6_read ls) = site"
proof -
  note head = head_lines [OF assms(1-6)]
  have ne: "site \<noteq> []" "m \<noteq> 0" "int y \<noteq> 0" using assms(1,3,5) by auto
  note shape = table_shape [OF head(4) constant_lines(3) head(7,9) constant_lines(4)]
  show "cf6_table ls = List.map_filter day_row rows"
    unfolding cf6_table_def ls_def table_head_def shape(1) table_rows [OF assms(7)] ..
  have first: "first_found none f ([h1, h2, h3, h4, h5] @ b) = v"
    if "v \<noteq> none" and "f h1 = v \<or> f h1 = none \<and> f h2 = none \<and> (f h3 = v \<or> f h3 = none \<and> f h4 = v)"
    for none v :: 'x and f :: "string \<Rightarrow> 'x" and h1 h2 h3 h4 h5 b
    using that by auto
  show "first_found 0 cf6_month_of (cf6_read ls) = m"
    unfolding ls_def table_head_def shape(2) using head(2,5) constant_lines(1) ne(2) by (intro first) blast+
  show "first_found 0 cf6_year_of (cf6_read ls) = int y"
    unfolding ls_def table_head_def shape(2) using head(3,6,8) constant_lines(2) ne(3) by (intro first) blast+
  show "first_found [] cf6_station_of (cf6_read ls) = site"
    unfolding ls_def table_head_def shape(2) using head(1) ne(1) by (intro first) blast+
qed

text \<open>The row of the latest complete day.\<close>

lemma latest_complete:
  assumes "day_row r = Some row" and "\<forall>q\<in>set before. complete q \<longrightarrow> table_day q < table_day r"
    and "\<forall>q\<in>set after. complete q \<longrightarrow> table_day q \<le> table_day r"
  shows "latest (List.map_filter day_row (before @ r # after)) = Some row"
proof -
  let ?rows = "List.map_filter day_row (before @ r # after)"
  have split: "?rows = List.map_filter day_row before @ row # List.map_filter day_row after"
    using assms(1) by (cases row) (auto simp: List.map_filter_def)
  have day: "fst x = int (table_day q) \<and> complete q" if "day_row q = Some x" for q x
    using that by (auto simp: day_row_def complete_def split: option.splits)
  have lt: "fst x < fst row" if "x \<in> set (List.map_filter day_row before)" for x
    using that assms(2) day day [OF assms(1)] by (fastforce simp: List.map_filter_def)
  have le: "fst x \<le> fst row" if "x \<in> set (List.map_filter day_row after)" for x
    using that assms(3) day day [OF assms(1)] by (fastforce simp: List.map_filter_def)
  have all: "list_all (\<lambda>x. fst x \<le> fst row) ?rows" unfolding split using lt le by (auto simp: list_all_iff less_imp_le)
  have "List.find (\<lambda>x. list_all (\<lambda>x'. fst x' \<le> fst x) ?rows) (List.map_filter day_row before) = None"
  proof -
    have "\<not> list_all (\<lambda>x'. fst x' \<le> fst x) ?rows" if "x \<in> set (List.map_filter day_row before)" for x
      using lt [OF that] unfolding split by (auto simp: not_le)
    then show ?thesis by (auto simp: find_None_iff)
  qed
  moreover have "List.find P (xs @ x # ys) = Some x" if "List.find P xs = None" "P x" for P and xs ys :: "(int \<times> double \<times> double) list" and x
    using that by (induction xs) (auto split: if_splits)
  ultimately show ?thesis unfolding latest_def using all split by metis
qed

lemma head_plain:
  assumes "length site = 3" "list_all isupper site" and "1 \<le> m" "m \<le> 12"
  shows "list_all plain_line (table_head site y m)" "\<not> list_ex corrected (table_head site y m)"
proof -
  obtain a b c where site: "site = [a, b, c]" using assms(1) by (auto simp: length_Suc_conv numeral_3_eq_3)
  have abc: "isupper a" "isupper b" "isupper c" using assms(2) site by simp_all
  have l2: "plain_line ''PRELIMINARY LOCAL CLIMATOLOGICAL DATA (WS FORM: F-6)''" "plain_line ''DY MAX MIN AVG DEP HDD CDD''"
    "\<not> corrected ''PRELIMINARY LOCAL CLIMATOLOGICAL DATA (WS FORM: F-6)''" "\<not> corrected ''DY MAX MIN AVG DEP HDD CDD''"
    by code_simp+
  have months: "\<forall>k\<in>set [0..<12]. plain_line (''MONTH: '' @ month_names ! k) \<and> \<not> corrected (''MONTH: '' @ month_names ! k)"
    by code_simp
  moreover have "m - 1 \<in> set [0..<12]" using assms(3,4) by auto
  ultimately have l3: "plain_line (''MONTH: '' @ month_names ! (m - 1))" "\<not> corrected (''MONTH: '' @ month_names ! (m - 1))" by blast+
  have needles: "map toupper ''CORRECTED'' = ''CORRECTED''" "map toupper ''...COR'' = ''...COR''"
    "map toupper ''CF6'' = ''CF6''" "map toupper ''YEAR: '' = ''YEAR: ''" by code_simp+
  have "CHR ''D'' \<notin> set (''YEAR: '' @ nat_to_string y)" "CHR ''.'' \<notin> set (''YEAR: '' @ nat_to_string y)"
    using nat_to_string_isdigit [of y] by (auto simp: list_all_iff isdigit_def)
  then have l4: "\<not> corrected (''YEAR: '' @ nat_to_string y)"
    unfolding corrected_def icontains_sublist map_append map_toupper_nat needles by (auto dest!: sublist_set)
  have l1: "\<not> corrected (''CF6'' @ site)"
    unfolding corrected_def icontains_sublist map_append map_toupper_upper [OF assms(2)] needles site
    by (simp add: sublist_Cons_right)
  have p1: "plain_line (''CF6'' @ site)" using abc by (auto simp: site plain_line_iff isupper_def)
  have "c \<noteq> newline" "c \<noteq> carriage_return" if "c \<in> set (nat_to_string y)" for c
    using that nat_to_string_isdigit [of y] by (auto simp: list_all_iff isdigit_def)
  then have p4: "plain_line (''YEAR: '' @ nat_to_string y)" by (auto simp: plain_line_iff dest: last_in_set)
  show "list_all plain_line (table_head site y m)"
    unfolding table_head_def using p1 l2(1,2) l3(1) p4 by (simp only: list.pred_inject simp_thms)
  show "\<not> list_ex corrected (table_head site y m)"
    unfolding table_head_def using l1 l2(3,4) l3(2) l4 by (simp only: list_ex_Nil_iff list_ex_Cons_iff simp_thms)
qed

lemma text_flags:
  assumes "eol = [newline] \<or> eol = [carriage_return, newline]"
  shows "corrected (concat (map (\<lambda>line. line @ eol) ls)) \<longleftrightarrow> list_ex corrected ls"
    "icontains (concat (map (\<lambda>line. line @ eol) ls)) ''PRELIMINARY'' \<longleftrightarrow> (\<exists>line\<in>set ls. icontains line ''PRELIMINARY'')"
    "icontains (concat (map (\<lambda>line. line @ eol) ls)) ''WS FORM: F-6'' \<longleftrightarrow> (\<exists>line\<in>set ls. icontains line ''WS FORM: F-6'')"
proof -
  have needles: "list_all (\<lambda>n. newline \<notin> set n \<and> carriage_return \<notin> set n \<and> n \<noteq> [] \<and> map toupper n = n)
      [''CORRECTED'', ''...COR'', ''PRELIMINARY'', ''WS FORM: F-6'']" by code_simp
  have c: "icontains (concat (map (\<lambda>line. line @ eol) ls)) n \<longleftrightarrow> (\<exists>line\<in>set ls. icontains line n)"
    if "n \<in> set [''CORRECTED'', ''...COR'', ''PRELIMINARY'', ''WS FORM: F-6'']" for n
    using bspec [OF needles [unfolded list_all_iff] that] by (intro text_icontains [OF _ _ _ _ assms]) simp_all
  then show "corrected (concat (map (\<lambda>line. line @ eol) ls)) \<longleftrightarrow> list_ex corrected ls"
    unfolding corrected_def list_ex_iff by (simp only: list.set insert_iff simp_thms) blast
  show "icontains (concat (map (\<lambda>line. line @ eol) ls)) ''PRELIMINARY'' \<longleftrightarrow> (\<exists>line\<in>set ls. icontains line ''PRELIMINARY'')"
    "icontains (concat (map (\<lambda>line. line @ eol) ls)) ''WS FORM: F-6'' \<longleftrightarrow> (\<exists>line\<in>set ls. icontains line ''WS FORM: F-6'')"
    using c by (simp_all only: list.set insert_iff simp_thms)
qed

section \<open>Properties\<close>

lemma cf6_parsed:
  assumes "length site = 3" and "list_all isupper site" and "1 \<le> m" "m \<le> 12" and "1900 \<le> y" "y \<le> 2200"
    and "table_max r = Some a" "table_min r = Some b"
    and "list_all day_ok (before @ r # after)" and "list_all plain_line trailer"
    and "\<forall>q\<in>set before. complete q \<longrightarrow> table_day q < table_day r"
    and "\<forall>q\<in>set after. complete q \<longrightarrow> table_day q \<le> table_day r"
    and "eol = [newline] \<or> eol = [carriage_return, newline]"
  shows "parse_cli_product_text (show_cf6 eol site y m (before @ r # after) trailer) =
    Inr \<lparr>station = CHR ''K'' # site, date = date_text (int y) m (int (table_day r)), tmax_f = Some (double_of_int a),
         tmin_f = Some (double_of_int b), is_preliminary = True,
         is_corrected = list_ex corrected (map show_day (before @ r # after) @ trailer),
         source = ''nws_api_cf6'', issuance_time = []\<rparr>"
proof -
  let ?rows = "before @ r # after"
  let ?ls = "table_head site y m @ ''======'' # map show_day ?rows @ ''SM 1540'' # trailer"
  let ?text = "show_cf6 eol site y m ?rows trailer"
  have conc: "?text = concat (map (\<lambda>line. line @ eol) ?ls)" by (simp only: show_cf6_def)
  have c: "plain_line ''======''" "plain_line ''SM 1540''" "\<not> corrected ''======''" "\<not> corrected ''SM 1540''"
    "icontains ''PRELIMINARY LOCAL CLIMATOLOGICAL DATA (WS FORM: F-6)'' ''PRELIMINARY''"
    "icontains ''PRELIMINARY LOCAL CLIMATOLOGICAL DATA (WS FORM: F-6)'' ''WS FORM: F-6''"
    by code_simp+
  have banner: "''PRELIMINARY LOCAL CLIMATOLOGICAL DATA (WS FORM: F-6)'' \<in> set ?ls"
    unfolding table_head_def by (simp only: set_append list.set Un_iff insert_iff simp_thms)
  then have "icontains ?text ''PRELIMINARY''" "cf6_banner ?text"
    unfolding conc cf6_banner_def text_flags(2,3) [OF assms(13)] using c(5,6) by blast+
  moreover have "list_all plain_line (map show_day ?rows)"
    using assms(9) show_day_tokens(2) by (simp only: list_all_iff set_map) blast
  then have "list_all plain_line ?ls"
    using head_plain(1) [OF assms(1-4)] c(1,2) assms(10)
    by (simp only: list_all_append list.pred_inject simp_thms)
  then have lines: "lines_of ?text = ?ls @ [[]]"
    unfolding conc using assms(13) cli_reader.read_terminated [of ?ls] cli_reader.read_terminated_crlf [of ?ls] by blast
  have cor: "corrected ?text \<longleftrightarrow> list_ex corrected (map show_day ?rows @ trailer)"
    unfolding conc text_flags(1) [OF assms(13)] using head_plain(2) [OF assms(1-4)] c(3,4)
    by (simp only: list_ex_append list_ex_Nil_iff list_ex_Cons_iff simp_thms)
  note fields = table_fields [OF assms(1-6,9), where trailer = "trailer @ [[]]"]
  have row: "day_row r = Some (int (table_day r), double_of_int a, double_of_int b)" using assms(7,8) by (simp add: day_row_def)
  have lat: "latest (List.map_filter day_row ?rows) = Some (int (table_day r), double_of_int a, double_of_int b)"
    by (rule latest_complete [OF row assms(11,12)])
  have ls: "?ls @ [[]] = table_head site y m @ ''======'' # map show_day ?rows @ ''SM 1540'' # trailer @ [[]]"
    by (simp only: append_assoc append_Cons)
  note res = cf6_loop_result [of "lines_of ?text", unfolded lines ls fields lat option.case prod.case]
  have ne: "?text \<noteq> []" unfolding conc table_head_def by simp
  have "m \<noteq> 0" "int y \<noteq> 0" "site \<noteq> []" using assms(1,3,5) by auto
  with res have "parse_cf6_product_text ?text =
    Inr \<lparr>station = CHR ''K'' # site, date = date_text (int y) m (int (table_day r)), tmax_f = Some (double_of_int a),
         tmin_f = Some (double_of_int b), is_preliminary = icontains ?text ''PRELIMINARY'', is_corrected = corrected ?text,
         source = ''nws_api_cf6'', issuance_time = []\<rparr>"
    unfolding parse_cf6_product_text_def Let_def lines ls by (simp add: default_CliReport_def)
  with ne calculation show ?thesis unfolding parse_cli_product_text_def cor by simp
qed

text \<open>
  C13: a printed monthly table is recognised by its banner and parses to the latest day that has both
  temperatures, whatever rows are incomplete or out of order, whatever columns follow the
  temperatures and whatever text follows the summary line; the report is preliminary, names the
  site with its prefix, and is marked corrected when a row or the text after the table says so.
\<close>

theorem cf6_roundtrip:
  assumes "length site = 3" and "list_all isupper site" and "1 \<le> m" "m \<le> 12" and "1900 \<le> y" "y \<le> 2200"
    and "table_max r = Some a" "table_min r = Some b"
    and "list_all day_ok (before @ r # after)" and "list_all plain_line trailer"
    and "\<forall>q\<in>set before. complete q \<longrightarrow> table_day q < table_day r"
    and "\<forall>q\<in>set after. complete q \<longrightarrow> table_day q \<le> table_day r"
    and "eol = [newline] \<or> eol = [carriage_return, newline]"
  shows "parse_cli_product_text (show_cf6 eol site y m (before @ r # after) trailer) =
    Inr \<lparr>station = CHR ''K'' # site, date = date_text (int y) m (int (table_day r)), tmax_f = Some (double_of_int a),
         tmin_f = Some (double_of_int b), is_preliminary = True,
         is_corrected = list_ex corrected (map show_day (before @ r # after) @ trailer),
         source = ''nws_api_cf6'', issuance_time = []\<rparr>"
  by (rule cf6_parsed [OF assms])

definition demo_days :: "cf6_day list" where
  "demo_days =
    [\<lparr>table_day = 1, table_max = Some 66, table_min = Some 57, table_more = [''62'', ''-5'']\<rparr>,
     \<lparr>table_day = 2, table_max = Some 71, table_min = Some (- 3), table_more = [''T'']\<rparr>,
     \<lparr>table_day = 3, table_max = None, table_min = Some 55, table_more = []\<rparr>]"

theorem cf6_roundtrip_witness:
  "parse_cli_product_text (show_cf6 [newline] ''NYC'' 2026 5 demo_days [''$$'']) =
    Inr \<lparr>station = ''KNYC'', date = ''2026-05-02'', tmax_f = Some (double_of_int 71),
         tmin_f = Some (double_of_int (- 3)), is_preliminary = True, is_corrected = False,
         source = ''nws_api_cf6'', issuance_time = []\<rparr>"
proof -
  let ?r = "demo_days ! 1"
  have split: "demo_days = [demo_days ! 0] @ ?r # [demo_days ! 2]" by (simp add: demo_days_def)
  have f: "list_all isupper ''NYC''" "date_text 2026 5 2 = ''2026-05-02''" "list_all day_ok demo_days"
    "list_all plain_line [''$$'']" "\<not> list_ex corrected (map show_day demo_days @ [''$$''])"
    by code_simp+
  have r: "table_max ?r = Some 71" "table_min ?r = Some (- 3)" "table_day ?r = 2"
    "\<forall>q\<in>set [demo_days ! 0]. complete q \<longrightarrow> table_day q < table_day ?r"
    "\<forall>q\<in>set [demo_days ! 2]. complete q \<longrightarrow> table_day q \<le> table_day ?r"
    by (simp_all add: demo_days_def complete_def)
  from cf6_roundtrip [of "''NYC''" 5 2026 ?r 71 "- 3" "[demo_days ! 0]" "[demo_days ! 2]" "[''$$'']" "[newline]",
      folded split, OF _ f(1) _ _ _ _ r(1,2) f(3,4) r(4,5)] f(2,5) r(3)
  show ?thesis by simp
qed

end
