(* ===== verification/Settlement.thy ===== *)
theory Settlement
  imports End_To_End Cf6_Roundtrip
begin

text \<open>
  The settlement record of a day (\<open>CliReport\<close>) comes in by three paths: the text of the daily report the
  service holds as its latest CLI product, the text of the monthly table CF6, and the JSON archive of
  the Iowa Environmental Mesonet (\<open>parse_iem_cli_json\<close>). The archive reader keeps every dated row, and
  the three paths agree on a day.
\<close>

section \<open>The archive\<close>

text \<open>A row as the archive writes it, with the day under its current or its older name.\<close>

definition iem_row_json :: "bool \<Rightarrow> CliReport \<Rightarrow> json" where
  "iem_row_json old r = JObject
     [(''station'', JString (station r)), (if old then ''date'' else ''valid'', JString (date r)),
      (''high'', optional JNumber (tmax_f r)), (''low'', optional JNumber (tmin_f r))]"

definition iem_json :: "string \<Rightarrow> (bool \<times> CliReport) list \<Rightarrow> json" where
  "iem_json key rows = JObject [(''generated_at'', JNull), (key, JArray (map (\<lambda>(old, r). iem_row_json old r) rows))]"

text \<open>The fields a row of the archive does not carry have fixed values.\<close>

definition iem_record :: "CliReport \<Rightarrow> bool" where
  "iem_record r \<longleftrightarrow> is_preliminary r \<and> \<not> is_corrected r \<and> source r = ''iem_json'' \<and> CliReport.issuance_time r = []"

lemma iem_row_printed: "iem_record r \<Longrightarrow> iem_row (iem_row_json old r) = r"
  by (cases r) (simp add: iem_row_def iem_row_json_def iem_record_def default_CliReport_def wire_simps
      get_string_def Let_def)

lemma iem_parsed:
  assumes "\<forall>(old, r)\<in>set rows. iem_record r" and "key = ''results'' \<or> key = ''data''"
    and "glz_read b = Inr (iem_json key rows)"
  shows "parse_iem_cli_json glz_read b = Inr (filter (\<lambda>r. date r \<noteq> []) (map snd rows))"
proof -
  let ?arr = "map (\<lambda>(old, r). iem_row_json old r) rows" and ?tree = "iem_json key rows"
  have rows: "map iem_row ?arr = map snd rows" using assms(1) by (auto simp: iem_row_printed)
  have found: "(case find_array ?tree ''results'' of None \<Rightarrow> find_array ?tree ''data'' | Some rs \<Rightarrow> Some rs) = Some ?arr"
    using assms(2) by (auto simp: iem_json_def find_array_def wire_simps)
  show ?thesis unfolding parse_iem_cli_json_def parse_root_def assms(3) by (simp only: sum.case bind_result_simps found option.case rows)
qed

section \<open>Properties\<close>

text \<open>
  C15: the archive reader returns exactly the rows that have a day, in their order, whichever of the
  two names the array of rows and the day have, with missing temperatures left out; a document without
  either array is refused, and so is text that is not JSON.
\<close>

theorem iem_roundtrip:
  "((\<forall>(old, r)\<in>set rows. iem_record r) \<and> key \<in> {''results'', ''data''} \<and> glz_read b = Inr (iem_json key rows) \<longrightarrow>
     parse_iem_cli_json glz_read b = Inr (filter (\<lambda>r. date r \<noteq> []) (map snd rows))) \<and>
   (key \<notin> {''results'', ''data''} \<and> glz_read b = Inr (iem_json key rows) \<longrightarrow>
     parse_iem_cli_json glz_read b = Inl (Error_parse ''IEM cli.py: no results array'')) \<and>
   (glz_read b = Inl msg \<longrightarrow> parse_iem_cli_json glz_read b = Inl (Error_parse msg))"
proof (intro conjI impI; (elim conjE)?)
  assume "\<forall>(old, r)\<in>set rows. iem_record r" "key \<in> {''results'', ''data''}" "glz_read b = Inr (iem_json key rows)"
  then show "parse_iem_cli_json glz_read b = Inr (filter (\<lambda>r. date r \<noteq> []) (map snd rows))"
    by (intro iem_parsed) simp_all
next
  assume "key \<notin> {''results'', ''data''}" "glz_read b = Inr (iem_json key rows)"
  then have "''results'' \<noteq> key" "''data'' \<noteq> key" "glz_read b = Inr (iem_json key rows)" by auto
  then show "parse_iem_cli_json glz_read b = Inl (Error_parse ''IEM cli.py: no results array'')"
    by (simp add: parse_iem_cli_json_def parse_root_def iem_json_def wire_simps find_array_def)
next
  assume "glz_read b = Inl msg"
  then show "parse_iem_cli_json glz_read b = Inl (Error_parse msg)"
    by (simp add: parse_iem_cli_json_def parse_root_def)
qed

definition demo_record :: CliReport where
  "demo_record = \<lparr>station = ''KNYC'', date = ''2026-05-16'', tmax_f = Some (double_of_int 72),
     tmin_f = Some (double_of_int 58), is_preliminary = True, is_corrected = False, source = ''iem_json'', issuance_time = []\<rparr>"

theorem iem_roundtrip_witness:
  "parse_iem_cli_json (\<lambda>_. Inr (iem_json ''data'' [(True, demo_record), (False, demo_record\<lparr>date := []\<rparr>)])) [] = Inr [demo_record]"
  using iem_roundtrip [of "[(True, demo_record), (False, demo_record\<lparr>date := []\<rparr>)]" "''data''"
      "\<lambda>_. Inr (iem_json ''data'' [(True, demo_record), (False, demo_record\<lparr>date := []\<rparr>)])" "[]"]
  by (simp add: iem_record_def demo_record_def)

definition settled :: "string \<Rightarrow> nat \<Rightarrow> nat \<Rightarrow> nat \<Rightarrow> int \<Rightarrow> int \<Rightarrow> string \<Rightarrow> CliReport" where
  "settled site y m d tmax tmin src =
     \<lparr>station = CHR ''K'' # site, date = date_text (int y) m (int d), tmax_f = Some (double_of_int tmax),
      tmin_f = Some (double_of_int tmin), is_preliminary = True, is_corrected = False, source = src, issuance_time = []\<rparr>"

text \<open>
  C14: the three paths agree on the day. When the latest CLI product the service holds for a place is the
  report of a day, a new client fetches it with one transfer, and the record parsed from its text, the
  one parsed from a monthly table whose latest complete day is that day, and the one found in an
  archive that has the day hold the same date, temperatures and flags; the table and the archive name
  the same station, and so does the report when its header names the site as the issuing office.
\<close>

theorem settlement_paths_agree:
  assumes client: "platform_ok P tm transfers" "now \<le> tm w" "refill_interval (sanitized (rate_limit cfg)) < ns_to_ms int64_max"
      "usable cfg" "answers P (http cfg) pages"
    and day: "length office = 3" "list_all isupper office" "length site = 3" "list_all isupper site" "1 \<le> m" "m \<le> 12" "1 \<le> d" "d \<le> 31" "1900 \<le> y" "y \<le> 2200"
      "int32_range tmax" "int32_range tmin" "eol = [newline] \<or> eol = [carriage_return, newline]"
    and product: "holds_at P cfg pages (latest_product_path ''CLI'' place) (product_json p)"
      "product_text p = show_cli eol office site y m d tmax tmin"
    and month: "table_day r = d" "table_max r = Some tmax" "table_min r = Some tmin"
      "list_all day_ok (before @ r # after)" "list_all plain_line trailer"
      "\<forall>q\<in>set before. complete q \<longrightarrow> table_day q < d" "\<forall>q\<in>set after. complete q \<longrightarrow> table_day q \<le> d"
      "\<not> list_ex corrected (map show_day (before @ r # after) @ trailer)"
    and archive: "\<forall>(old, q)\<in>set rows. iem_record q" "key = ''results'' \<or> key = ''data''"
      "glz_read b = Inr (iem_json key rows)" "(old, settled site y m d tmax tmin ''iem_json'') \<in> set rows"
  shows "(\<exists>c' w'. get_latest_product P ''CLI'' place (make_NWSClient True True cfg now) w = Some (Inr p, c', w') \<and>
           transfers w' = Suc (transfers w)) \<and>
    (\<exists>st. parse_cli_product_text (product_text p) = Inr ((settled site y m d tmax tmin ''nws_api_cli'')\<lparr>station := st\<rparr>) \<and>
       (office = site \<longrightarrow> st = CHR ''K'' # site)) \<and>
    parse_cli_product_text (show_cf6 eol site y m (before @ r # after) trailer) = Inr (settled site y m d tmax tmin ''nws_api_cf6'') \<and>
    (\<exists>rs. parse_iem_cli_json glz_read b = Inr rs \<and> settled site y m d tmax tmin ''iem_json'' \<in> set rs)"
proof (intro conjI)
  show "\<exists>c' w'. get_latest_product P ''CLI'' place (make_NWSClient True True cfg now) w = Some (Inr p, c', w') \<and>
      transfers w' = Suc (transfers w)"
    using endpoint_answered [OF fresh_online [OF client(1-3)] client(5,4) location_reads_back(13) TrueI product(1)]
    unfolding get_latest_product_def by blast
  show "\<exists>st. parse_cli_product_text (product_text p) = Inr ((settled site y m d tmax tmin ''nws_api_cli'')\<lparr>station := st\<rparr>) \<and>
      (office = site \<longrightarrow> st = CHR ''K'' # site)"
    using cli_parsed [OF day] unfolding product(2) settled_def by auto
  show "parse_cli_product_text (show_cf6 eol site y m (before @ r # after) trailer) = Inr (settled site y m d tmax tmin ''nws_api_cf6'')"
    using cf6_parsed [OF day(3-6,9,10) month(2-5) _ _ day(13)] month(1,6-8) by (simp add: settled_def)
  have "iso_date (date_text (int y) m (int d)) (int y) (int m) (int d)" using day by (intro date_text_iso) simp_all
  then have "date (settled site y m d tmax tmin ''iem_json'') \<noteq> []" by (auto simp: iso_date_def settled_def)
  with archive(4) iem_parsed [of rows key glz_read b, OF archive(1-3)]
  show "\<exists>rs. parse_iem_cli_json glz_read b = Inr rs \<and> settled site y m d tmax tmin ''iem_json'' \<in> set rs" by force
qed

definition demo_product :: ProductProperties where
  "demo_product = default_ProductProperties\<lparr>product_text := show_cli [newline] ''OKX'' ''NYC'' 2026 5 2 71 (- 3)\<rparr>"

theorem settlement_paths_agree_witness:
  "(\<exists>c' w'. get_latest_product (demo_service (\<lambda>_. product_json demo_product)) ''CLI'' ''NYC'' (make_NWSClient True True demo_config 0) (0, 0) =
      Some (Inr demo_product, c', w') \<and> snd w' = 1) \<and>
   (\<exists>st. parse_cli_product_text (product_text demo_product) =
      Inr ((settled ''NYC'' 2026 5 2 71 (- 3) ''nws_api_cli'')\<lparr>station := st\<rparr>)) \<and>
   parse_cli_product_text (show_cf6 [newline] ''NYC'' 2026 5 demo_days [''$$'']) =
     Inr (settled ''NYC'' 2026 5 2 71 (- 3) ''nws_api_cf6'') \<and>
   date (settled ''NYC'' 2026 5 2 71 (- 3) ''nws_api_cli'') = ''2026-05-02''"
proof -
  let ?r = "demo_days ! 1" and ?docs = "\<lambda>_. product_json demo_product"
  let ?rows = "[(False, settled ''NYC'' 2026 5 2 71 (- 3) ''iem_json'')]"
  have split: "demo_days = [demo_days ! 0] @ ?r # [demo_days ! 2]" by (simp add: demo_days_def)
  have o: "list_all isupper ''OKX''" by code_simp
  have f: "list_all isupper ''NYC''" "date_text 2026 5 2 = ''2026-05-02''" "list_all day_ok demo_days"
    "list_all plain_line [''$$'']" "\<not> list_ex corrected (map show_day demo_days @ [''$$''])"
    by code_simp+
  have r: "table_day ?r = 2" "table_max ?r = Some 71" "table_min ?r = Some (- 3)"
    "\<forall>q\<in>set [demo_days ! 0]. complete q \<longrightarrow> table_day q < 2"
    "\<forall>q\<in>set [demo_days ! 2]. complete q \<longrightarrow> table_day q \<le> 2"
    by (simp_all add: demo_days_def complete_def)
  have ans: "answers (demo_service ?docs) (http demo_config) answer_of"
    by (rule demo_service_answers) (simp add: demo_config_def default_ClientConfig_def)
  have held: "holds_at (demo_service ?docs) demo_config answer_of (latest_product_path ''CLI'' ''NYC'') (product_json demo_product)"
    by (rule demo_service_holds, rule nul_free_paths) (simp_all add: latest_product_path_def)
  have rec: "\<forall>(old, q)\<in>set ?rows. iem_record q" by (simp add: iem_record_def settled_def)
  have prod: "product_text demo_product = show_cli [newline] ''OKX'' ''NYC'' 2026 5 2 71 (- 3)" by (simp add: demo_product_def)
  from settlement_paths_agree [where office = "''OKX''" and site = "''NYC''" and y = 2026 and m = 5 and d = 2 and tmax = 71 and tmin = "- 3"
      and eol = "[newline]" and r = ?r and before = "[demo_days ! 0]" and after = "[demo_days ! 2]" and trailer = "[''$$'']"
      and rows = ?rows and key = "''data''" and glz_read = "\<lambda>_. Inr (iem_json ''data'' ?rows)" and b = "[]" and old = False
      and now = 0 and w = "(0, 0)", folded split,
      OF demo_service_ok _ demo_config_usable(2,1) ans _ o _ f(1) _ _ _ _ _ _ _ _ _ held prod r(1-3) f(3,4) r(4,5) f(5) rec] f(2)
  show ?thesis by (auto simp: settled_def)
qed

end
