(* ===== verification/Pagination.thy ===== *)
theory Pagination
  imports Nws_Error Url_Encode
begin

text \<open>
  Pagination (\<open>include/nws/pagination.hpp\<close>): an iterator that fetches page after page through a
  caller-supplied function and stops at a repeated cursor. The fetch function is any state
  transformer; what it was asked and what it answered is recorded by a ghost history of the world
  in the theorems.
\<close>

section \<open>Data\<close>

record Cursor =
  cursor_value :: string

definition Cursor_empty :: "Cursor \<Rightarrow> bool" where
  "Cursor_empty c \<longleftrightarrow> cursor_value c = []"

record PaginationParams =
  cursor :: "Cursor option"
  page_limit :: "int option"

definition default_PaginationParams :: PaginationParams where
  "default_PaginationParams = \<lparr>cursor = None, page_limit = None\<rparr>"

record 'a PaginatedResponse =
  page_data :: "'a list"
  next_cursor :: "Cursor option"

definition has_more :: "'a PaginatedResponse \<Rightarrow> bool" where
  "has_more page \<longleftrightarrow> (case next_cursor page of None \<Rightarrow> False | Some c \<Rightarrow> \<not> Cursor_empty c)"

record PaginatedIterator =
  seen_cursors :: "string set"
  params :: PaginationParams
  exhausted :: bool

type_synonym ('a, 'w) fetch_fn = "PaginationParams \<Rightarrow> 'w \<Rightarrow> 'a PaginatedResponse result \<times> 'w"

section \<open>Operations\<close>

definition make_PaginatedIterator :: "PaginationParams \<Rightarrow> PaginatedIterator" where
  "make_PaginatedIterator p =
    (let it = \<lparr>seen_cursors = {}, params = p, exhausted = False\<rparr>
     in case cursor p of
          None \<Rightarrow> it
        | Some c \<Rightarrow> if \<not> Cursor_empty c
                    then it\<lparr>seen_cursors := insert (cursor_value c) (seen_cursors it)\<rparr> else it)"

definition next_page ::
  "('a, 'w) fetch_fn \<Rightarrow> PaginatedIterator \<Rightarrow> 'w \<Rightarrow> 'a list result \<times> PaginatedIterator \<times> 'w" where
  "next_page fetch_fn it w =
    (if exhausted it then (Inr [], it, w)
     else case fetch_fn (params it) w of
       (Inl e, w) \<Rightarrow> (Inl e, it, w)
     | (Inr page, w) \<Rightarrow>
         if has_more page
         then (let c = cursor_value (the (next_cursor page))
               in if c \<in> seen_cursors it
                  then (Inl (Error_parse ''Pagination cursor repeated''), it\<lparr>exhausted := True\<rparr>, w)
                  else (Inr (page_data page),
                        it\<lparr>seen_cursors := insert c (seen_cursors it),
                           params := (params it)\<lparr>cursor := next_cursor page\<rparr>\<rparr>, w))
         else (Inr (page_data page), it\<lparr>exhausted := True\<rparr>, w))"

partial_function (option) collect_loop ::
  "('a, 'w) fetch_fn \<Rightarrow> 'a list \<Rightarrow> PaginatedIterator \<Rightarrow> 'w \<Rightarrow> ('a list result \<times> PaginatedIterator \<times> 'w) option" where
  "collect_loop fetch_fn all it w =
    (if exhausted it then Some (Inr all, it, w)
     else case next_page fetch_fn it w of
       (Inl e, it, w) \<Rightarrow> Some (Inl e, it, w)
     | (Inr page, it, w) \<Rightarrow> collect_loop fetch_fn (all @ page) it w)"

definition collect_all ::
  "('a, 'w) fetch_fn \<Rightarrow> PaginatedIterator \<Rightarrow> 'w \<Rightarrow> ('a list result \<times> PaginatedIterator \<times> 'w) option" where
  "collect_all fetch_fn it w = collect_loop fetch_fn [] it w"

definition build_paginated_query :: "PaginationParams \<Rightarrow> string" where
  "build_paginated_query p =
    (let query = (case cursor p of
                    None \<Rightarrow> []
                  | Some c \<Rightarrow> if \<not> Cursor_empty c then ''cursor='' @ encode_query_value (cursor_value c)
                              else [])
     in case page_limit p of
          None \<Rightarrow> query
        | Some n \<Rightarrow> (if query \<noteq> [] then query @ ''&'' else query) @ ''limit='' @ int_to_string n)"

section \<open>Traces of requests\<close>

type_synonym 'a page_trace = "(PaginationParams \<times> 'a PaginatedResponse result) list"

text \<open>Every request after the first asks for the cursor of the page before it.\<close>

fun chained :: "'a page_trace \<Rightarrow> bool" where
  "chained ((p, Inr page) # (q, r) # tr) \<longleftrightarrow>
     has_more page \<and> q = p\<lparr>cursor := next_cursor page\<rparr> \<and> chained ((q, r) # tr)"
| "chained ((p, Inl e) # x # tr) \<longleftrightarrow> False"
| "chained tr \<longleftrightarrow> True"

definition requested :: "'a page_trace \<Rightarrow> string set" where
  "requested tr = {cursor_value c | c. Some c \<in> set (map (cursor \<circ> fst) tr)}"

text \<open>
  The answer a complete collection owes to its trace, when the cursors \<open>known\<close> were seen before it: all
  pages up to one that has no continuation; the error of a fetch that failed; or the complaint about
  a cursor that is known or was already asked for.
\<close>

definition collected ::
  "string set \<Rightarrow> 'a list \<Rightarrow> 'a page_trace \<Rightarrow> 'a list result \<Rightarrow> PaginatedIterator \<Rightarrow> bool" where
  "collected known before tr r it \<longleftrightarrow>
    (case r of
       Inr all \<Rightarrow> \<exists>pages. map snd tr = map Inr pages \<and> all = before @ concat (map page_data pages) \<and>
                    (pages \<noteq> [] \<longrightarrow> \<not> has_more (last pages)) \<and> exhausted it
     | Inl e \<Rightarrow> (\<exists>pages. map snd tr = map Inr pages @ [Inl e]) \<and> \<not> exhausted it \<or>
                (\<exists>pages c. map snd tr = map Inr pages \<and> pages \<noteq> [] \<and> next_cursor (last pages) = Some c \<and>
                   cursor_value c \<noteq> [] \<and> cursor_value c \<in> known \<union> requested tr) \<and>
                e = Error_parse ''Pagination cursor repeated'' \<and> exhausted it)"

definition fresh_requests :: "string set \<Rightarrow> 'a page_trace \<Rightarrow> bool" where
  "fresh_requests S tr \<longleftrightarrow>
     distinct (map (cursor \<circ> fst) tr) \<and>
     (\<forall>x \<in> set tr. \<exists>c. cursor (fst x) = Some c \<and> cursor_value c \<noteq> [] \<and> cursor_value c \<in> S)"

lemma next_page_cases:
  assumes "\<not> exhausted it" and "fetch_fn (params it) w = (res, w')"
  obtains (error) e where "res = Inl e" "next_page fetch_fn it w = (Inl e, it, w')"
    | (final) page where "res = Inr page" "\<not> has_more page"
        "next_page fetch_fn it w = (Inr (page_data page), it\<lparr>exhausted := True\<rparr>, w')"
    | (repeated) page c where "res = Inr page" "has_more page" "next_cursor page = Some c"
        "cursor_value c \<in> seen_cursors it"
        "next_page fetch_fn it w =
           (Inl (Error_parse ''Pagination cursor repeated''), it\<lparr>exhausted := True\<rparr>, w')"
    | (more) page c where "res = Inr page" "has_more page" "next_cursor page = Some c"
        "cursor_value c \<noteq> []" "cursor_value c \<notin> seen_cursors it"
        "next_page fetch_fn it w =
           (Inr (page_data page), it\<lparr>seen_cursors := insert (cursor_value c) (seen_cursors it),
              params := (params it)\<lparr>cursor := Some c\<rparr>\<rparr>, w')"
proof (cases res)
  case (Inl e)
  then show thesis using assms by (intro error) (simp_all add: next_page_def)
next
  case (Inr page)
  show thesis
  proof (cases "has_more page")
    case False
    then show thesis using Inr assms by (intro final) (simp_all add: next_page_def)
  next
    case True
    then obtain c where c: "next_cursor page = Some c" "cursor_value c \<noteq> []"
      by (auto simp: has_more_def Cursor_empty_def split: option.splits)
    show thesis
    proof (cases "cursor_value c \<in> seen_cursors it")
      case seen: True
      then show thesis using Inr True c assms by (intro repeated) (simp_all add: next_page_def)
    next
      case False
      then show thesis using Inr True c assms by (intro more) (simp_all add: next_page_def)
    qed
  qed
qed

lemma requested_Cons:
  "requested ((p, r) # tr) = (case cursor p of None \<Rightarrow> {} | Some c \<Rightarrow> {cursor_value c}) \<union> requested tr"
  by (auto simp: requested_def split: option.splits)

lemma collected_Cons:
  assumes "collected known' (before @ page_data page) tr r it" and "tr \<noteq> []" and "known' \<subseteq> known \<union> requested tr"
  shows "collected known before ((p, Inr page) # tr) r it"
proof (cases r)
  case (Inr all)
  then obtain pages where pages: "map snd tr = map Inr pages" "all = before @ concat (map page_data (page # pages))"
      "pages \<noteq> [] \<longrightarrow> \<not> has_more (last pages)" "exhausted it"
    using assms(1) by (auto simp: collected_def)
  moreover from pages(1) assms(2) have "pages \<noteq> []" by auto
  ultimately show ?thesis
    unfolding Inr collected_def sum.case by (intro exI [of _ "page # pages"]) simp
next
  case (Inl e)
  have first: "\<exists>qs. map snd ((p, Inr page) # tr) = map Inr qs @ [Inl e]" if "map snd tr = map Inr ps @ [Inl e]" for ps
    using that by (intro exI [of _ "page # ps"]) simp
  have second: "\<exists>qs c. map snd ((p, Inr page) # tr) = map Inr qs \<and> qs \<noteq> [] \<and> next_cursor (last qs) = Some c \<and>
      cursor_value c \<noteq> [] \<and> cursor_value c \<in> known \<union> requested ((p, Inr page) # tr)"
    if "map snd tr = map Inr ps" "ps \<noteq> []" "next_cursor (last ps) = Some c" "cursor_value c \<noteq> []"
      "cursor_value c \<in> known' \<union> requested tr" for ps c
    using that assms(3) by (intro exI [of _ "page # ps"] exI [of _ c]) (auto simp: requested_Cons)
  from assms(1) first second show ?thesis unfolding Inl collected_def sum.case by blast
qed

text \<open>What one run of the loop from an iterator owes.\<close>

definition page_run ::
  "string set \<Rightarrow> 'a list \<Rightarrow> PaginatedIterator \<Rightarrow> 'a page_trace \<Rightarrow> 'a list result \<Rightarrow> PaginatedIterator \<Rightarrow> bool" where
  "page_run S before it tr r it' \<longleftrightarrow>
     tr \<noteq> [] \<and> fst (hd tr) = params it \<and> chained tr \<and> fresh_requests S (tl tr) \<and>
     length tr \<le> Suc (card S) \<and> collected (seen_cursors it) before tr r it'"

lemma page_run_single:
  "collected (seen_cursors it) before [(params it, res)] r it' \<Longrightarrow> page_run S before it [(params it, res)] r it'"
  by (cases res) (simp_all add: page_run_def fresh_requests_def)

lemma page_run_Cons:
  assumes "page_run (S - {cursor_value c}) (before @ page_data page)
      (it\<lparr>seen_cursors := insert (cursor_value c) (seen_cursors it), params := (params it)\<lparr>cursor := Some c\<rparr>\<rparr>) tr r it'"
    and "has_more page" "next_cursor page = Some c" "cursor_value c \<noteq> []" "cursor_value c \<in> S" "finite S"
  shows "page_run S before it ((params it, Inr page) # tr) r it'"
proof -
  obtain y ys where tr: "tr = ((params it)\<lparr>cursor := Some c\<rparr>, y) # ys"
    using assms(1) by (cases tr) (auto simp: page_run_def)
  have "Suc (card (S - {cursor_value c})) = card S" using assms(5,6) by (rule card_Suc_Diff1 [rotated])
  moreover have "fresh_requests S tr"
    using assms by (auto simp: page_run_def fresh_requests_def tr)
  moreover have "collected (seen_cursors it) before ((params it, Inr page) # tr) r it'"
    using assms(1) by (intro collected_Cons) (auto simp: page_run_def requested_Cons tr)
  ultimately show ?thesis using assms(1-3) by (simp add: page_run_def tr)
qed

lemma fewer_cursors: "finite C \<Longrightarrow> c \<in> C - S \<Longrightarrow> card (C - insert c S) < card (C - S)"
  by (intro psubset_card_mono) auto

text \<open>One pass of the loop: it is the last one, or it goes on with a new cursor.\<close>

lemma collect_loop_cases:
  assumes "\<not> exhausted it" and "fetch_fn (params it) w = (res, w1)"
  obtains (last) r it' where "collect_loop fetch_fn before it w = Some (r, it', w1)"
      "\<And>S. page_run S before it [(params it, res)] r it'"
    | (more) page c where "res = Inr page" "has_more page" "next_cursor page = Some c"
        "cursor_value c \<noteq> []" "cursor_value c \<notin> seen_cursors it"
        "collect_loop fetch_fn before it w = collect_loop fetch_fn (before @ page_data page)
           (it\<lparr>seen_cursors := insert (cursor_value c) (seen_cursors it), params := (params it)\<lparr>cursor := Some c\<rparr>\<rparr>) w1"
  using assms
proof (cases rule: next_page_cases)
  case (error e)
  show ?thesis
    by (rule last [of "Inl e" it], simp add: assms(1) collect_loop.simps [of fetch_fn before it w] error)
      (use assms(1) in \<open>intro page_run_single, simp add: collected_def error\<close>)
next
  case (final page)
  show ?thesis
    by (rule last [of "Inr (before @ page_data page)" "it\<lparr>exhausted := True\<rparr>"],
        simp add: assms(1) collect_loop.simps [of fetch_fn before it w] final
          collect_loop.simps [of fetch_fn _ "it\<lparr>exhausted := True\<rparr>"])
      (use final in \<open>intro page_run_single, simp add: collected_def exI [of _ "[page]"]\<close>)
next
  case (repeated page c)
  show ?thesis
    by (rule last [of "Inl (Error_parse ''Pagination cursor repeated'')" "it\<lparr>exhausted := True\<rparr>"],
        simp add: assms(1) collect_loop.simps [of fetch_fn before it w] repeated)
      (use repeated in \<open>intro page_run_single, auto simp: collected_def has_more_def Cursor_empty_def intro!: exI [of _ "[page]"]\<close>)
next
  case (more page c)
  show ?thesis
    by (rule that(2) [OF more(1-5)]) (simp add: assms(1) collect_loop.simps [of fetch_fn before it w] more(6))
qed

lemma collect_loop_trace:
  fixes history :: "'w \<Rightarrow> 'a page_trace"
  assumes log: "\<And>p w. history (snd (fetch_fn p w)) = history w @ [(p, fst (fetch_fn p w))]"
    and fin: "finite C"
    and cur: "\<And>p w page c. fst (fetch_fn p w) = Inr page \<Longrightarrow> next_cursor page = Some c \<Longrightarrow> cursor_value c \<in> C"
    and "\<not> exhausted it"
  shows "\<exists>r it' w' tr. collect_loop fetch_fn before it w = Some (r, it', w') \<and> history w' = history w @ tr \<and>
           page_run (C - seen_cursors it) before it tr r it'"
  using assms(4)
proof (induction "card (C - seen_cursors it)" arbitrary: before it w rule: less_induct)
  case less
  obtain res w1 where f: "fetch_fn (params it) w = (res, w1)" by (cases "fetch_fn (params it) w")
  have h: "history w1 = history w @ [(params it, res)]" using log [of "params it" w] f by simp
  from less.prems f show ?case
  proof (cases rule: collect_loop_cases [where before = before])
    case (last r it')
    with h show ?thesis by blast
  next
    case (more page c)
    let ?s = "insert (cursor_value c) (seen_cursors it)"
    let ?it = "it\<lparr>seen_cursors := ?s, params := (params it)\<lparr>cursor := Some c\<rparr>\<rparr>"
    have c: "cursor_value c \<in> C - seen_cursors it" using cur [of "params it" w] f more by simp
    have s: "C - ?s = (C - seen_cursors it) - {cursor_value c}" by auto
    have "card (C - seen_cursors ?it) < card (C - seen_cursors it)" using fewer_cursors [OF fin c] by simp
    moreover have "\<not> exhausted ?it" using less.prems by simp
    ultimately obtain r it' w' tr where
      ih: "collect_loop fetch_fn (before @ page_data page) ?it w1 = Some (r, it', w')"
        "history w' = history w1 @ tr" "page_run (C - ?s) (before @ page_data page) ?it tr r it'"
      using less.hyps [of ?it "before @ page_data page" w1] by auto
    have "page_run (C - seen_cursors it) before it ((params it, res) # tr) r it'"
      using page_run_Cons [OF ih(3) [unfolded s] more(2-4) c] fin more(1) by simp
    then show ?thesis using more(6) ih(1,2) h by auto
  qed
qed

section \<open>Queries\<close>

text \<open>The fields a query stands for; the builder writes the wire format of that list.\<close>

definition pagination_fields :: "PaginationParams \<Rightarrow> query_field list" where
  "pagination_fields p =
     (case cursor p of None \<Rightarrow> [] | Some c \<Rightarrow> if Cursor_empty c then [] else [(''cursor'', [cursor_value c])]) @
     (case page_limit p of None \<Rightarrow> [] | Some n \<Rightarrow> [(''limit'', [int_to_string n])])"

lemma build_paginated_query_fields:
  "build_paginated_query p = drop 1 (render_fields encode_query_value (pagination_fields p))"
  by (auto simp: build_paginated_query_def pagination_fields_def render_fields_def render_field_def
      encode_int_to_string Let_def split: option.splits)

section \<open>Properties\<close>

text \<open>
  C7: when the server only ever names finitely many different cursors (however it repeats or cycles
  them), collecting all pages terminates, asks for no cursor twice, makes at most one request more
  than there are cursors, follows the cursor of each page, and answers with the concatenation of
  the pages up to one without a continuation; otherwise with the first error of the server, or with
  a parse error at the first page whose cursor was already asked for, after which the iterator is
  exhausted. A page whose cursor is new is never the last one asked for.
\<close>

theorem collect_all_pages:
  fixes history :: "'w \<Rightarrow> 'a page_trace"
  assumes log: "\<And>p w. history (snd (fetch_fn p w)) = history w @ [(p, fst (fetch_fn p w))]"
    and fin: "finite C"
    and cur: "\<And>p w page c. fst (fetch_fn p w) = Inr page \<Longrightarrow> next_cursor page = Some c \<Longrightarrow> cursor_value c \<in> C"
  shows "\<exists>r it' w' tr. collect_all fetch_fn (make_PaginatedIterator p) w = Some (r, it', w') \<and>
           history w' = history w @ tr \<and> fst (hd tr) = p \<and> chained tr \<and>
           distinct (map (cursor \<circ> fst) tr) \<and> length tr \<le> Suc (card C) \<and> collected {} [] tr r it'"
proof -
  let ?it = "make_PaginatedIterator p"
  have it: "\<not> exhausted ?it" "params ?it = p" by (auto simp: make_PaginatedIterator_def Let_def split: option.splits)
  have "\<exists>r it' w' tr. collect_loop fetch_fn [] ?it w = Some (r, it', w') \<and> history w' = history w @ tr \<and>
      page_run (C - seen_cursors ?it) [] ?it tr r it'"
    by (rule collect_loop_trace [OF log fin _ it(1)]) (rule cur)
  then obtain r it' w' tr where t: "collect_all fetch_fn ?it w = Some (r, it', w')" "history w' = history w @ tr"
      "page_run (C - seen_cursors ?it) [] ?it tr r it'"
    unfolding collect_all_def by blast
  obtain x xs where tr: "tr = x # xs" "fst x = p" using t(3) it(2) by (cases tr) (auto simp: page_run_def)
  have fresh: "fresh_requests (C - seen_cursors ?it) xs" using t(3) by (simp add: page_run_def tr)
  have "cursor p \<notin> set (map (cursor \<circ> fst) xs)"
  proof
    assume "cursor p \<in> set (map (cursor \<circ> fst) xs)"
    then obtain y where y: "y \<in> set xs" "cursor p = cursor (fst y)" by auto
    obtain c where c: "cursor (fst y) = Some c" "cursor_value c \<noteq> []" "cursor_value c \<notin> seen_cursors ?it"
      using fresh y(1) unfolding fresh_requests_def by blast
    then show False
      using y(2) by (simp add: make_PaginatedIterator_def Cursor_empty_def)
  qed
  then have "distinct (map (cursor \<circ> fst) tr)" using fresh by (simp add: tr fresh_requests_def)
  moreover have "length tr \<le> Suc (card C)"
    using t(3) card_mono [OF fin, of "C - seen_cursors ?it"] by (auto simp: page_run_def)
  moreover have "seen_cursors ?it \<subseteq> requested tr"
    using tr by (cases x) (auto simp: make_PaginatedIterator_def Let_def requested_Cons split: option.splits if_splits)
  then have "seen_cursors ?it \<union> requested tr = {} \<union> requested tr" by blast
  then have "collected {} [] tr r it'" using t(3) unfolding page_run_def collected_def by (simp only:)
  ultimately show ?thesis using t it(2) by (auto simp: page_run_def)
qed

text \<open>A server with two pages whose second page points back to the first cursor.\<close>

definition loop_server :: "(int, int page_trace) fetch_fn" where
  "loop_server p w =
    (let page = \<lparr>page_data = [int (length w)], next_cursor = Some \<lparr>cursor_value = ''c''\<rparr>\<rparr>
     in (Inr page, w @ [(p, Inr page)]))"

theorem collect_all_pages_witness:
  "\<exists>r it' tr. collect_all loop_server (make_PaginatedIterator default_PaginationParams) [] =
     Some (r, it', tr) \<and> distinct (map (cursor \<circ> fst) tr) \<and> length tr \<le> 2 \<and> collected {} [] tr r it'"
proof -
  have "cursor_value c \<in> {''c''}" if "fst (loop_server p w) = Inr page" "next_cursor page = Some c" for p w page c
    using that by (auto simp: loop_server_def Let_def)
  then show ?thesis
    using collect_all_pages [of "\<lambda>w. w" loop_server "{''c''}" default_PaginationParams "[]"]
    by (auto simp: loop_server_def Let_def)
qed

text \<open>
  A repeated cursor stops the iteration at once: \<open>next\<close> fails with a parse error, the iterator
  is exhausted, and from then on \<open>next\<close> gives an empty page without calling the fetch function.
\<close>

theorem next_page_repeated_cursor:
  assumes "\<not> exhausted it" and "fetch_fn (params it) w = (Inr page, w1)"
    and "next_cursor page = Some c" and "cursor_value c \<noteq> []" and "cursor_value c \<in> seen_cursors it"
  shows "\<exists>it'. next_page fetch_fn it w = (Inl (Error_parse ''Pagination cursor repeated''), it', w1) \<and>
           exhausted it' \<and> (\<forall>fetch_fn w. next_page fetch_fn it' w = (Inr ([] :: 'a list), it', w))"
  using assms by (simp add: next_page_def has_more_def Cursor_empty_def)

theorem next_page_repeated_cursor_witness:
  "\<exists>it'. next_page loop_server \<lparr>seen_cursors = {''c''}, params = default_PaginationParams, exhausted = False\<rparr> [] =
      (Inl (Error_parse ''Pagination cursor repeated''), it', snd (loop_server default_PaginationParams [])) \<and>
     exhausted it' \<and> (\<forall>fetch_fn (w::nat). next_page fetch_fn it' w = (Inr ([] :: int list), it', w))"
  using next_page_repeated_cursor [of "\<lparr>seen_cursors = {''c''}, params = default_PaginationParams, exhausted = False\<rparr>"
      loop_server "[]" "\<lparr>page_data = [0], next_cursor = Some \<lparr>cursor_value = ''c''\<rparr>\<rparr>" _ "\<lparr>cursor_value = ''c''\<rparr>"]
  by (simp add: loop_server_def Let_def)

text \<open>
  The query of a page request reads back as exactly the cursor and the limit it was built from,
  whatever characters the server put into its cursor.
\<close>

theorem paginated_query_roundtrip:
  "parse_fields percent_decode
     (if build_paginated_query p = [] then [] else CHR ''?'' # build_paginated_query p) =
   Some (pagination_fields p)"
proof -
  have "list_all plain_field (pagination_fields p)"
    by (simp add: pagination_fields_def plain_field_def split: option.splits)
  moreover have "(if build_paginated_query p = [] then [] else CHR ''?'' # build_paginated_query p) =
      render_fields encode_query_value (pagination_fields p)"
    by (auto simp: build_paginated_query_fields render_fields_def pagination_fields_def render_field_def
        split: option.splits)
  ultimately show ?thesis by (simp add: url_codec.parse_render_fields)
qed

end
