(* ===== verification/Nbp_Bulletin.thy ===== *)
theory Nbp_Bulletin
  imports Nws_Error Text_Scan
begin

text \<open>
  The NBP bulletin parser (\<open>include/nws/models/nbp_bulletin.hpp\<close>, \<open>src/models/nbp_bulletin.cpp\<close>): a text
  of station blocks, each with a header line, a line of column names and labelled rows of values.
  The loop over the lines is a fold of \<open>nbp_line\<close> over its state.
\<close>

section \<open>Data\<close>

record NbpRow =
  nbp_label :: string
  nbp_values :: "int option list"

record NbpStation =
  nbp_station :: string
  cycle_utc :: string
  columns :: "string list"
  nbp_rows :: "NbpRow list"

definition default_NbpStation :: NbpStation where
  "default_NbpStation = \<lparr>nbp_station = [], cycle_utc = [], columns = [], nbp_rows = []\<rparr>"

record nbp_state =
  nbp_stations :: "NbpStation list"
  nbp_cur :: NbpStation
  in_block :: bool
  have_columns :: bool

section \<open>Parser\<close>

definition as_value :: "string \<Rightarrow> int option" where
  "as_value t =
    (if t = [] \<or> t = ''999'' \<or> t = ''-99'' \<or> t = ''NG'' \<or> t = ''**'' then None
     else case from_chars t of
       Converted v n \<Rightarrow> if n \<noteq> length t then None else Some v
     | _ \<Rightarrow> None)"

definition contains :: "string \<Rightarrow> string \<Rightarrow> bool" where
  "contains hay needle \<longleftrightarrow> find_sub hay needle \<noteq> None"

function nbp_lines :: "string \<Rightarrow> string list" where
  "nbp_lines text =
    (case find_index (\<lambda>c. c = newline) text of
       None \<Rightarrow> [strip_cr text]
     | Some nl \<Rightarrow> strip_cr (take nl text) # nbp_lines (drop (nl + 1) text))"
  by pat_completeness auto

termination nbp_lines
  by (relation "measure length") (auto dest: find_index_Some)

declare nbp_lines.simps [simp del]

definition is_header :: "string \<Rightarrow> bool" where
  "is_header line \<longleftrightarrow> contains line '' NBP '' \<and> contains line ''GUIDANCE''"

text \<open>The station of a header line: its first token, and what follows \<open>GUIDANCE\<close>.\<close>

definition nbp_header :: "string \<Rightarrow> NbpStation" where
  "nbp_header line =
     default_NbpStation
       \<lparr>nbp_station := (case tokens line of [] \<Rightarrow> [] | t # _ \<Rightarrow> t),
        cycle_utc :=
          (case find_sub line ''GUIDANCE'' of
             None \<Rightarrow> []
           | Some gp \<Rightarrow>
               let rest = drop (gp + 8) line
               in case find_first_not_of rest [CHR '' '', CHR 0x09] of None \<Rightarrow> [] | Some a \<Rightarrow> drop a rest)\<rparr>"

text \<open>\<open>if (!cur.station.empty()) stations.push_back(cur)\<close>.\<close>

definition push_station :: "nbp_state \<Rightarrow> nbp_state" where
  "push_station st =
     (if nbp_station (nbp_cur st) \<noteq> [] then st\<lparr>nbp_stations := nbp_stations st @ [nbp_cur st]\<rparr> else st)"

definition nbp_line :: "nbp_state \<Rightarrow> string \<Rightarrow> nbp_state" where
  "nbp_line st line =
    (if is_header line
     then (if in_block st then push_station st else st)
            \<lparr>nbp_cur := nbp_header line, in_block := True, have_columns := False\<rparr>
     else if \<not> in_block st then st
     else if contains line ''$$''
     then (push_station st)\<lparr>nbp_cur := default_NbpStation, in_block := False, have_columns := False\<rparr>
     else case tokens line of
       [] \<Rightarrow> st
     | lbl # tk \<Rightarrow>
         if \<not> have_columns st \<and> (lbl = ''UTC'' \<or> lbl = ''FHR'' \<or> lbl = ''DT'')
         then st\<lparr>nbp_cur := (nbp_cur st)\<lparr>columns := columns (nbp_cur st) @ tk\<rparr>, have_columns := True\<rparr>
         else st\<lparr>nbp_cur := (nbp_cur st)
                  \<lparr>nbp_rows := nbp_rows (nbp_cur st) @ [\<lparr>nbp_label = lbl, nbp_values = map as_value tk\<rparr>]\<rparr>\<rparr>)"

definition nbp_init :: nbp_state where
  "nbp_init = \<lparr>nbp_stations = [], nbp_cur = default_NbpStation, in_block = False, have_columns = False\<rparr>"

definition parse_nbp_bulletin :: "string \<Rightarrow> NbpStation list result" where
  "parse_nbp_bulletin text =
    (if text = [] then Inl (Error_parse ''empty NBP bulletin'')
     else
       let st = foldl nbp_line nbp_init (nbp_lines text);
           st = (if in_block st then push_station st else st)
       in if nbp_stations st = [] then Inl (Error_parse ''no NBP station blocks found'')
          else Inr (nbp_stations st))"

section \<open>Lines and values\<close>

interpretation nbp_reader: line_reader nbp_lines
proof
  show "nbp_lines ln = [ln]" if "plain_line ln" for ln
    using that by (subst nbp_lines.simps) (simp add: plain_line_def find_no_newline)
  show "nbp_lines (ln @ newline # rest) = strip_cr ln # nbp_lines rest" if "newline \<notin> set ln" for ln rest
    using that by (subst nbp_lines.simps) (simp add: find_newline)
qed

lemma contains_sublist: "contains hay needle \<longleftrightarrow> sublist needle hay"
  by (auto simp: contains_def find_sub_None)

lemma as_value_range: "as_value t = Some v \<Longrightarrow> int32_range v"
  by (auto simp: as_value_def from_chars_def Let_def split: if_splits)

text \<open>Missing values print as \<open>**\<close>; the sentinels 999 and -99 do not print as values.\<close>

definition show_value :: "int option \<Rightarrow> string" where
  "show_value v = (case v of None \<Rightarrow> ''**'' | Some i \<Rightarrow> int_to_string i)"

definition value_ok :: "int option \<Rightarrow> bool" where
  "value_ok v \<longleftrightarrow> (case v of None \<Rightarrow> True | Some i \<Rightarrow> int32_range i \<and> i \<noteq> 999 \<and> i \<noteq> - 99)"

lemma as_value_show: "value_ok v \<Longrightarrow> as_value (show_value v) = v"
proof (cases v)
  case (Some i)
  assume "value_ok v"
  then have i: "int32_range i" "i \<noteq> 999" "i \<noteq> - 99" by (simp_all add: value_ok_def Some)
  have f: "from_chars (int_to_string i) = Converted i (length (int_to_string i))"
    using from_chars_int_to_string [of i "[]"] i(1) by simp
  have "from_chars ''999'' = Converted 999 3" "from_chars ''-99'' = Converted (- 99) 3"
    "from_chars ''NG'' = Invalid_argument" "from_chars ''**'' = Invalid_argument"
    by code_simp+
  with f i have "int_to_string i \<notin> {[], ''999'', ''-99'', ''NG'', ''**''}" by auto
  with f show ?thesis by (simp add: as_value_def show_value_def Some)
qed (simp add: as_value_def show_value_def)

section \<open>Invariant\<close>

definition row_wf :: "NbpRow \<Rightarrow> bool" where
  "row_wf r \<longleftrightarrow> is_token (nbp_label r) \<and> (\<forall>v. Some v \<in> set (nbp_values r) \<longrightarrow> int32_range v)"

definition block_wf :: "NbpStation \<Rightarrow> bool" where
  "block_wf s \<longleftrightarrow> list_all is_token (columns s) \<and> list_all row_wf (nbp_rows s) \<and>
     (nbp_station s = [] \<or> is_token (nbp_station s))"

definition nbp_inv :: "nbp_state \<Rightarrow> bool" where
  "nbp_inv st \<longleftrightarrow> block_wf (nbp_cur st) \<and> list_all (\<lambda>s. block_wf s \<and> nbp_station s \<noteq> []) (nbp_stations st)"

lemma nbp_header_wf: "block_wf (nbp_header line)"
  by (auto simp: nbp_header_def block_wf_def default_NbpStation_def split: list.splits dest: tokens_Cons)

lemma default_wf: "block_wf default_NbpStation"
  by (simp add: block_wf_def default_NbpStation_def)

lemma push_station_inv: "nbp_inv st \<Longrightarrow> nbp_inv (push_station st)"
  by (simp add: nbp_inv_def push_station_def)

lemma row_wf_line: "is_token lbl \<Longrightarrow> row_wf \<lparr>nbp_label = lbl, nbp_values = map as_value tk\<rparr>"
  by (auto simp: row_wf_def dest: as_value_range [OF sym])

lemma nbp_line_inv:
  assumes "nbp_inv st"
  shows "nbp_inv (nbp_line st line)"
proof -
  consider "is_header line"
    | "\<not> is_header line" "\<not> in_block st \<or> contains line ''$$''"
    | "\<not> is_header line" "in_block st" "\<not> contains line ''$$''"
    by blast
  then show ?thesis
  proof cases
    case 1
    then show ?thesis
      using assms push_station_inv [OF assms] by (simp add: nbp_line_def nbp_inv_def nbp_header_wf)
  next
    case 2
    then show ?thesis
      using assms push_station_inv [OF assms] by (auto simp: nbp_line_def nbp_inv_def default_wf)
  next
    case 3
    show ?thesis
    proof (cases "tokens line")
      case (Cons lbl tk)
      with 3 tokens_Cons [OF Cons] assms show ?thesis
        by (simp add: nbp_line_def nbp_inv_def block_wf_def row_wf_line)
    qed (use 3 assms in \<open>simp add: nbp_line_def\<close>)
  qed
qed

lemma nbp_lines_inv: "nbp_inv st \<Longrightarrow> nbp_inv (foldl nbp_line st ls)"
  by (induction ls arbitrary: st) (simp_all add: nbp_line_inv)

lemma nbp_init_inv: "nbp_inv nbp_init"
  by (simp add: nbp_inv_def nbp_init_def default_wf)

section \<open>Printing\<close>

text \<open>
  A printer of bulletins: a header, the columns, the rows and, if the block is closed, the end mark of
  every station, with single blanks between the fields. \<open>printable\<close> says which stations it can print unambiguously.
\<close>

definition show_header :: "NbpStation \<Rightarrow> string" where
  "show_header s = nbp_station s @ '' NBM V4.2 NBP GUIDANCE  '' @ cycle_utc s"

definition show_row :: "NbpRow \<Rightarrow> string" where
  "show_row r = join_with (CHR '' '') (nbp_label r # map show_value (nbp_values r))"

definition show_station :: "NbpStation \<times> bool \<Rightarrow> string list" where
  "show_station = (\<lambda>(s, ended).
     show_header s # join_with (CHR '' '') (''UTC'' # columns s) # map show_row (nbp_rows s) @
     (if ended then [''$$''] else []))"

definition show_bulletin :: "string \<Rightarrow> (NbpStation \<times> bool) list \<Rightarrow> string" where
  "show_bulletin eol blocks = concat (map (\<lambda>ln. ln @ eol) (concat (map show_station blocks)))"

definition field_ok :: "string \<Rightarrow> bool" where
  "field_ok t \<longleftrightarrow> is_token t \<and> \<not> contains t ''GUIDANCE'' \<and> \<not> contains t ''$$''"

definition cycle_ok :: "string \<Rightarrow> bool" where
  "cycle_ok c \<longleftrightarrow> plain_line c \<and> c \<noteq> [] \<and> hd c \<notin> {CHR '' '', CHR 0x09}"

definition printable :: "NbpStation \<Rightarrow> bool" where
  "printable s \<longleftrightarrow> field_ok (nbp_station s) \<and> cycle_ok (cycle_utc s) \<and> list_all field_ok (columns s) \<and>
     list_all (\<lambda>r. field_ok (nbp_label r) \<and> list_all value_ok (nbp_values r)) (nbp_rows s)"

text \<open>The fields of a line.\<close>

lemma contains_join:
  assumes "CHR '' '' \<notin> set needle" and "needle \<noteq> []"
  shows "contains (join_with (CHR '' '') ts) needle \<longleftrightarrow> (\<exists>t\<in>set ts. contains t needle)"
  using sublist_join_with [OF assms] by (simp add: contains_sublist)

lemma show_value_field: "field_ok (show_value v)"
proof (cases v)
  case (Some i)
  have c: "isdigit c \<or> c = CHR ''-''" if "c \<in> set (int_to_string i)" for c using int_to_string_chars [OF that] .
  have "\<not> contains (int_to_string i) ''GUIDANCE''" "\<not> contains (int_to_string i) ''$$''"
    using sublist_number [of "CHR ''G''" "''GUIDANCE''" i] sublist_number [of "CHR ''$''" "''$$''" i]
    by (simp_all add: contains_sublist isdigit_def)
  moreover have "list_all (\<lambda>c. \<not> isspace c) (int_to_string i)"
    using c by (fastforce simp: list_all_iff isspace_def isdigit_def)
  ultimately show ?thesis by (simp add: field_ok_def is_token_def show_value_def Some)
next
  case None
  have "field_ok ''**''" by code_simp
  then show ?thesis by (simp add: show_value_def None)
qed

lemma fields_line:
  assumes "list_all field_ok (t # ts)"
  shows "plain_line (join_with (CHR '' '') (t # ts))" "tokens (join_with (CHR '' '') (t # ts)) = t # ts"
    "\<not> is_header (join_with (CHR '' '') (t # ts))" "\<not> contains (join_with (CHR '' '') (t # ts)) ''$$''"
proof -
  have tok: "list_all is_token (t # ts)" using assms by (auto simp: list_all_iff field_ok_def)
  show "plain_line (join_with (CHR '' '') (t # ts))" by (rule is_token_plain [OF tok]) simp
  show "tokens (join_with (CHR '' '') (t # ts)) = t # ts" by (rule tokens_join [OF tok])
  show "\<not> is_header (join_with (CHR '' '') (t # ts))" "\<not> contains (join_with (CHR '' '') (t # ts)) ''$$''"
    using assms contains_join [of "''GUIDANCE''" "t # ts"] contains_join [of "''$$''" "t # ts"]
    by (auto simp: is_header_def list_all_iff field_ok_def)
qed

lemma header_line:
  assumes "field_ok (nbp_station s)" and "cycle_ok (cycle_utc s)"
  shows "plain_line (show_header s)" "is_header (show_header s)"
    "nbp_header (show_header s) = default_NbpStation\<lparr>nbp_station := nbp_station s, cycle_utc := cycle_utc s\<rparr>"
proof -
  let ?st = "nbp_station s" and ?cy = "cycle_utc s"
  have st: "is_token ?st" "\<not> sublist ''GUIDANCE'' ?st"
    using assms(1) by (simp_all add: field_ok_def contains_sublist)
  have nl: "newline \<notin> set ?st" using st(1) by (auto simp: is_token_def list_all_iff isspace_def)
  with assms(2) show "plain_line (show_header s)"
    by (auto simp: show_header_def cycle_ok_def plain_line_iff)
  have "show_header s = (?st @ '' NBM V4.2'') @ '' NBP '' @ (''GUIDANCE  '' @ ?cy)"
    "show_header s = (?st @ '' NBM V4.2 NBP '') @ ''GUIDANCE'' @ (''  '' @ ?cy)"
    by (simp_all add: show_header_def)
  then show "is_header (show_header s)"
    unfolding is_header_def contains_sublist sublist_def by blast
  have tok: "tokens (show_header s) = ?st # tokens ('' NBM V4.2 NBP GUIDANCE  '' @ ?cy)"
    unfolding show_header_def by (rule tokens_token [OF st(1)]) (simp add: isspace_def)
  have "find_sub (''NBM V4.2 NBP GUIDANCE  '' @ ?cy) ''GUIDANCE'' = Some 13" by simp
  then have gp: "find_sub (show_header s) ''GUIDANCE'' = Some (Suc (length ?st) + 13)"
    using find_sub_skip [of "CHR '' ''" "''GUIDANCE''" ?st "''NBM V4.2 NBP GUIDANCE  '' @ ?cy"] st(2)
    by (simp add: show_header_def)
  have rest: "drop (Suc (length ?st) + 13 + 8) (show_header s) = ''  '' @ ?cy" by (simp add: show_header_def)
  have "find_first_not_of (''  '' @ ?cy) [CHR '' '', CHR 0x09] = Some 2"
    using assms(2) by (cases ?cy) (simp_all add: find_first_not_of_def cycle_ok_def)
  with gp rest tok show
    "nbp_header (show_header s) = default_NbpStation\<lparr>nbp_station := nbp_station s, cycle_utc := cycle_utc s\<rparr>"
    unfolding nbp_header_def by (simp add: Let_def)
qed

lemma row_line:
  assumes "field_ok (nbp_label r)" and "list_all value_ok (nbp_values r)"
  shows "plain_line (show_row r)"
    and "in_block st \<Longrightarrow> have_columns st \<Longrightarrow>
      nbp_line st (show_row r) = st\<lparr>nbp_cur := (nbp_cur st)\<lparr>nbp_rows := nbp_rows (nbp_cur st) @ [r]\<rparr>\<rparr>"
proof -
  have "list_all field_ok (nbp_label r # map show_value (nbp_values r))"
    using assms(1) by (simp add: list_all_iff show_value_field)
  note line = fields_line [OF this]
  show "plain_line (show_row r)" using line(1) by (simp add: show_row_def)
  have "map as_value (map show_value (nbp_values r)) = nbp_values r"
    using assms(2) by (simp add: list_all_iff as_value_show map_idI)
  then show "nbp_line st (show_row r) = st\<lparr>nbp_cur := (nbp_cur st)\<lparr>nbp_rows := nbp_rows (nbp_cur st) @ [r]\<rparr>\<rparr>"
    if "in_block st" "have_columns st"
    using line(2-) that unfolding show_row_def nbp_line_def by simp
qed

lemma row_lines:
  "list_all (\<lambda>r. field_ok (nbp_label r) \<and> list_all value_ok (nbp_values r)) rs \<Longrightarrow> in_block st \<Longrightarrow> have_columns st \<Longrightarrow>
   foldl nbp_line st (map show_row rs) = st\<lparr>nbp_cur := (nbp_cur st)\<lparr>nbp_rows := nbp_rows (nbp_cur st) @ rs\<rparr>\<rparr>"
  by (induction rs arbitrary: st) (simp_all add: row_line(2))

text \<open>The stations read so far: those stored, and that of the block that is still open.\<close>

definition read_so_far :: "nbp_state \<Rightarrow> NbpStation list \<Rightarrow> bool" where
  "read_so_far st sts \<longleftrightarrow>
     (if in_block st then nbp_station (nbp_cur st) \<noteq> [] \<and> nbp_stations st @ [nbp_cur st] = sts else nbp_stations st = sts)"

lemma station_lines:
  assumes "printable s" and "read_so_far st sts"
  shows "read_so_far (foldl nbp_line st (show_station (s, ended))) (sts @ [s])"
    "list_all plain_line (show_station (s, ended))"
proof -
  have ok: "field_ok (nbp_station s)" "cycle_ok (cycle_utc s)" "list_all field_ok (columns s)"
      "list_all (\<lambda>r. field_ok (nbp_label r) \<and> list_all value_ok (nbp_values r)) (nbp_rows s)"
    using assms(1) by (simp_all add: printable_def)
  have ne: "nbp_station s \<noteq> []" using ok(1) by (simp add: field_ok_def is_token_def)
  note head = header_line [OF ok(1,2)]
  have utc: "field_ok ''UTC''" by code_simp
  with ok(3) have "list_all field_ok (''UTC'' # columns s)" by simp
  note cols = fields_line [OF this]
  let ?st0 = "if in_block st then push_station st else st"
  let ?st1 = "?st0\<lparr>nbp_cur := default_NbpStation\<lparr>nbp_station := nbp_station s, cycle_utc := cycle_utc s\<rparr>,
    in_block := True, have_columns := False\<rparr>"
  let ?st2 = "?st1\<lparr>nbp_cur := (nbp_cur ?st1)\<lparr>columns := columns s\<rparr>, have_columns := True\<rparr>"
  let ?st3 = "?st2\<lparr>nbp_cur := s\<rparr>"
  have 0: "nbp_stations ?st0 = sts" using assms(2) by (auto simp: read_so_far_def push_station_def)
  have 1: "nbp_line st (show_header s) = ?st1" using head(2,3) by (simp add: nbp_line_def)
  have 2: "nbp_line ?st1 (join_with (CHR '' '') (''UTC'' # columns s)) = ?st2"
    using cols(2-) unfolding nbp_line_def by (simp add: default_NbpStation_def)
  have 3: "foldl nbp_line ?st2 (map show_row (nbp_rows s)) = ?st3"
    using row_lines [OF ok(4), of ?st2] by (simp add: default_NbpStation_def)
  have "\<not> is_header ''$$''" "contains ''$$'' ''$$''" by code_simp+
  then have 4: "read_so_far (nbp_line ?st3 ''$$'') (sts @ [s])"
    using 0 ne by (simp add: nbp_line_def push_station_def read_so_far_def)
  have 5: "read_so_far ?st3 (sts @ [s])" using 0 ne by (simp add: read_so_far_def)
  have "foldl nbp_line st (show_station (s, ended)) = (if ended then nbp_line ?st3 ''$$'' else ?st3)"
    unfolding show_station_def prod.case by (simp only: foldl.simps foldl_append 1 2 3 if_distrib [of "foldl nbp_line ?st3"])
  with 4 5 show "read_so_far (foldl nbp_line st (show_station (s, ended))) (sts @ [s])" by simp
  have "list_all plain_line (map show_row (nbp_rows s))"
    using ok(4) row_line(1) by (auto simp: list_all_iff)
  moreover have "plain_line ''$$''" by code_simp
  ultimately show "list_all plain_line (show_station (s, ended))"
    unfolding show_station_def using head(1) cols(1) by simp
qed

lemma bulletin_lines:
  "list_all (\<lambda>(s, _). printable s) blocks \<Longrightarrow> read_so_far st pre \<Longrightarrow>
   read_so_far (foldl nbp_line st (concat (map show_station blocks))) (pre @ map fst blocks) \<and>
   list_all plain_line (concat (map show_station blocks))"
proof (induction blocks arbitrary: st pre)
  case (Cons b blocks)
  obtain s ended where b: "b = (s, ended)" by (cases b)
  have "printable s" using Cons.prems(1) b by simp
  note s = station_lines [OF this Cons.prems(2), of ended]
  with Cons.IH [of "foldl nbp_line st (show_station b)" "pre @ [s]"] Cons.prems(1) b show ?case by simp
qed simp

section \<open>Properties\<close>

text \<open>
  C11: a bulletin printed from any list of stations, with either kind of line break, parses back to
  exactly those stations: names, cycle stamps, columns, rows in order, and values with the missing
  ones. A block may end with its mark, at the header of the next one, or with the text.
\<close>

theorem nbp_roundtrip:
  assumes "blocks \<noteq> []" and "list_all (\<lambda>(s, _). printable s) blocks"
    and "eol = [newline] \<or> eol = [carriage_return, newline]"
  shows "parse_nbp_bulletin (show_bulletin eol blocks) = Inr (map fst blocks)"
proof -
  have "read_so_far nbp_init []" by (simp add: read_so_far_def nbp_init_def)
  note run = bulletin_lines [OF assms(2) this]
  let ?ls = "concat (map show_station blocks)"
  let ?st = "foldl nbp_line nbp_init (nbp_lines (show_bulletin eol blocks))"
  have "nbp_lines (show_bulletin eol blocks) = ?ls @ [[]]"
    using run assms(3) nbp_reader.read_terminated [of ?ls] nbp_reader.read_terminated_crlf [of ?ls]
    by (auto simp: show_bulletin_def)
  moreover have "nbp_line st [] = st" for st by (auto simp: nbp_line_def is_header_def contains_def)
  ultimately have "read_so_far ?st (map fst blocks)" using run by simp
  then have "nbp_stations (if in_block ?st then push_station ?st else ?st) = map fst blocks"
    by (auto simp: read_so_far_def push_station_def)
  moreover have "show_bulletin eol blocks \<noteq> []"
    using assms(1,3) by (cases blocks) (auto simp: show_bulletin_def show_station_def)
  ultimately show ?thesis using assms(1) by (simp add: parse_nbp_bulletin_def Let_def)
qed

definition demo_station :: NbpStation where
  "demo_station = \<lparr>nbp_station = ''KNYC'', cycle_utc = ''5/17/2026  1200 UTC'', columns = [''18'', ''00''],
     nbp_rows = [\<lparr>nbp_label = ''TXNP5'', nbp_values = [Some 67, None]\<rparr>]\<rparr>"

theorem nbp_roundtrip_witness:
  "parse_nbp_bulletin (show_bulletin [carriage_return, newline] [(demo_station, False), (demo_station, True)]) =
     Inr [demo_station, demo_station]"
proof -
  have "printable demo_station" by code_simp
  then show ?thesis
    using nbp_roundtrip [of "[(demo_station, False), (demo_station, True)]" "[carriage_return, newline]"] by simp
qed

text \<open>
  C37: whatever the text, a bulletin that parses holds at least one station; every station has a name,
  and names, columns and row labels are nonempty and free of white space; every value fits an
  \<open>int\<close>. The only failures are parse errors.
\<close>

theorem nbp_wellformed:
  "case parse_nbp_bulletin text of
     Inl e \<Rightarrow> code e = ErrorCode.ParseError
   | Inr sts \<Rightarrow> sts \<noteq> [] \<and>
       list_all (\<lambda>s. is_token (nbp_station s) \<and> list_all is_token (columns s) \<and> list_all row_wf (nbp_rows s)) sts"
proof -
  let ?st = "foldl nbp_line nbp_init (nbp_lines text)"
  have "nbp_inv (if in_block ?st then push_station ?st else ?st)"
    using nbp_lines_inv [OF nbp_init_inv] by (simp add: push_station_inv)
  then show ?thesis
    by (auto simp: parse_nbp_bulletin_def nbp_inv_def block_wf_def list_all_iff error_constructors Let_def)
qed

text \<open>A value with a column separator attached is not read as a number but as missing.\<close>

lemma separator_hides_value: "as_value ''54|'' = None"
  by code_simp

end
