(* ===== verification/Curl_Lifetime.thy ===== *)
theory Curl_Lifetime
  imports Http_Client
begin

text \<open>
  Lifetimes of libcurl in \<open>src/http/client.cpp\<close>: the process-wide \<open>CurlRuntime\<close> behind a static
  \<open>std::shared_ptr\<close>, the reference every client keeps on it, the easy handle of a client, and
  construction, moving and destruction of clients. The state machine logs the calls to libcurl;
  \<open>library_state\<close> says which sequences of calls libcurl's documentation allows.
\<close>

section \<open>State\<close>

datatype curl_call = Global_init bool | Easy_init "nat option" | Easy_perform nat | Easy_cleanup nat | Global_cleanup

text \<open>
  \<open>runtime_status\<close> is \<open>None\<close> until \<open>runtime()\<close> first runs. A client variable that exists holds an
  implementation object with its easy handle, if any, or nothing after it was moved from.
\<close>

record curl_process =
  runtime_status :: "bool option"
  static_ref :: bool
  use_count :: nat
  client_of :: "nat \<rightharpoonup> nat option option"
  next_handle :: nat
  calls :: "curl_call list"

definition process_init :: curl_process where
  "process_init = \<lparr>runtime_status = None, static_ref = False, use_count = 0, client_of = Map.empty,
     next_handle = 0, calls = []\<rparr>"

definition log_call :: "curl_call \<Rightarrow> curl_process \<Rightarrow> curl_process" where
  "log_call c st = st\<lparr>calls := calls st @ [c]\<rparr>"

section \<open>Operations\<close>

text \<open>\<open>runtime()\<close>: the first call constructs the static, every call hands out a reference.\<close>

definition runtime :: "bool \<Rightarrow> curl_process \<Rightarrow> curl_process" where
  "runtime global_ok st =
    (let st = (if runtime_status st = None
               then log_call (Global_init global_ok)
                      (st\<lparr>runtime_status := Some global_ok, static_ref := True, use_count := 1\<rparr>)
               else st)
     in st\<lparr>use_count := use_count st + 1\<rparr>)"

text \<open>Giving a reference back; the last one destroys the runtime.\<close>

definition release_runtime :: "curl_process \<Rightarrow> curl_process" where
  "release_runtime st =
    (let st = st\<lparr>use_count := use_count st - 1\<rparr>
     in if use_count st = 0 \<and> runtime_status st = Some True then log_call Global_cleanup st else st)"

text \<open>\<open>~Impl\<close>: the easy handle first, then the members, with the reference to the runtime.\<close>

definition destroy_impl :: "nat option \<Rightarrow> curl_process \<Rightarrow> curl_process" where
  "destroy_impl h st = release_runtime (case h of Some n \<Rightarrow> log_call (Easy_cleanup n) st | None \<Rightarrow> st)"

definition easy_init :: "bool \<Rightarrow> curl_process \<Rightarrow> nat option \<times> curl_process" where
  "easy_init init_ok st =
    (if runtime_status st = Some True
     then if init_ok
          then (Some (next_handle st), log_call (Easy_init (Some (next_handle st))) (st\<lparr>next_handle := next_handle st + 1\<rparr>))
          else (None, log_call (Easy_init None) st)
     else (None, st))"

text \<open>
  The calls \<open>HttpClient::get\<close> makes on the handle, as one: none without an implementation object, without
  a handle, or when the request is refused before it is sent.
\<close>

definition use_handle :: "bool \<Rightarrow> nat option option \<Rightarrow> curl_process \<Rightarrow> curl_process" where
  "use_handle sent c st = (case c of Some (Some h) \<Rightarrow> if sent then log_call (Easy_perform h) st else st | _ \<Rightarrow> st)"

datatype lifetime_op =
  Construct bool bool nat | Get bool nat | Destroy nat | Move_construct nat nat | Move_assign nat nat | Exit_process

text \<open>
  \<open>None\<close>: the variable is not one the operation can be applied to, or the static is used after its
  destruction.
\<close>

fun lifetime_step :: "lifetime_op \<Rightarrow> curl_process \<Rightarrow> curl_process option" where
  "lifetime_step (Construct global_ok init_ok x) st =
    (if client_of st x \<noteq> None \<or> (runtime_status st \<noteq> None \<and> \<not> static_ref st) then None
     else case easy_init init_ok (runtime global_ok st) of (h, st) \<Rightarrow>
       Some (st\<lparr>client_of := (client_of st)(x \<mapsto> Some h)\<rparr>))"
| "lifetime_step (Get sent x) st = (case client_of st x of None \<Rightarrow> None | Some c \<Rightarrow> Some (use_handle sent c st))"
| "lifetime_step (Destroy x) st =
    (case client_of st x of
       None \<Rightarrow> None
     | Some c \<Rightarrow>
         let st = st\<lparr>client_of := (client_of st)(x := None)\<rparr>
         in Some (case c of None \<Rightarrow> st | Some h \<Rightarrow> destroy_impl h st))"
| "lifetime_step (Move_construct x y) st =
    (case client_of st y of
       None \<Rightarrow> None
     | Some c \<Rightarrow> if client_of st x \<noteq> None then None
         else Some (st\<lparr>client_of := (client_of st)(y \<mapsto> None, x \<mapsto> c)\<rparr>))"
| "lifetime_step (Move_assign x y) st =
    (case (client_of st x, client_of st y) of
       (Some old, Some c) \<Rightarrow>
         if x = y then Some st
         else
           let st = st\<lparr>client_of := (client_of st)(y \<mapsto> None, x \<mapsto> c)\<rparr>
           in Some (case old of None \<Rightarrow> st | Some h \<Rightarrow> destroy_impl h st)
     | _ \<Rightarrow> None)"
| "lifetime_step Exit_process st =
    (if runtime_status st = None then Some st
     else if \<not> static_ref st then None
     else Some (release_runtime (st\<lparr>static_ref := False\<rparr>)))"

inductive lifetime_reachable :: "curl_process \<Rightarrow> bool" where
  start: "lifetime_reachable process_init"
| step: "lifetime_reachable st \<Longrightarrow> lifetime_step x st = Some st' \<Longrightarrow> lifetime_reachable st'"

section \<open>What libcurl allows\<close>

text \<open>Whether the library is initialised, and the handles that are open; \<open>None\<close> after a forbidden call.\<close>

fun library_call :: "(bool \<times> nat set) option \<Rightarrow> curl_call \<Rightarrow> (bool \<times> nat set) option" where
  "library_call (Some (on, hs)) (Global_init ok) = (if on then None else Some (ok, hs))"
| "library_call (Some (on, hs)) (Easy_init None) = (if on then Some (on, hs) else None)"
| "library_call (Some (on, hs)) (Easy_init (Some h)) = (if on \<and> h \<notin> hs then Some (on, insert h hs) else None)"
| "library_call (Some (on, hs)) (Easy_perform h) = (if on \<and> h \<in> hs then Some (on, hs) else None)"
| "library_call (Some (on, hs)) (Easy_cleanup h) = (if on \<and> h \<in> hs then Some (on, hs - {h}) else None)"
| "library_call (Some (on, hs)) Global_cleanup = (if on \<and> hs = {} then Some (False, {}) else None)"
| "library_call None c = None"

definition library_state :: "curl_call list \<Rightarrow> (bool \<times> nat set) option" where
  "library_state = foldl library_call (Some (False, {}))"

lemma library_state_snoc [simp]: "library_state (cs @ [c]) = library_call (library_state cs) c"
  by (simp add: library_state_def)

section \<open>Invariant\<close>

text \<open>The variables with an implementation object, and the handles these hold.\<close>

definition has_impl :: "nat option option option \<Rightarrow> bool" where
  "has_impl v \<longleftrightarrow> (case v of Some (Some _) \<Rightarrow> True | _ \<Rightarrow> False)"

definition handle_in :: "nat option option option \<Rightarrow> nat set" where
  "handle_in v = (case v of Some (Some (Some h)) \<Rightarrow> {h} | _ \<Rightarrow> {})"

definition clients :: "curl_process \<Rightarrow> nat set" where
  "clients st = {x. has_impl (client_of st x)}"

definition held :: "curl_process \<Rightarrow> nat set" where
  "held st = (\<Union>x. handle_in (client_of st x))"

definition one_owner :: "curl_process \<Rightarrow> bool" where
  "one_owner st \<longleftrightarrow> (\<forall>x y. handle_in (client_of st x) \<inter> handle_in (client_of st y) \<noteq> {} \<longrightarrow> x = y)"

lemma variable_simps [simp]:
  "has_impl (Some (Some h))" "\<not> has_impl (Some None)" "\<not> has_impl None"
  "handle_in (Some (Some h)) = set_option h" "handle_in (Some None) = {}" "handle_in None = {}"
  by (simp_all add: has_impl_def handle_in_def split: option.splits)

lemma handle_in_impl: "\<not> has_impl v \<Longrightarrow> handle_in v = {}"
  by (auto simp: has_impl_def handle_in_def split: option.splits)

lemma clients_upd:
  "clients (st\<lparr>client_of := (client_of st)(x := v)\<rparr>) =
     (if has_impl v then insert x (clients st) else clients st - {x})"
  by (auto simp: clients_def)

lemma owner_unique:
  "one_owner st \<Longrightarrow> k \<in> handle_in (client_of st a) \<Longrightarrow> k \<in> handle_in (client_of st b) \<Longrightarrow> a = b"
  unfolding one_owner_def by (metis IntI empty_iff)

lemma in_held: "k \<in> held st \<longleftrightarrow> (\<exists>a. k \<in> handle_in (client_of st a))"
  by (simp add: held_def)

lemma held_upd:
  assumes "one_owner st"
  shows "held (st\<lparr>client_of := (client_of st)(x := v)\<rparr>) = held st - handle_in (client_of st x) \<union> handle_in v"
proof (rule set_eqI)
  fix k
  have "k \<in> held (st\<lparr>client_of := (client_of st)(x := v)\<rparr>) \<longleftrightarrow>
      k \<in> handle_in v \<or> (\<exists>a. a \<noteq> x \<and> k \<in> handle_in (client_of st a))"
    by (auto simp: held_def split: if_splits)
  also have "(\<exists>a. a \<noteq> x \<and> k \<in> handle_in (client_of st a)) \<longleftrightarrow> k \<in> held st \<and> k \<notin> handle_in (client_of st x)"
    unfolding in_held using owner_unique [OF assms] by metis
  finally show "k \<in> held (st\<lparr>client_of := (client_of st)(x := v)\<rparr>) \<longleftrightarrow>
      k \<in> held st - handle_in (client_of st x) \<union> handle_in v" by blast
qed

lemma one_owner_upd:
  assumes "one_owner st" and "handle_in v \<inter> (held st - handle_in (client_of st x)) = {}"
  shows "one_owner (st\<lparr>client_of := (client_of st)(x := v)\<rparr>)"
  unfolding one_owner_def
proof (intro allI impI)
  fix a b
  let ?m = "(client_of st)(x := v)"
  assume "handle_in (client_of (st\<lparr>client_of := ?m\<rparr>) a) \<inter> handle_in (client_of (st\<lparr>client_of := ?m\<rparr>) b) \<noteq> {}"
  then obtain k where k: "k \<in> handle_in (?m a)" "k \<in> handle_in (?m b)" by auto
  have no: "k \<notin> handle_in v" if "c \<noteq> x" "k \<in> handle_in (client_of st c)" for c
    using that assms(2) owner_unique [OF assms(1)] in_held by blast
  show "a = b"
  proof (cases "a = x \<or> b = x")
    case True
    with k no show ?thesis by (auto split: if_splits)
  next
    case False
    with k show ?thesis by (intro owner_unique [OF assms(1)]) auto
  qed
qed

lemma handle_in_held: "handle_in (client_of st x) \<subseteq> held st"
  by (auto simp: held_def)

text \<open>
  The invariant with \<open>n\<close> references and the handles \<open>hs\<close> in the hands of an operation under way:
  the count of the references is right, every handle has one owner, and libcurl's view agrees.
\<close>

definition lifetime_with :: "nat \<Rightarrow> nat set \<Rightarrow> curl_process \<Rightarrow> bool" where
  "lifetime_with n hs st \<longleftrightarrow>
     finite (clients st) \<and> use_count st = card (clients st) + (if static_ref st then 1 else 0) + n \<and>
     (\<forall>h\<in>held st \<union> hs. h < next_handle st) \<and> held st \<inter> hs = {} \<and>
     one_owner st \<and>
     (runtime_status st = None \<longrightarrow> clients st = {} \<and> \<not> static_ref st \<and> n = 0) \<and>
     (runtime_status st = Some False \<longrightarrow> held st \<union> hs = {}) \<and>
     library_state (calls st) = Some (runtime_status st = Some True \<and> 0 < use_count st, held st \<union> hs)"

lemma held_clients: "clients st = {} \<Longrightarrow> held st = {}"
  by (auto simp: held_def clients_def handle_in_impl)

lemma process_init_inv: "lifetime_with 0 {} process_init"
  by (simp add: lifetime_with_def process_init_def clients_def held_def one_owner_def library_state_def)

lemma unchanged [simp]:
  "clients (st\<lparr>use_count := n\<rparr>) = clients st" "held (st\<lparr>use_count := n\<rparr>) = held st"
  "clients (st\<lparr>static_ref := b\<rparr>) = clients st" "held (st\<lparr>static_ref := b\<rparr>) = held st"
  "clients (st\<lparr>runtime_status := r\<rparr>) = clients st" "held (st\<lparr>runtime_status := r\<rparr>) = held st"
  "clients (st\<lparr>calls := cs\<rparr>) = clients st" "held (st\<lparr>calls := cs\<rparr>) = held st"
  "clients (st\<lparr>next_handle := k\<rparr>) = clients st" "held (st\<lparr>next_handle := k\<rparr>) = held st"
  "one_owner (st\<lparr>use_count := n\<rparr>) = one_owner st" "one_owner (st\<lparr>static_ref := b\<rparr>) = one_owner st"
  "one_owner (st\<lparr>runtime_status := r\<rparr>) = one_owner st" "one_owner (st\<lparr>calls := cs\<rparr>) = one_owner st"
  "one_owner (st\<lparr>next_handle := k\<rparr>) = one_owner st"
  by (simp_all add: clients_def held_def one_owner_def)

lemma release_with:
  assumes "lifetime_with 1 {} st" and "runtime_status st \<noteq> None"
  shows "lifetime_with 0 {} (release_runtime st)"
proof (cases "use_count st = 1")
  case True
  with assms(1) have none: "clients st = {}" by (auto simp: lifetime_with_def split: if_splits)
  with held_clients [OF none] True assms show ?thesis
    by (auto simp: release_runtime_def lifetime_with_def log_call_def Let_def split: if_splits)
next
  case False
  then have "0 < use_count st - 1" using assms(1) by (auto simp: lifetime_with_def)
  with assms show ?thesis by (auto simp: release_runtime_def lifetime_with_def Let_def split: if_splits)
qed

lemma destroy_impl_with:
  assumes "lifetime_with 1 (set_option h) st" and "runtime_status st \<noteq> None"
  shows "lifetime_with 0 {} (destroy_impl h st)"
proof (cases h)
  case None
  with assms show ?thesis by (simp add: destroy_impl_def release_with)
next
  case (Some k)
  have "k \<notin> held st" using assms(1) by (auto simp: lifetime_with_def Some)
  then have "lifetime_with 1 {} (log_call (Easy_cleanup k) st)"
    using assms by (auto simp: lifetime_with_def log_call_def Some)
  then show ?thesis using assms(2) by (simp add: destroy_impl_def Some release_with log_call_def)
qed

lemma detach_with:
  assumes "lifetime_with 0 {} st" and x: "client_of st x = Some (Some h)" and c: "c = None \<or> c = Some None"
  shows "lifetime_with 1 (set_option h) (st\<lparr>client_of := (client_of st)(x := c)\<rparr>)" "runtime_status st \<noteq> None"
proof -
  let ?st = "st\<lparr>client_of := (client_of st)(x := c)\<rparr>"
  have own: "one_owner st" and fin: "finite (clients st)" using assms(1) by (simp_all add: lifetime_with_def)
  have c': "\<not> has_impl c" "handle_in c = {}" using c by auto
  have mem: "x \<in> clients st" using x by (simp add: clients_def)
  have cl: "clients ?st = clients st - {x}" using c' by (simp add: clients_upd)
  have he: "held ?st = held st - set_option h" using c' x by (simp add: held_upd [OF own])
  have own': "one_owner ?st" using c' by (intro one_owner_upd [OF own]) simp
  have sub: "set_option h \<subseteq> held st" using handle_in_held [of st x] x by simp
  have card: "card (clients st) = Suc (card (clients st - {x}))" using card.remove [OF fin mem] .
  show stat: "runtime_status st \<noteq> None" using assms(1) mem by (auto simp: lifetime_with_def)
  have un: "held st - set_option h \<union> set_option h = held st" using sub by blast
  show "lifetime_with 1 (set_option h) ?st"
    using assms(1) card fin own' stat unfolding lifetime_with_def cl he un by auto
qed

lemma move_with:
  assumes "lifetime_with n hs st" and y: "client_of st y = Some c"
    and x: "client_of st x = None \<or> client_of st x = Some None" and "x \<noteq> y"
  shows "lifetime_with n hs (st\<lparr>client_of := (client_of st)(y \<mapsto> None, x \<mapsto> c)\<rparr>)"
proof -
  let ?s1 = "st\<lparr>client_of := (client_of st)(y \<mapsto> None)\<rparr>"
  let ?st = "?s1\<lparr>client_of := (client_of ?s1)(x \<mapsto> c)\<rparr>"
  have own: "one_owner st" and fin: "finite (clients st)" using assms(1) by (simp_all add: lifetime_with_def)
  have x': "\<not> has_impl (client_of st x)" "handle_in (client_of ?s1 x) = {}" using x assms(4) by auto
  have own1: "one_owner ?s1" by (rule one_owner_upd [OF own]) simp
  have h1: "held ?s1 = held st - handle_in (Some c)" using y by (simp add: held_upd [OF own])
  have own2: "one_owner ?st" by (rule one_owner_upd [OF own1]) (auto simp: h1)
  have "handle_in (Some c) \<subseteq> held st" using handle_in_held [of st y] y by simp
  then have he: "held ?st = held st" using held_upd [OF own1, of x "Some c"] unfolding x'(2) h1 by blast
  have cl: "clients ?st = (if has_impl (Some c) then insert x (clients st - {y}) else clients st - {y} - {x})"
    unfolding clients_upd [of ?s1] clients_upd [of st] by simp
  have notx: "x \<notin> clients st" using x'(1) by (simp add: clients_def)
  have iny: "y \<in> clients st \<longleftrightarrow> has_impl (Some c)" using y by (simp add: clients_def)
  have card: "card (clients ?st) = card (clients st)" and fin': "finite (clients ?st)"
      and emp: "clients st = {} \<Longrightarrow> clients ?st = {}"
    using fin notx iny card.remove [OF fin, of y] unfolding cl by (auto simp del: variable_simps)
  have "lifetime_with n hs ?st"
    using assms(1) card fin' emp own2 unfolding lifetime_with_def he by auto
  then show ?thesis by simp
qed

lemma attach_with:
  assumes "lifetime_with 1 (set_option h) st" and x: "client_of st x = None" and "runtime_status st \<noteq> None"
  shows "lifetime_with 0 {} (st\<lparr>client_of := (client_of st)(x \<mapsto> Some h)\<rparr>)"
proof -
  let ?st = "st\<lparr>client_of := (client_of st)(x \<mapsto> Some h)\<rparr>"
  have own: "one_owner st" and fin: "finite (clients st)" and new: "held st \<inter> set_option h = {}"
    using assms(1) by (simp_all add: lifetime_with_def)
  have cl: "clients ?st = insert x (clients st)" and mem: "x \<notin> clients st"
    using x by (simp_all add: clients_upd) (simp add: clients_def)
  have he: "held ?st = held st \<union> set_option h" using x by (simp add: held_upd [OF own])
  have own': "one_owner ?st" using new x by (intro one_owner_upd [OF own]) auto
  show ?thesis
    using assms own' fin mem unfolding lifetime_with_def cl he by simp
qed

lemma runtime_with:
  assumes "lifetime_with 0 {} st" and "runtime_status st = None \<or> static_ref st"
  shows "lifetime_with 1 {} (runtime ok st)" "runtime_status (runtime ok st) \<noteq> None"
    "client_of (runtime ok st) = client_of st"
  using assms held_clients [of st] by (auto simp: runtime_def lifetime_with_def log_call_def Let_def)

lemma easy_init_with:
  assumes "lifetime_with 1 {} st" and "easy_init ok st = (h, st')"
  shows "lifetime_with 1 (set_option h) st'" "runtime_status st' = runtime_status st" "client_of st' = client_of st"
  using assms by (auto simp: easy_init_def lifetime_with_def log_call_def less_Suc_eq split: if_splits)

lemma use_handle_with:
  assumes "lifetime_with 0 {} st" and x: "client_of st x = Some c"
  shows "lifetime_with 0 {} (use_handle sent c st)"
proof (cases "c = None \<or> c = Some None \<or> \<not> sent")
  case True
  with assms(1) show ?thesis by (auto simp: use_handle_def split: option.splits)
next
  case False
  then obtain h where h: "c = Some (Some h)" "sent" by (metis option.exhaust)
  have "h \<in> held st" using handle_in_held [of st x] x h by simp
  moreover have "runtime_status st = Some True \<and> 0 < use_count st"
  proof -
    have "x \<in> clients st" using x h by (simp add: clients_def)
    then have "clients st \<noteq> {}" by blast
    with assms(1) calculation show ?thesis
      by (cases "runtime_status st") (auto simp: lifetime_with_def card_gt_0_iff)
  qed
  ultimately show ?thesis using assms(1) h by (simp add: use_handle_def lifetime_with_def log_call_def)
qed

lemma construct_inv:
  assumes "lifetime_with 0 {} st" and "lifetime_step (Construct g i v) st = Some st'"
  shows "lifetime_with 0 {} st'"
proof -
  from assms(2) have v: "client_of st v = None" and ok: "runtime_status st = None \<or> static_ref st"
    by (auto split: if_splits)
  obtain h s where e: "easy_init i (runtime g st) = (h, s)" by (cases "easy_init i (runtime g st)")
  note r = runtime_with [OF assms(1) ok, of g] and e' = easy_init_with [OF runtime_with(1) [OF assms(1) ok] e]
  have "lifetime_with 0 {} (s\<lparr>client_of := (client_of s)(v \<mapsto> Some h)\<rparr>)"
    using e' r(2,3) v by (intro attach_with) simp_all
  with assms(2) v ok e show ?thesis by auto
qed

lemma destroy_empty_with:
  assumes "lifetime_with n hs st" and "client_of st v = Some None"
  shows "lifetime_with n hs (st\<lparr>client_of := (client_of st)(v := None)\<rparr>)"
proof -
  let ?st = "st\<lparr>client_of := (client_of st)(v := None)\<rparr>"
  have own: "one_owner st" using assms(1) by (simp add: lifetime_with_def)
  have "v \<notin> clients st" using assms(2) by (simp add: clients_def)
  then have "clients ?st = clients st" by (simp add: clients_upd)
  moreover have "held ?st = held st" using assms(2) by (simp add: held_upd [OF own])
  moreover have "one_owner ?st" by (rule one_owner_upd [OF own]) simp
  ultimately show ?thesis using assms(1) unfolding lifetime_with_def by simp
qed

lemma destroy_inv:
  assumes "lifetime_with 0 {} st" and "lifetime_step (Destroy v) st = Some st'"
  shows "lifetime_with 0 {} st'"
proof -
  from assms(2) obtain c where c: "client_of st v = Some c" by (auto split: option.splits)
  show ?thesis
  proof (cases c)
    case None
    with destroy_empty_with [OF assms(1), of v] assms(2) c show ?thesis by auto
  next
    case (Some h)
    with c have "client_of st v = Some (Some h)" by simp
    note d = detach_with [OF assms(1) this, of None]
    have "lifetime_with 0 {} (destroy_impl h (st\<lparr>client_of := (client_of st)(v := None)\<rparr>))"
      using d by (intro destroy_impl_with) simp_all
    with assms(2) c Some show ?thesis by simp
  qed
qed

lemma move_assign_inv:
  assumes "lifetime_with 0 {} st" and "lifetime_step (Move_assign v w) st = Some st'"
  shows "lifetime_with 0 {} st'"
proof -
  from assms(2) obtain old c where c: "client_of st v = Some old" "client_of st w = Some c"
    by (auto split: option.splits)
  consider "v = w" | "v \<noteq> w" "old = None" | h where "v \<noteq> w" "old = Some h" by (cases old) auto
  then show ?thesis
  proof cases
    case 1
    with assms c show ?thesis by simp
  next
    case 2
    with move_with [OF assms(1) c(2), of v] assms(2) c show ?thesis by (simp add: Let_def)
  next
    case 3
    let ?st = "st\<lparr>client_of := (client_of st)(v := Some None)\<rparr>"
    have "lifetime_with 1 (set_option h) ?st" "runtime_status st \<noteq> None"
      using detach_with [OF assms(1), of v h "Some None"] c(1) 3(2) by simp_all
    moreover from move_with [OF this(1), of w c v] c 3(1)
    have "lifetime_with 1 (set_option h) (st\<lparr>client_of := (client_of st)(w \<mapsto> None, v \<mapsto> c)\<rparr>)"
      by (simp add: fun_upd_twist)
    ultimately have "lifetime_with 0 {} (destroy_impl h (st\<lparr>client_of := (client_of st)(w \<mapsto> None, v \<mapsto> c)\<rparr>))"
      by (intro destroy_impl_with) simp_all
    then show ?thesis using assms(2) c 3 by (simp add: Let_def)
  qed
qed

lemma exit_inv:
  assumes "lifetime_with 0 {} st" and "lifetime_step Exit_process st = Some st'"
  shows "lifetime_with 0 {} st'"
proof (cases "runtime_status st = None")
  case False
  with assms(2) have s: "static_ref st" "st' = release_runtime (st\<lparr>static_ref := False\<rparr>)"
    by (auto split: if_splits)
  have "lifetime_with 1 {} (st\<lparr>static_ref := False\<rparr>)"
    using assms(1) s(1) False unfolding lifetime_with_def by auto
  with False s(2) show ?thesis by (simp add: release_with)
qed (use assms in simp)

lemma lifetime_step_inv:
  assumes "lifetime_with 0 {} st" and "lifetime_step x st = Some st'"
  shows "lifetime_with 0 {} st'"
proof (cases x)
  case (Get sent v)
  then obtain c where c: "client_of st v = Some c" "st' = use_handle sent c st"
    using assms(2) by (auto split: option.splits)
  show ?thesis using use_handle_with [OF assms(1) c(1)] c(2) by simp
next
  case (Move_construct v w)
  with assms(2) obtain c where "client_of st w = Some c" "client_of st v = None" by (auto split: option.splits if_splits)
  moreover from this have "v \<noteq> w" by auto
  ultimately show ?thesis using move_with [OF assms(1), of w c v] assms(2) Move_construct by simp
qed (use assms construct_inv destroy_inv move_assign_inv exit_inv in blast)+

lemma lifetime_reachable_inv: "lifetime_reachable st \<Longrightarrow> lifetime_with 0 {} st"
  by (induction rule: lifetime_reachable.induct) (auto intro: process_init_inv lifetime_step_inv)

section \<open>Properties\<close>

text \<open>
  C10: in every order of constructing, moving, assigning and destroying clients, also past the end of
  the static runtime, libcurl is only ever called as its documentation allows: it is initialised
  once before the first handle, no handle is used after it was closed or closed twice, and the
  global clean-up comes once, after every handle; the handles open are exactly those clients
  hold. When the process is over and all clients are gone, nothing is left open.
\<close>

theorem curl_lifetime:
  assumes "lifetime_reachable st"
  shows "\<exists>on. library_state (calls st) = Some (on, held st) \<and>
              (clients st = {} \<and> \<not> static_ref st \<longrightarrow> \<not> on \<and> held st = {})"
  using lifetime_reachable_inv [OF assms] held_clients [of st] unfolding lifetime_with_def by simp

theorem curl_lifetime_witness:
  "library_state [Global_init True, Easy_init (Some 0), Easy_perform 0, Easy_cleanup 0, Global_cleanup] = Some (False, {})"
proof -
  let ?r = "\<lambda>s u m cs. \<lparr>runtime_status = Some True, static_ref = s, use_count = u, client_of = m, next_handle = 1, calls = cs\<rparr>"
  let ?cs = "[Global_init True, Easy_init (Some 0)]"
  let ?m1 = "Map.empty(1 \<mapsto> Some (Some 0))" and ?m2 = "Map.empty(1 \<mapsto> Some (Some 0), 1 \<mapsto> None, 2 \<mapsto> Some (Some 0))"
  let ?s5 = "?r False 0 (?m2(2 := None)) (?cs @ [Easy_perform 0, Easy_cleanup 0, Global_cleanup])"
  note defs = runtime_def easy_init_def release_runtime_def destroy_impl_def use_handle_def log_call_def process_init_def Let_def
  have "lifetime_step (Construct True True 1) process_init = Some (?r True 2 ?m1 ?cs)" by (simp add: defs)
  note 1 = lifetime_reachable.step [OF lifetime_reachable.start this]
  have "lifetime_step (Move_construct 2 1) (?r True 2 ?m1 ?cs) = Some (?r True 2 ?m2 ?cs)" by (simp add: defs)
  note 2 = lifetime_reachable.step [OF 1 this]
  have "lifetime_step (Get True 2) (?r True 2 ?m2 ?cs) = Some (?r True 2 ?m2 (?cs @ [Easy_perform 0]))"
    by (simp add: defs)
  note 3 = lifetime_reachable.step [OF 2 this]
  have "lifetime_step Exit_process (?r True 2 ?m2 (?cs @ [Easy_perform 0])) = Some (?r False 1 ?m2 (?cs @ [Easy_perform 0]))"
    by (simp add: defs)
  note 4 = lifetime_reachable.step [OF 3 this]
  have "lifetime_step (Destroy 2) (?r False 1 ?m2 (?cs @ [Easy_perform 0])) = Some ?s5" by (simp add: defs)
  note 5 = lifetime_reachable.step [OF 4 this]
  have "clients ?s5 = {}" by (simp add: clients_def)
  with curl_lifetime [OF 5] show ?thesis by fastforce
qed

end
