(* ===== verification/Limiter_Threads.thy ===== *)
theory Limiter_Threads
  imports Rate_Limit
begin

text \<open>
  Threads that share one \<open>RateLimiter\<close>, at the grain of single accesses: taking and releasing the mutex
  (\<open>std::lock_guard\<close>), each reading of the clock, each update of the bucket, sleeping. Between any two
  of them other threads move and time passes. The lock makes the critical sections atomic: seen from
  outside, the system is the step relation of \<open>Rate_Limit\<close>. No wake-up is lost: a thread that finds
  no token after its sleep has been overtaken by another one.
\<close>

section \<open>Threads\<close>

text \<open>The calls a thread makes, with the deadline computed on entry, and where it is in its call.\<close>

datatype limiter_call = Acquire_until "nanoseconds option" | Try_acquire | Reset_call

datatype limiter_pc =
    Idle
  | At_Lock
  | Locked
  | Refilling nanoseconds
  | Refilled
  | Decided "nanoseconds option"
  | Unlocked "nanoseconds option"
  | Asleep nanoseconds
  | Returned bool

text \<open>
  The shared state, the lock and the threads. The last four components are history, for the
  statements only: tokens granted, resets made, how many of both a thread knew of when it computed
  its last wait, and the time until which it slept.
\<close>

record limiter_system =
  bucket :: RateLimiter
  clock_time :: nanoseconds
  holder :: "nat option"
  pcs :: "nat \<Rightarrow> limiter_pc"
  calls :: "nat \<Rightarrow> limiter_call"
  granted :: nat
  resets :: nat
  seen :: "nat \<Rightarrow> nat"
  slept :: "nat \<Rightarrow> nanoseconds option"

definition goto :: "nat \<Rightarrow> limiter_pc \<Rightarrow> limiter_system \<Rightarrow> limiter_system" where
  "goto i p s = s\<lparr>pcs := (pcs s)(i := p)\<rparr>"

definition thread_step :: "nat \<Rightarrow> limiter_system \<Rightarrow> limiter_system option" where
  "thread_step i s =
    (case pcs s i of
       Idle \<Rightarrow> None
     | At_Lock \<Rightarrow> if holder s = None then Some (goto i Locked (s\<lparr>holder := Some i\<rparr>)) else None
     | Locked \<Rightarrow>
         Some (if calls s i = Reset_call
               then goto i (Decided None) (s\<lparr>bucket := reset (bucket s) (clock_time s), resets := Suc (resets s)\<rparr>)
               else goto i (Refilling (clock_time s)) s)
     | Refilling now \<Rightarrow> Some (goto i Refilled (s\<lparr>bucket := refill (bucket s) now\<rparr>))
     | Refilled \<Rightarrow>
         Some (if 0 < tokens (bucket s)
               then goto i (Decided None)
                      (s\<lparr>bucket := (bucket s)\<lparr>tokens := tokens (bucket s) - 1\<rparr>, granted := Suc (granted s)\<rparr>)
               else goto i (Decided (Some (max (wait_interval (limiter_config (bucket s)) -
                                                  (clock_time s - last_refill (bucket s))) 0)))
                      (s\<lparr>seen := (seen s)(i := granted s + resets s)\<rparr>))
     | Decided wait \<Rightarrow> Some (goto i (Unlocked wait) (s\<lparr>holder := None\<rparr>))
     | Unlocked wait \<Rightarrow>
         Some (case wait of
                 None \<Rightarrow> goto i (Returned True) s
               | Some d \<Rightarrow>
                   (case calls s i of
                      Acquire_until None \<Rightarrow> goto i (Asleep (clock_time s + d)) s
                    | Acquire_until (Some t) \<Rightarrow>
                        if t - clock_time s < d then goto i (Returned False) s
                        else goto i (Asleep (clock_time s + d)) s
                    | _ \<Rightarrow> goto i (Returned False) s))
     | Asleep t \<Rightarrow> if t \<le> clock_time s then Some (goto i At_Lock (s\<lparr>slept := (slept s)(i := Some t)\<rparr>)) else None
     | Returned ok \<Rightarrow> None)"

text \<open>A call: the deadline of \<open>acquire\<close> and \<open>acquire_for\<close> is computed from a reading on entry.\<close>

datatype limiter_method = Call_acquire | Call_acquire_for milliseconds | Call_try_acquire | Call_reset

fun entered :: "limiter_method \<Rightarrow> RateLimiterConfig \<Rightarrow> nanoseconds \<Rightarrow> limiter_call" where
  "entered Call_acquire config now = Acquire_until (map_option (\<lambda>d. deadline_of d now) (max_wait config))"
| "entered (Call_acquire_for d) config now = Acquire_until (Some (deadline_of d now))"
| "entered Call_try_acquire config now = Try_acquire"
| "entered Call_reset config now = Reset_call"

definition enter :: "nat \<Rightarrow> limiter_method \<Rightarrow> limiter_system \<Rightarrow> limiter_system option" where
  "enter i m s =
    (case pcs s i of
       Idle \<Rightarrow> Some (goto i At_Lock (s\<lparr>calls := (calls s)(i := entered m (limiter_config (bucket s)) (clock_time s)),
                  slept := (slept s)(i := None)\<rparr>))
     | Returned _ \<Rightarrow> Some (goto i At_Lock (s\<lparr>calls := (calls s)(i := entered m (limiter_config (bucket s)) (clock_time s)),
                  slept := (slept s)(i := None)\<rparr>))
     | _ \<Rightarrow> None)"

definition limiter_start :: "RateLimiterConfig \<Rightarrow> nanoseconds \<Rightarrow> limiter_system" where
  "limiter_start config t0 =
     \<lparr>bucket = make_RateLimiter config t0, clock_time = t0, holder = None, pcs = (\<lambda>_. Idle),
      calls = (\<lambda>_. Try_acquire), granted = 0, resets = 0, seen = (\<lambda>_. 0), slept = (\<lambda>_. None)\<rparr>"

inductive system_reachable :: "RateLimiterConfig \<Rightarrow> nanoseconds \<Rightarrow> limiter_system \<Rightarrow> bool"
  for config t0 where
  start: "system_reachable config t0 (limiter_start config t0)"
| tick: "system_reachable config t0 s \<Longrightarrow> clock_time s \<le> t \<Longrightarrow> system_reachable config t0 (s\<lparr>clock_time := t\<rparr>)"
| enter: "system_reachable config t0 s \<Longrightarrow> enter i m s = Some s' \<Longrightarrow> system_reachable config t0 s'"
| run: "system_reachable config t0 s \<Longrightarrow> thread_step i s = Some s' \<Longrightarrow> system_reachable config t0 s'"

section \<open>The critical sections are atomic\<close>

fun in_section :: "limiter_pc \<Rightarrow> bool" where
  "in_section Locked = True"
| "in_section (Refilling _) = True"
| "in_section Refilled = True"
| "in_section (Decided _) = True"
| "in_section _ = False"

text \<open>Mutual exclusion: a thread is in its critical section exactly if it holds the mutex.\<close>

lemmas thread_step_splits = limiter_pc.splits if_splits option.splits limiter_call.splits

lemma enter_keeps:
  assumes "enter i m s = Some s'"
  shows "bucket s' = bucket s" "clock_time s' = clock_time s" "holder s' = holder s" "\<not> in_section (pcs s i)"
    "granted s' = granted s" "resets s' = resets s" "seen s' = seen s"
    "slept s' = (slept s)(i := None)" "pcs s' = (pcs s)(i := At_Lock)"
  using assms by (auto simp: enter_def goto_def split: limiter_pc.splits)

lemma thread_step_lock:
  assumes "thread_step j s = Some s'" and "in_section (pcs s j) \<longleftrightarrow> holder s = Some j"
  shows "in_section (pcs s' j) \<longleftrightarrow> holder s' = Some j"
    and "k \<noteq> j \<Longrightarrow> pcs s' k = pcs s k" and "k \<noteq> j \<Longrightarrow> holder s' = Some k \<longleftrightarrow> holder s = Some k"
  using assms
  by (cases "pcs s j"; force simp: thread_step_def goto_def split: if_splits option.splits limiter_call.splits)+

lemma mutual_exclusion:
  "system_reachable config t0 s \<Longrightarrow> in_section (pcs s i) \<longleftrightarrow> holder s = Some i"
proof (induction arbitrary: i rule: system_reachable.induct)
  case start
  show ?case by (simp add: limiter_start_def)
next
  case (tick s t i)
  then show ?case by simp
next
  case (enter s j m s' i)
  then show ?case using enter_keeps [OF enter.hyps(2)] by (cases "i = j") simp_all
next
  case (run s j s' i)
  show ?case using thread_step_lock [OF run.hyps(2) run.IH] run.IH by (cases "i = j") simp_all
qed

text \<open>
  What the bucket is while the lock is held: the refill at the reading \<open>n\<close> is the first half of the
  atomic step at \<open>n\<close>, and the decision its second half.
\<close>

fun section_ok :: "RateLimiterConfig \<Rightarrow> limiter_system \<Rightarrow> limiter_pc \<Rightarrow> bool" where
  "section_ok config s (Refilling n) \<longleftrightarrow> limiter_reachable config (bucket s, n) \<and> n \<le> clock_time s"
| "section_ok config s Refilled \<longleftrightarrow>
     (\<exists>rl n. bucket s = refill rl n \<and> limiter_reachable config (rl, n) \<and> n \<le> clock_time s)"
| "section_ok config s _ \<longleftrightarrow> limiter_reachable config (bucket s, clock_time s)"

definition atomic_inv :: "RateLimiterConfig \<Rightarrow> limiter_system \<Rightarrow> bool" where
  "atomic_inv config s \<longleftrightarrow>
     (case holder s of None \<Rightarrow> limiter_reachable config (bucket s, clock_time s) | Some i \<Rightarrow> section_ok config s (pcs s i))"

lemma reachable_tick: "limiter_reachable config (rl, t) \<Longrightarrow> t \<le> t' \<Longrightarrow> limiter_reachable config (rl, t')"
  by (rule limiter_reachable.step) (auto intro: limiter_step.tick)

lemma section_ok_tick: "section_ok config s p \<Longrightarrow> clock_time s \<le> t \<Longrightarrow> section_ok config (s\<lparr>clock_time := t\<rparr>) p"
  by (cases p) (auto intro: reachable_tick order_trans)

lemma section_ok_bucket:
  "bucket s' = bucket s \<Longrightarrow> clock_time s' = clock_time s \<Longrightarrow> section_ok config s' p = section_ok config s p"
  by (cases p) auto

lemma reachable_decide:
  assumes "limiter_reachable config (rl, n)" and "n \<le> t"
  shows "0 < tokens (refill rl n) \<Longrightarrow>
           limiter_reachable config ((refill rl n)\<lparr>tokens := tokens (refill rl n) - 1\<rparr>, t)"
    and "\<not> 0 < tokens (refill rl n) \<Longrightarrow> limiter_reachable config (refill rl n, t)"
  by (rule reachable_tick [OF limiter_reachable.step [OF assms(1) limiter_step.take] assms(2)];
      simp add: take_token_def Let_def)+

lemma thread_step_atomic:
  assumes "thread_step i s = Some s'" and "\<And>j. in_section (pcs s j) \<longleftrightarrow> holder s = Some j" and "atomic_inv config s"
  shows "atomic_inv config s'"
proof (cases "pcs s i")
  case Refilled
  then have "holder s = Some i" using assms(2) [of i] by simp
  with Refilled assms(3) obtain rl n where "bucket s = refill rl n" "limiter_reachable config (rl, n)" "n \<le> clock_time s"
    by (auto simp: atomic_inv_def)
  with Refilled assms(1) reachable_decide [of config rl n "clock_time s"] \<open>holder s = Some i\<close> show ?thesis
    by (auto simp: thread_step_def goto_def atomic_inv_def)
next
  case (Refilling n)
  then have "holder s = Some i" using assms(2) [of i] by simp
  with Refilling assms(1,3) show ?thesis by (fastforce simp: thread_step_def goto_def atomic_inv_def)
next
  case Locked
  then have "holder s = Some i" using assms(2) [of i] by simp
  with Locked assms(3) have r: "limiter_reachable config (bucket s, clock_time s)" by (simp add: atomic_inv_def)
  with limiter_reachable.step [OF r limiter_step.reset] Locked assms(1) \<open>holder s = Some i\<close> show ?thesis
    by (auto simp: thread_step_def goto_def atomic_inv_def split: if_splits)
qed (use assms(1,3) assms(2) [of i] section_ok_bucket [of s' s config] in
  \<open>auto simp: thread_step_def goto_def atomic_inv_def split: thread_step_splits\<close>)

lemma system_atomic: "system_reachable config t0 s \<Longrightarrow> atomic_inv config s"
proof (induction rule: system_reachable.induct)
  case start
  show ?case by (simp add: limiter_start_def atomic_inv_def limiter_reachable.start)
next
  case (tick s t)
  then show ?case by (auto simp: atomic_inv_def section_ok_tick reachable_tick split: option.splits)
next
  case (enter s i m s')
  then show ?case
    using enter_keeps [OF enter.hyps(2)] mutual_exclusion [OF enter.hyps(1)] section_ok_bucket [of s' s config]
    by (auto simp: atomic_inv_def split: option.splits)
next
  case (run s i s')
  then show ?case using thread_step_atomic mutual_exclusion by blast
qed

lemma section_bucket:
  assumes "section_ok config s p"
  shows "bucket_inv (bucket s) (clock_time s) \<and> limiter_config (bucket s) = sanitized config"
  using assms
proof (cases p)
  case (Refilling n)
  then show ?thesis using assms limiter_reachable_inv bucket_inv_later by fastforce
next
  case Refilled
  then obtain rl n where r: "bucket s = refill rl n" "limiter_reachable config (rl, n)" "n \<le> clock_time s"
    using assms by auto
  have "bucket_inv rl n" "limiter_config rl = sanitized config" using limiter_reachable_inv [OF r(2)] by simp_all
  with r show ?thesis using bucket_inv_later [OF refill_inv] by simp
qed (use assms limiter_reachable_inv in fastforce)+

lemma system_bucket:
  assumes "system_reachable config t0 s"
  shows "bucket_inv (bucket s) (clock_time s)" and "limiter_config (bucket s) = sanitized config"
  using system_atomic [OF assms] limiter_reachable_inv section_bucket
  by (fastforce simp: atomic_inv_def split: option.splits)+

lemma system_refilling:
  assumes "system_reachable config t0 s" and "pcs s i = Refilling n"
  shows "bucket_inv (bucket s) n" and "n \<le> clock_time s"
proof -
  have "holder s = Some i" using mutual_exclusion [OF assms(1), of i] assms(2) by simp
  then have r: "limiter_reachable config (bucket s, n)" "n \<le> clock_time s"
    using system_atomic [OF assms(1)] assms(2) by (simp_all add: atomic_inv_def)
  then show "bucket_inv (bucket s) n" and "n \<le> clock_time s" using limiter_reachable_inv [OF r(1)] by simp_all
qed

section \<open>The rate limit across threads\<close>

text \<open>What a step of a thread does to the bucket and the counts.\<close>

lemma thread_step_bucket:
  assumes "thread_step i s = Some s'"
  obtains (kept) "bucket s' = bucket s" "granted s' = granted s" "resets s' = resets s"
  | (refilled) n where "pcs s i = Refilling n" "bucket s' = refill (bucket s) n" "granted s' = granted s" "resets s' = resets s"
  | (taken) "0 < tokens (bucket s)" "bucket s' = (bucket s)\<lparr>tokens := tokens (bucket s) - 1\<rparr>"
      "granted s' = Suc (granted s)" "resets s' = resets s"
  | (reset) "bucket s' = reset (bucket s) (clock_time s)" "granted s' = granted s" "resets s' = Suc (resets s)"
proof -
  have "(bucket s' = bucket s \<and> granted s' = granted s \<and> resets s' = resets s) \<or>
    (\<exists>n. pcs s i = Refilling n \<and> bucket s' = refill (bucket s) n \<and> granted s' = granted s \<and> resets s' = resets s) \<or>
    (0 < tokens (bucket s) \<and> bucket s' = (bucket s)\<lparr>tokens := tokens (bucket s) - 1\<rparr> \<and>
      granted s' = Suc (granted s) \<and> resets s' = resets s) \<or>
    (bucket s' = reset (bucket s) (clock_time s) \<and> granted s' = granted s \<and> resets s' = Suc (resets s))"
    using assms
    by (cases "pcs s i"; clarsimp simp: thread_step_def goto_def split: if_splits option.splits limiter_call.splits)
  then show thesis using that by blast
qed

lemma thread_step_keeps: "thread_step i s = Some s' \<Longrightarrow> clock_time s' = clock_time s"
  by (cases "pcs s i") (auto simp: thread_step_def goto_def split: if_splits option.splits limiter_call.splits)

definition rate_inv :: "RateLimiterConfig \<Rightarrow> nanoseconds \<Rightarrow> limiter_system \<Rightarrow> bool" where
  "rate_inv config t0 s \<longleftrightarrow>
     credit (bucket s) (clock_time s) + int (granted s) * ms_to_ns (refill_interval (sanitized config)) \<le>
       int (Suc (resets s)) * (uint (initial_tokens (sanitized config)) * ms_to_ns (refill_interval (sanitized config))) +
       (clock_time s - t0)"

lemma thread_step_rate:
  assumes "system_reachable config t0 s" and "thread_step i s = Some s'" and "rate_inv config t0 s"
  shows "rate_inv config t0 s'"
proof -
  note b = system_bucket [OF assms(1)] and t = thread_step_keeps [OF assms(2)]
  show ?thesis
    using assms(2)
  proof (cases rule: thread_step_bucket)
    case kept
    with assms(3) t show ?thesis by (simp add: rate_inv_def)
  next
    case (refilled n)
    have "credit (refill (bucket s) n) n \<le> credit (bucket s) n"
      using refill_credit(1) system_refilling [OF assms(1) refilled(1)] by blast
    then have "credit (bucket s') (clock_time s) \<le> credit (bucket s) (clock_time s)"
      using credit_later [of "bucket s" "clock_time s" n] credit_later [of "bucket s'" "clock_time s" n] refilled by simp
    with assms(3) t refilled show ?thesis by (simp add: rate_inv_def)
  next
    case taken
    then have "credit (bucket s') (clock_time s) + ms_to_ns (refill_interval (sanitized config)) = credit (bucket s) (clock_time s)"
      using b(2) by (simp add: credit_def uint_minus_one_16 algebra_simps)
    with assms(3) t taken show ?thesis by (simp add: rate_inv_def distrib_right)
  next
    case reset
    have "0 \<le> credit (bucket s) (clock_time s)"
      using b(1) interval_pos [OF b(1)] by (simp add: credit_def bucket_inv_def)
    moreover have "credit (bucket s') (clock_time s) =
        uint (initial_tokens (sanitized config)) * ms_to_ns (refill_interval (sanitized config))"
      using b(2) by (simp add: reset(1)) (simp add: credit_def reset_def)
    ultimately show ?thesis using assms(3) by (simp add: rate_inv_def t reset(2,3) algebra_simps)
  qed
qed

lemma system_rate: "system_reachable config t0 s \<Longrightarrow> rate_inv config t0 s"
proof (induction rule: system_reachable.induct)
  case start
  show ?case by (simp add: rate_inv_def limiter_start_def credit_def) (simp add: make_RateLimiter_def)
next
  case (tick s t)
  then show ?case using credit_later [of "bucket s" t "clock_time s"] by (simp add: rate_inv_def)
next
  case (enter s i m s')
  then show ?case using enter_keeps [OF enter.hyps(2)] by (simp add: rate_inv_def)
next
  case (run s i s')
  then show ?case using thread_step_rate by blast
qed

section \<open>No wake-up is lost\<close>

definition progress :: "limiter_system \<Rightarrow> nat" where
  "progress s = granted s + resets s"

definition overtaken :: "limiter_system \<Rightarrow> nat \<Rightarrow> bool" where
  "overtaken s i \<longleftrightarrow> seen s i < progress s"

text \<open>Unless the thread has been overtaken, a token is there or will be by the time \<open>t\<close>.\<close>

definition due :: "limiter_system \<Rightarrow> nat \<Rightarrow> nanoseconds \<Rightarrow> bool" where
  "due s i t \<longleftrightarrow> overtaken s i \<or> 0 < tokens (bucket s) \<or> last_refill (bucket s) + interval_ns (bucket s) \<le> t"

definition thread_inv :: "limiter_system \<Rightarrow> nat \<Rightarrow> bool" where
  "thread_inv s i \<longleftrightarrow> seen s i \<le> progress s \<and>
    (case pcs s i of
       Decided (Some d) \<Rightarrow> due s i (clock_time s + d)
     | Unlocked (Some d) \<Rightarrow> due s i (clock_time s + d)
     | Asleep t \<Rightarrow> due s i t
     | At_Lock \<Rightarrow> (\<forall>t. slept s i = Some t \<longrightarrow> due s i t \<and> t \<le> clock_time s)
     | Locked \<Rightarrow> (\<forall>t. slept s i = Some t \<longrightarrow> due s i t \<and> t \<le> clock_time s)
     | Refilling n \<Rightarrow> (\<forall>t. slept s i = Some t \<longrightarrow> due s i t \<and> t \<le> n)
     | Refilled \<Rightarrow> slept s i \<noteq> None \<longrightarrow> overtaken s i \<or> 0 < tokens (bucket s)
     | _ \<Rightarrow> True)"

lemma due_later: "due s i t \<Longrightarrow> t \<le> t' \<Longrightarrow> due s i t'"
  by (auto simp: due_def)

text \<open>A refill either changes nothing or leaves a token, and does the latter when one is due.\<close>

lemma refill_outcome:
  assumes "bucket_inv rl n"
  shows "0 < tokens (refill rl n) \<or> refill rl n = rl \<and> tokens rl = 0"
    and "last_refill rl + interval_ns rl \<le> n \<Longrightarrow> 0 < tokens (refill rl n)"
    and "0 < tokens rl \<Longrightarrow> 0 < tokens (refill rl n)"
proof -
  have m: "0 < uint (max_tokens (limiter_config rl))" using assms by (simp add: bucket_inv_def word_less_def)
  note tk = refill_tokens [OF assms] and e = earned_bounds [OF assms]
  show "0 < tokens (refill rl n)" if "0 < tokens rl"
    using that e(1) m by (simp add: word_less_def tk)
  show "0 < tokens (refill rl n)" if "last_refill rl + interval_ns rl \<le> n"
  proof -
    have "1 * interval_ns rl < (earned rl n + 1) * interval_ns rl" using that e(3) by simp
    then have "1 \<le> earned rl n" using interval_pos [OF assms] by (simp only: mult_less_cancel_right_pos)
    moreover have "0 \<le> uint (tokens rl)" by simp
    ultimately have "0 < uint (tokens rl) + earned rl n" by linarith
    with m show ?thesis by (simp add: word_less_def tk)
  qed
  show "0 < tokens (refill rl n) \<or> refill rl n = rl \<and> tokens rl = 0"
  proof (cases "0 < tokens rl \<or> 0 < earned rl n")
    case True
    then have "0 < uint (tokens rl) + earned rl n"
      using e(1) by (auto simp: word_less_def intro: add_pos_nonneg add_nonneg_pos)
    with m show ?thesis by (simp add: word_less_def tk)
  next
    case False
    then have "tokens rl = 0" "earned rl n = 0" using e(1) by (auto simp: word_gt_0)
    moreover have "tokens rl < max_tokens (limiter_config rl)" using m \<open>tokens rl = 0\<close> by (simp add: word_less_def)
    ultimately show ?thesis using refill_partial [OF assms] m by (simp add: not_le)
  qed
qed

lemma due_step:
  assumes "system_reachable config t0 s" and "thread_step j s = Some s'"
    and "seen s' i = seen s i" and "seen s i \<le> progress s" and "due s i t"
  shows "due s' i t"
  using assms(2)
proof (cases rule: thread_step_bucket)
  case kept
  with assms(3,5) show ?thesis by (simp add: due_def overtaken_def progress_def)
next
  case (refilled n)
  note r = refill_outcome [OF system_refilling(1) [OF assms(1) refilled(1)]]
  from refilled assms(3,5) r(1) r(3) show ?thesis
    by (auto simp: due_def overtaken_def progress_def)
qed (use assms(3,4) in \<open>simp_all add: due_def overtaken_def progress_def\<close>)

lemma thread_step_others:
  assumes "thread_step j s = Some s'" and "i \<noteq> j"
  shows "pcs s' i = pcs s i" "seen s' i = seen s i" "slept s' i = slept s i"
  using assms
  by (cases "pcs s j"; force simp: thread_step_def goto_def split: if_splits option.splits limiter_call.splits)+

lemma thread_step_outside:
  assumes "thread_step j s = Some s'" and "\<not> in_section (pcs s j)"
  shows "bucket s' = bucket s" "granted s' = granted s" "resets s' = resets s" "seen s' = seen s"
  using assms
  by (cases "pcs s j"; force simp: thread_step_def goto_def split: if_splits option.splits limiter_call.splits)+

lemma progress_mono: "thread_step j s = Some s' \<Longrightarrow> progress s \<le> progress s'"
  by (erule thread_step_bucket) (simp_all add: progress_def)

text \<open>Steps of another thread: only the holder of the lock touches the bucket.\<close>

lemma thread_inv_others:
  assumes r: "system_reachable config t0 s" and st: "thread_step j s = Some s'" and "i \<noteq> j" and inv: "thread_inv s i"
  shows "thread_inv s' i"
proof -
  note o = thread_step_others [OF st \<open>i \<noteq> j\<close>] and c = thread_step_keeps [OF st]
  have le: "seen s i \<le> progress s" using inv by (simp add: thread_inv_def)
  have d: "due s i t \<Longrightarrow> due s' i t" for t by (rule due_step [OF r st o(2) le])
  have le': "seen s' i \<le> progress s'" using le progress_mono [OF st] o(2) by simp
  have "overtaken s i \<or> 0 < tokens (bucket s) \<Longrightarrow> overtaken s' i \<or> 0 < tokens (bucket s')" if "pcs s i = Refilled"
  proof -
    have "\<not> in_section (pcs s j)"
      using mutual_exclusion [OF r, of i] mutual_exclusion [OF r, of j] that \<open>i \<noteq> j\<close> by simp
    then show "overtaken s i \<or> 0 < tokens (bucket s) \<Longrightarrow> overtaken s' i \<or> 0 < tokens (bucket s')"
      using thread_step_outside [OF st] by (simp add: overtaken_def progress_def)
  qed
  with inv le' d show ?thesis
    by (simp add: thread_inv_def o c split: limiter_pc.splits option.splits)
qed

text \<open>Steps of the thread itself.\<close>

lemma thread_inv_self:
  assumes r: "system_reachable config t0 s" and st: "thread_step i s = Some s'" and inv: "thread_inv s i"
    and small: "refill_interval (sanitized config) < ns_to_ms int64_max"
  shows "thread_inv s' i"
proof (cases "pcs s i")
  case (Refilling n)
  note o = refill_outcome [OF system_refilling(1) [OF r Refilling]]
  have "overtaken s i \<or> 0 < tokens (refill (bucket s) n)" if "slept s i = Some t" for t
  proof -
    have "due s i t" "t \<le> n" using inv that Refilling by (simp_all add: thread_inv_def)
    then show ?thesis using o(2,3) by (auto simp: due_def)
  qed
  then show ?thesis
    using st inv Refilling by (auto simp: thread_step_def goto_def thread_inv_def overtaken_def progress_def)
next
  case Refilled
  have w: "wait_interval (limiter_config (bucket s)) = interval_ns (bucket s)"
    using small system_bucket(2) [OF r] by (simp add: wait_interval_exact)
  then show ?thesis
    using st inv Refilled
    by (auto simp: thread_step_def goto_def thread_inv_def due_def overtaken_def progress_def)
qed (use st inv in \<open>auto simp: thread_step_def goto_def thread_inv_def due_def overtaken_def progress_def
      split: if_splits option.splits limiter_call.splits\<close>)

lemma thread_inv_same:
  assumes "bucket s' = bucket s" "clock_time s' = clock_time s" "granted s' = granted s" "resets s' = resets s"
    and "pcs s' i = pcs s i" "seen s' i = seen s i" "slept s' i = slept s i"
  shows "thread_inv s' i = thread_inv s i"
  unfolding thread_inv_def due_def overtaken_def progress_def assms ..

lemma thread_inv_tick:
  assumes "thread_inv s i" and "clock_time s \<le> t"
  shows "thread_inv (s\<lparr>clock_time := t\<rparr>) i"
proof -
  have d: "due (s\<lparr>clock_time := t\<rparr>) i = due s i" "overtaken (s\<lparr>clock_time := t\<rparr>) i = overtaken s i"
      "progress (s\<lparr>clock_time := t\<rparr>) = progress s"
    by (simp_all add: fun_eq_iff due_def overtaken_def progress_def)
  show ?thesis
  proof (cases "pcs s i")
    case (Decided wait)
    with assms d show ?thesis by (cases wait) (auto simp: thread_inv_def elim: due_later)
  next
    case (Unlocked wait)
    with assms d show ?thesis by (cases wait) (auto simp: thread_inv_def elim: due_later)
  qed (use assms d in \<open>auto simp: thread_inv_def\<close>)
qed

lemma system_thread_inv:
  assumes "refill_interval (sanitized config) < ns_to_ms int64_max"
  shows "system_reachable config t0 s \<Longrightarrow> thread_inv s i"
proof (induction arbitrary: i rule: system_reachable.induct)
  case start
  show ?case by (simp add: limiter_start_def thread_inv_def progress_def)
next
  case (tick s t i)
  then show ?case by (simp add: thread_inv_tick)
next
  case (enter s j m s' i)
  note k = enter_keeps [OF enter.hyps(2)]
  show ?case
  proof (cases "i = j")
    case True
    with k enter.IH [of i] show ?thesis by (simp add: thread_inv_def progress_def)
  next
    case False
    with k enter.IH [of i] show ?thesis by (subst thread_inv_same [of s' s]) simp_all
  qed
next
  case (run s j s' i)
  show ?case
  proof (cases "i = j")
    case True
    with thread_inv_self [OF run.hyps(1) _ run.IH assms] run.hyps(2) show ?thesis by blast
  next
    case False
    show ?thesis by (rule thread_inv_others [OF run.hyps False run.IH])
  qed
qed

text \<open>A schedule: which thread moves, which calls are made, and how time passes.\<close>

datatype schedule_item = Tick nanoseconds | Enter nat limiter_method | Run nat

fun run_schedule :: "schedule_item list \<Rightarrow> limiter_system \<Rightarrow> limiter_system option" where
  "run_schedule [] s = Some s"
| "run_schedule (Tick d # xs) s = (if 0 \<le> d then run_schedule xs (s\<lparr>clock_time := clock_time s + d\<rparr>) else None)"
| "run_schedule (Enter i m # xs) s = (case enter i m s of None \<Rightarrow> None | Some s' \<Rightarrow> run_schedule xs s')"
| "run_schedule (Run i # xs) s = (case thread_step i s of None \<Rightarrow> None | Some s' \<Rightarrow> run_schedule xs s')"

lemma run_schedule_reachable:
  "run_schedule xs s = Some s' \<Longrightarrow> system_reachable config t0 s \<Longrightarrow> system_reachable config t0 s'"
proof (induction xs s rule: run_schedule.induct)
  case (2 d xs s)
  have "0 \<le> d" using "2.prems"(1) by (simp split: if_splits)
  with 2 system_reachable.tick [OF "2.prems"(2), of "clock_time s + d"] show ?case by simp
qed (auto intro: system_reachable.enter system_reachable.run split: option.splits)

section \<open>Properties\<close>

text \<open>
  C3: threads that share a limiter. In every state of every interleaving, at most one thread is in a
  critical section; whenever the mutex is free the bucket and the clock are a state of the atomic
  step relation, so the critical sections act at once; and the tokens granted to all threads
  together, times the refill interval, are at most the initial tokens (once more for every reset)
  times the interval, plus the time elapsed.
\<close>

theorem threads_atomic:
  assumes "system_reachable config t0 s"
  shows "(in_section (pcs s i) \<longrightarrow> in_section (pcs s j) \<longrightarrow> i = j) \<and>
    (holder s = None \<longrightarrow> limiter_reachable config (bucket s, clock_time s)) \<and>
    int (granted s) * ms_to_ns (refill_interval (sanitized config)) \<le>
      int (Suc (resets s)) * (uint (initial_tokens (sanitized config)) * ms_to_ns (refill_interval (sanitized config))) +
      (clock_time s - t0)"
proof -
  have "0 \<le> credit (bucket s) (clock_time s)"
    using system_bucket(1) [OF assms] interval_pos [OF system_bucket(1) [OF assms]] by (simp add: credit_def bucket_inv_def)
  then show ?thesis
    using mutual_exclusion [OF assms, of i] mutual_exclusion [OF assms, of j] system_atomic [OF assms] system_rate [OF assms]
    by (auto simp: atomic_inv_def rate_inv_def)
qed

text \<open>Two threads and one token: the first takes it, the second sleeps, and a third takes the next one.\<close>

definition contention :: "schedule_item list" where
  "contention =
    [Enter 0 Call_acquire, Enter 1 Call_acquire, Run 0, Tick 5, Run 0, Run 0, Run 0, Run 0, Run 1, Run 0, Run 1, Run 1,
     Run 1, Run 1, Run 1, Tick 1000000000, Run 1, Enter 2 Call_try_acquire, Run 2, Run 2, Run 2, Run 2, Run 2, Run 1, Run 1, Run 1]"

definition one_token :: RateLimiterConfig where
  "one_token = default_RateLimiterConfig\<lparr>max_tokens := 1\<rparr>"

lemma contention_run:
  obtains s where "run_schedule contention (limiter_start one_token 0) = Some s" "pcs s 1 = Refilled" "tokens (bucket s) = 0"
    "slept s 1 = Some 1000000005" "granted s = 2" "clock_time s = 1000000005" "resets s = 0"
proof -
  have "map_option (\<lambda>s. (pcs s 1, tokens (bucket s), slept s 1, granted s, clock_time s, resets s))
      (run_schedule contention (limiter_start one_token 0)) =
      Some (Refilled, 0, Some 1000000005, 2, 1000000005, 0)"
    by code_simp
  with that show ?thesis by auto
qed

theorem threads_atomic_witness:
  "\<exists>s. run_schedule contention (limiter_start one_token 0) = Some s \<and> granted s = 2 \<and>
     int (granted s) * 1000000000 \<le> 1000000000 + clock_time s"
proof -
  obtain s where s: "run_schedule contention (limiter_start one_token 0) = Some s" "granted s = 2"
      "clock_time s = 1000000005" "resets s = 0" by (rule contention_run)
  have c: "refill_interval (sanitized one_token) = 1000" "uint (initial_tokens (sanitized one_token)) = 1"
    by code_simp+
  have "system_reachable one_token 0 s" by (rule run_schedule_reachable [OF s(1) system_reachable.start])
  from threads_atomic [OF this, of 1 1] s show ?thesis by (auto simp: c ms_to_ns_def)
qed

text \<open>
  C9: no wake-up is lost and no thread is stuck. A thread that slept as long as it was told and then
  finds no token has been overtaken: since it computed its wait, a token was granted to another
  thread or the bucket was reset. And in every state a thread in a call can move, or the holder of
  the mutex can, or the thread is asleep until a time that is still to come.
\<close>

theorem no_lost_wakeup:
  assumes "system_reachable config t0 s" and "refill_interval (sanitized config) < ns_to_ms int64_max"
  shows "(pcs s i = Refilled \<longrightarrow> tokens (bucket s) = 0 \<longrightarrow> slept s i \<noteq> None \<longrightarrow> seen s i < granted s + resets s) \<and>
    (pcs s i = Idle \<or> (\<exists>ok. pcs s i = Returned ok) \<or> thread_step i s \<noteq> None \<or>
     (\<exists>j. holder s = Some j \<and> thread_step j s \<noteq> None) \<or> (\<exists>t. pcs s i = Asleep t \<and> clock_time s < t))"
proof (intro conjI impI)
  show "seen s i < granted s + resets s" if "pcs s i = Refilled" "tokens (bucket s) = 0" "slept s i \<noteq> None"
    using system_thread_inv [OF assms(2,1), of i] that by (simp add: thread_inv_def overtaken_def progress_def)
  have holder: "\<exists>j. holder s = Some j \<and> thread_step j s \<noteq> None" if h: "holder s = Some j" for j
  proof -
    have "in_section (pcs s j)" using mutual_exclusion [OF assms(1), of j] h by simp
    with h show ?thesis by (cases "pcs s j") (simp_all add: thread_step_def)
  qed
  show "pcs s i = Idle \<or> (\<exists>ok. pcs s i = Returned ok) \<or> thread_step i s \<noteq> None \<or>
     (\<exists>j. holder s = Some j \<and> thread_step j s \<noteq> None) \<or> (\<exists>t. pcs s i = Asleep t \<and> clock_time s < t)"
  proof (cases "pcs s i")
    case At_Lock
    then show ?thesis using holder by (cases "holder s") (auto simp: thread_step_def)
  qed (simp_all add: thread_step_def not_le)
qed

theorem no_lost_wakeup_witness:
  "\<exists>s. run_schedule contention (limiter_start one_token 0) = Some s \<and> pcs s 1 = Refilled \<and> tokens (bucket s) = 0 \<and>
     seen s 1 < granted s + resets s"
proof -
  obtain s where s: "run_schedule contention (limiter_start one_token 0) = Some s" "pcs s 1 = Refilled"
      "tokens (bucket s) = 0" "slept s 1 = Some 1000000005" by (rule contention_run)
  have "refill_interval (sanitized one_token) < ns_to_ms int64_max" by code_simp
  moreover have "system_reachable one_token 0 s" by (rule run_schedule_reachable [OF s(1) system_reachable.start])
  ultimately show ?thesis using no_lost_wakeup [of one_token 0 s 1] s by auto
qed

end
