(* ===== verification/Spec2Isabelle.thy ===== *)
theory Spec2Isabelle
  imports Example_Programs Settlement Pagination Nbp_Bulletin Curl_Lifetime Limiter_Threads
begin

text \<open>
  nws-cpp is a C++ client library for the REST API of the United States National Weather Service.
  This development models its library code and its example programs, component by component, and
  proves what a program that relies on the library relies on. This theory imports all others, describes the whole, and
  holds the property that spans every component of a client.

  \<^bold>\<open>The program.\<close> A caller makes an \<open>NWSClient\<close> (\<open>src/api/client.cpp\<close>) and calls its methods. A method
  builds a path and a query, with user data percent-encoded (\<open>include/nws/detail/url_encode.hpp\<close>), and
  hands it to \<open>do_get\<close>. That runs \<open>with_retry\<close> (\<open>include/nws/retry.hpp\<close>) over a request that first takes a
  token of the rate limiter (\<open>src/core/rate_limit.cpp\<close>), waiting for one if it must, and then makes one
  transfer through libcurl (\<open>src/http/client.cpp\<close>). The response becomes a body or an error
  (\<open>src/core/error.cpp\<close>); the body is parsed and walked by the null-safe accessors of
  \<open>src/models/glaze_detail.cpp\<close> into the model structures of \<open>src/models\<close>, whose measured values carry
  units (\<open>src/core/units.cpp\<close>). Resolved points are kept in an LRU cache with a time to live
  (\<open>include/nws/cache.hpp\<close>). Beside the client there are an iterator over pages
  (\<open>include/nws/pagination.hpp\<close>) and three parsers for text products: the daily climate report and the
  monthly climate table (\<open>src/models/cli_report.cpp\<close>) and the NBP guidance bulletin
  (\<open>src/models/nbp_bulletin.cpp\<close>).

  \<^bold>\<open>The theories.\<close>
  \<^item> \<open>Nws_Prelude\<close>: the rule collections, the result type (\<open>std::expected\<close> as a sum), the clock and
    sleeping thread as an environment over a world of any type, strings, integers and durations,
    and the locale \<open>simulation\<close>.
  \<^item> \<open>Binary64\<close>: IEEE binary64 values (NaNs with sign and payload) and rounding on rationals, executable;
    monotonicity of rounding and exactness on small integers. \<open>Json\<close>: the document tree.
  \<^item> \<open>Nws_Error\<close>: \<open>ErrorCode\<close>, \<open>Error\<close>, \<open>from_response\<close>.
  \<^item> \<open>Url_Encode\<close>: \<open>encode_query_value\<close>; the locale \<open>component_codec\<close> is what a query builder needs of an
    encoder, and is discharged for it.
  \<^item> \<open>Rate_Limit\<close>: every operation of \<open>RateLimiter\<close>; an inductive transition system for its critical
    sections; the bucket invariant, the bound on tokens in any window, absence of overflow, and that
    a blocking acquisition returns. \<open>Limiter_Threads\<close>: threads that share a limiter, interleaved at
    single accesses (the mutex, each reading of the clock, each update, sleeping); the lock makes the
    critical sections atomic, so that the transition system describes them, the rate holds for all
    threads together, no wake-up is lost and no thread is stuck.
  \<^item> \<open>Http_Client\<close>: \<open>HttpClient::get\<close> with the options it sets, the body and header callbacks and every
    error path. \<open>Curl_Lifetime\<close>: the process-wide \<open>CurlRuntime\<close>, easy handles, and constructing, moving
    and destroying clients, as a state machine that logs the calls to libcurl; in every reachable
    state the log is one that libcurl's documentation allows.
  \<^item> \<open>Retry\<close>: the retry decisions, the delay in double arithmetic, the loop with its 8-bit counter. The
    locale \<open>retried_operation\<close> is what the loop needs of the operation it repeats; \<open>Nws_Client\<close>
    interprets it on the rate-limited request. \<open>steady_operation\<close> (in \<open>Steady_Service\<close>) extends it to an
    operation that keeps giving the same answer.
  \<^item> \<open>Lru_Cache\<close>: the list with its iterators, the map, eviction, expiry and the roll-back of a failed
    allocation; \<open>simulation\<close> is interpreted on it with a plain recency list as specification, and the
    coherence and retention of entries follow from that.
  \<^item> \<open>Pagination\<close>: \<open>PaginatedIterator\<close> over any fetch function, and the page query.
  \<^item> \<open>Units\<close>: unit codes, conversions, quantitative values.
  \<^item> \<open>Json_Walk\<close>: the accessors, geometry and features, and the locale \<open>json_deserializer\<close>, the contract
    the deserializers of \<open>Model_Location\<close> (points, stations, zones, radar, offices, products,
    glossary) and \<open>Model_Weather\<close> (forecasts, observations, gridpoints, alerts, aviation) meet.
  \<^item> \<open>Wire_Format\<close>, \<open>Location_Wire\<close>, \<open>Weather_Wire\<close>: reference printers of the models as JSON, and that every
    deserializer reads back what they print, field by field. The locale \<open>wire_format\<close> is the contract of
    a printer with its reader; \<open>properties_format\<close> and \<open>feature_format\<close> extend it once for all from a
    properties object to a GeoJSON feature and to a collection, and are interpreted on each model.
  \<^item> \<open>Text_Scan\<close>: the character classes, \<open>std::from_chars\<close>, tokens, and the locale \<open>line_reader\<close>, what a
    parser may assume of its loop over the lines; both text parsers interpret it on their own loop.
    \<open>Nbp_Bulletin\<close> and \<open>Cli_Report\<close> hold the parsers line by line as the sources have them, and the
    closed forms of what their loops compute; \<open>Nbp_Bulletin\<close>, \<open>Cli_Roundtrip\<close> and \<open>Cf6_Roundtrip\<close> print a
    bulletin (its blocks with or without an end mark), a daily report and a monthly table, and show
    that they parse back, with either kind of line break.
  \<^item> \<open>Nws_Client\<close>: the request pipeline, query and path builders, every endpoint, the point cache.
    \<open>Api_Session\<close>: sequences of method calls, and one contract that all methods meet.
    \<open>Steady_Service\<close>: a service whose transfers all end in the same way; what every method returns when
    that way is a failure, and exactly how many requests the service sees; and requests that are
    refused before they are sent, of which it sees none.
  \<^item> \<open>End_To_End\<close>: the whole stack on a service that answers (\<open>answers\<close>, \<open>holds_at\<close>): a method returns the
    very model whose JSON the service holds at the method's path, after one transfer per request, for
    every endpoint and for the methods that combine them.
    \<open>Settlement\<close>: the archive reader, and that the daily report fetched through the client, the monthly
    table and the archive agree on a day: on its date, temperatures and flags whichever office issued
    the report, and on the station when the header of the report names the site.
    \<open>Example_Programs\<close>: the programs of \<open>examples\<close>, as functions from the platform to what they write and
    their exit code; that they end whatever the service answers, and what they print when it answers.

  A definition has the name of the C++ function or structure it translates, with the class as a
  prefix where the name alone would be ambiguous (\<open>LruCache_put\<close> for \<open>LruCache::put\<close>). Methods that change
  their object return it updated; \<open>std::unexpected\<close> is \<open>Inl\<close>; undefined behaviour (an invalid
  iterator, \<open>back()\<close> of an empty list, the static runtime after its destruction) and not returning
  are \<open>None\<close>, and theorems show that the operations do return. Integers whose width matters are
  words or integers with the range written out.

  \<^bold>\<open>Loops.\<close> There is no fuel. Loops over data and counters are functions with a termination measure.
  The two loops that may run forever in principle, \<open>acquire_until\<close> and \<open>collect_loop\<close>, are partial
  functions, and \<open>acquire_terminates\<close>, \<open>acquire_until_deadline\<close> and \<open>collect_all_pages\<close> show that they return:
  for a steady clock, and for a server with finitely many cursors.

  \<^bold>\<open>Parameters.\<close> Code that is not in the repository is an argument of the definitions that use it:
  libcurl (\<open>'w curl\<close>: which options it accepts, what a transfer delivers), the JSON reader of glaze
  (\<open>json_reader\<close>), \<open>std::to_chars\<close>, \<open>std::format\<close> and the stream output of a double, the draw of the jitter, the clock and the
  sleeping thread. \<open>platform_ok\<close> and \<open>steady_env\<close> state what is relied on: no call turns time back, a
  reading lies between the times before and after it, a sleep lasts at least as long as asked, and
  only \<open>curl_easy_perform\<close> makes a transfer. \<open>demo_platform\<close> is an instance that meets it, and
  \<open>demo_service\<close> one that also answers.

  \<^bold>\<open>Not modelled.\<close>
  \<^item> The mutex of the cache: each operation holds it throughout, so concurrent callers interleave whole
    operations, and the theorems on sequences of operations (\<open>cache_step\<close>) speak of any such
    interleaving. The memory model below the mutex of the limiter: accesses under a lock are taken to
    be sequentially consistent, as the language guarantees for programs without data races.
  \<^item> Moving an \<open>NWSClient\<close>, which hands over one pointer; moving an \<open>HttpClient\<close> is in \<open>Curl_Lifetime\<close>.
  \<^item> \<open>std::bad_alloc\<close>, except where the code handles it (the callbacks of libcurl, \<open>LruCache::put\<close>); in
    \<open>get_point\<close> the insertion into the cache is taken to succeed.
  \<^item> The structures \<open>RetryResult\<close>, \<open>GetStationsParams\<close>, \<open>GetZonesParams\<close> and \<open>GetProductsParams\<close>, which no
    operation uses; the type aliases and umbrella headers; the option constant of the JSON reader.
  \<^item> The tests, the parse benchmark and the build, which use the library.
\<close>

section \<open>Sessions\<close>

text \<open>
  C1: the whole client, over any sequence of calls of its methods, with any mix of cached points,
  retries, waiting, refused requests and malformed answers: every call returns; the transfers sent
  are at most \<open>max_attempts\<close> per request a method makes, and at most the initial tokens plus one per
  refill interval elapsed (both sides scaled by the interval in nanoseconds); and the point cache
  never holds more than \<open>max_entries\<close> entries.
\<close>

theorem session_rate_bound:
  assumes "platform_ok P tm transfers" and "now \<le> tm w"
    and "refill_interval (sanitized (rate_limit cfg)) < ns_to_ms int64_max"
  shows "\<exists>rs c' w'. session P xs (make_NWSClient g i cfg now) w = Some (rs, c', w') \<and> length rs = length xs \<and>
    transfers w' \<le> transfers w + sum_list (map request_count xs) * unat (max_attempts (retry cfg)) \<and>
    (int (transfers w') - int (transfers w)) * ms_to_ns (refill_interval (sanitized (rate_limit cfg))) \<le>
      uint (initial_tokens (sanitized (rate_limit cfg))) * ms_to_ns (refill_interval (sanitized (rate_limit cfg))) +
      (tm w' - now) \<and>
    (case points_cache c' of None \<Rightarrow> \<not> enable_cache cfg
     | Some lc \<Rightarrow> enable_cache cfg \<and> LruCache_size lc \<le> unat (max_entries (cache cfg)))"
proof -
  from session_ok [OF make_client_ok [OF assms], of xs g i] obtain rs c' w' where
    s: "session P xs (make_NWSClient g i cfg now) w = Some (rs, c', w')" "length rs = length xs"
      "client_ok P tm transfers cfg (start_budget (sanitized (rate_limit cfg)) now (transfers w)) c' w'"
      "transfers w' \<le> transfers w + sum_list (map request_count xs) * unat (max_attempts (retry cfg))" by blast
  have "case points_cache c' of None \<Rightarrow> \<not> enable_cache cfg
      | Some lc \<Rightarrow> enable_cache cfg \<and> LruCache_size lc \<le> unat (max_entries (cache cfg))"
    using s(3) lru_invD(1,3) linked_size by (fastforce simp: client_ok_def LruCache_size_def split: option.splits)
  moreover from s(3) have "pipeline_ok P tm transfers (sanitized (rate_limit cfg))
      (start_budget (sanitized (rate_limit cfg)) now (transfers w)) (rate_limiter c', w')" by (simp add: client_ok_def)
  note pipeline_rate [OF this]
  ultimately show ?thesis using s(1,2,4) by blast
qed

theorem session_rate_bound_witness:
  "\<exists>rs c' t n. session (demo_platform JNull) [Get_current_weather (Fin False 0) (Fin False 0), Get_glossary]
      (make_NWSClient True True demo_config 0) (0, 0) = Some (rs, c', t, n) \<and>
     length rs = 2 \<and> n \<le> 12 \<and> int n * 1000000000 \<le> 5 * 1000000000 + t"
proof -
  have s: "refill_interval (sanitized (rate_limit demo_config)) = 1000"
    "uint (initial_tokens (sanitized (rate_limit demo_config))) = 5"
    "unat (max_attempts (retry demo_config)) = 3"
    by (simp_all add: demo_config_def sanitized_def default_RateLimiterConfig_def default_RetryPolicy_def)
  have b: "(1000::int) < ns_to_ms int64_max" by (simp add: ns_to_ms_def sdiv_nonneg)
  from session_rate_bound [where now = 0 and w = "(0, 0)" and cfg = demo_config and g = True and i = True
      and xs = "[Get_current_weather (Fin False 0) (Fin False 0), Get_glossary]",
      OF demo_platform_ok [of JNull], unfolded s]
  show ?thesis using b by (fastforce simp: ms_to_ns_def)
qed

end
